theory Spec2Isabelle
  imports Complex_Main "HOL-Library.Sublist"
begin

section \<open>Strings and numbers of the host language\<close>

text \<open>
  A TypeScript string is a sequence of code units; \<open>length\<close>, \<open>slice\<close> and \<open>+\<close> work on
  code units. The embedding uses \<^typ>\<open>string\<close>, one \<^typ>\<open>char\<close> per code unit.
\<close>

text \<open>
  \<open>text.slice(k)\<close> with one integer argument: a negative \<open>k\<close> counts from the end and is
  clamped at the start of the string, a non-negative \<open>k\<close> is clamped at its end.
\<close>

definition js_slice_from :: "int \<Rightarrow> 'a list \<Rightarrow> 'a list" where
  "js_slice_from k xs =
     (if k < 0 then drop (nat (max (int (length xs) + k) 0)) xs
      else drop (nat (min k (int (length xs)))) xs)"

text \<open>
  Decimal rendering of an integer, as a template literal prints a number that is an
  integer of magnitude below \<open>10^21\<close>.
\<close>

definition digit_char :: "nat \<Rightarrow> char" where
  "digit_char d = ''0123456789'' ! d"

fun show_nat :: "nat \<Rightarrow> string" where
  "show_nat n = (if n < 10 then [digit_char n] else show_nat (n div 10) @ [digit_char (n mod 10)])"

declare show_nat.simps [simp del]

definition show_int :: "int \<Rightarrow> string" where
  "show_int i = (if i < 0 then CHR ''-'' # show_nat (nat (- i)) else show_nat (nat i))"

section \<open>Output truncation (\<open>subagents.ts\<close>)\<close>

text \<open>
  \<open>truncateText\<close>, with the configuration constant \<open>TRUNCATE_LEN\<close> as its first argument.
  The three branches are tested in the order of the source: longer than \<open>TRUNCATE_LEN\<close>,
  then empty, then everything else.
\<close>

definition truncated_prefix :: "int \<Rightarrow> string" where
  "truncated_prefix TRUNCATE_LEN = ''[TRUNCATED: Last '' @ show_int TRUNCATE_LEN @ '' chars shown].. ''"

definition truncateText :: "int \<Rightarrow> string \<Rightarrow> string" where
  "truncateText TRUNCATE_LEN text =
     (if int (length text) > TRUNCATE_LEN
        then truncated_prefix TRUNCATE_LEN @ js_slice_from (- TRUNCATE_LEN) text
      else if length text = 0 then ''[EMPTY OUTPUT]''
      else ''[FULL OUTPUT SHOWN]... '' @ text)"

section \<open>JavaScript values\<close>

text \<open>
  A number is an IEEE double: a finite value (a rational), one of the two infinities,
  or NaN. The embedding identifies \<open>-0\<close> with \<open>0\<close>.
\<close>

datatype jsnum = Fin rat | PosInf | NegInf | NaN

datatype jsval =
    JUndefined
  | JNull
  | JBool bool
  | JNum jsnum
  | JStr string
  | JArr "jsval list"
  | JObj "(string \<times> jsval) list"

text \<open>\<open>Number.isFinite\<close> and the relational operators on numbers; every comparison with NaN is false.\<close>

fun isFinite :: "jsnum \<Rightarrow> bool" where
  "isFinite (Fin q) = True"
| "isFinite n = False"

fun js_lt :: "jsnum \<Rightarrow> jsnum \<Rightarrow> bool" where
  "js_lt NaN b = False"
| "js_lt a NaN = False"
| "js_lt (Fin a) (Fin b) = (a < b)"
| "js_lt (Fin a) PosInf = True"
| "js_lt (Fin a) NegInf = False"
| "js_lt PosInf b = False"
| "js_lt NegInf NegInf = False"
| "js_lt NegInf b = True"

definition js_gt :: "jsnum \<Rightarrow> jsnum \<Rightarrow> bool" where
  "js_gt a b = js_lt b a"

definition js_le :: "jsnum \<Rightarrow> jsnum \<Rightarrow> bool" where
  "js_le a b = (a \<noteq> NaN \<and> b \<noteq> NaN \<and> (js_lt a b \<or> a = b))"

text \<open>
  \<open>a + b\<close> on numbers. The sum of two finite doubles is the exact sum rounded to a
  double, which may be an infinity; the rounding is the parameter \<open>round_double\<close>.
\<close>

fun js_add :: "(rat \<Rightarrow> jsnum) \<Rightarrow> jsnum \<Rightarrow> jsnum \<Rightarrow> jsnum" where
  "js_add round_double (Fin a) (Fin b) = round_double (a + b)"
| "js_add round_double NaN b = NaN"
| "js_add round_double a NaN = NaN"
| "js_add round_double PosInf NegInf = NaN"
| "js_add round_double NegInf PosInf = NaN"
| "js_add round_double PosInf b = PosInf"
| "js_add round_double NegInf b = NegInf"
| "js_add round_double (Fin a) PosInf = PosInf"
| "js_add round_double (Fin a) NegInf = NegInf"

text \<open>
  Property reads. \<open>js_get v k\<close> is \<open>v.k\<close> for a value \<open>v\<close> that is neither \<open>null\<close> nor
  \<open>undefined\<close> and a name \<open>k\<close> that is no built-in property of strings, numbers or
  arrays (all names read by this program are such); \<open>js_get_opt v k\<close> is \<open>v?.k\<close>.
\<close>

fun js_get :: "jsval \<Rightarrow> string \<Rightarrow> jsval" where
  "js_get (JObj kvs) k = (case map_of kvs k of Some v \<Rightarrow> v | None \<Rightarrow> JUndefined)"
| "js_get v k = JUndefined"

fun js_get_opt :: "jsval \<Rightarrow> string \<Rightarrow> jsval" where
  "js_get_opt JUndefined k = JUndefined"
| "js_get_opt JNull k = JUndefined"
| "js_get_opt v k = js_get v k"

text \<open>\<open>a ?? b\<close> for an operand that is a value, and for one that is a number or \<open>undefined\<close>.\<close>

fun nullish :: "jsval \<Rightarrow> jsval \<Rightarrow> jsval" where
  "nullish JUndefined b = b"
| "nullish JNull b = b"
| "nullish a b = a"

fun coalesce :: "'a option \<Rightarrow> 'a \<Rightarrow> 'a" where
  "coalesce (Some a) b = a"
| "coalesce None b = b"

section \<open>Provider configuration (\<open>provider_config.ts\<close>)\<close>

subsection \<open>Usage normalisation\<close>

record Usage =
  prompt_tokens :: jsnum
  completion_tokens :: jsnum
  total_tokens :: jsnum
  cached_tokens :: jsnum
  reasoning_tokens :: jsnum
  cost :: jsnum

text \<open>\<open>coercePositiveNumber\<close>: \<open>None\<close> is \<open>undefined\<close>.\<close>

fun coercePositiveNumber :: "jsval \<Rightarrow> jsnum option" where
  "coercePositiveNumber (JNum n) =
     (if \<not> isFinite n \<or> js_le n (Fin 0) then None else Some n)"
| "coercePositiveNumber v = None"

definition normalizeUsage :: "(rat \<Rightarrow> jsnum) \<Rightarrow> jsval \<Rightarrow> Usage" where
  "normalizeUsage round_double rawUsage =
     (let usage = nullish rawUsage (JObj []);
          usageMetadata = js_get usage ''usageMetadata'';
          promptTokens =
            coalesce (coercePositiveNumber (js_get usage ''prompt_tokens''))
              (coalesce (coercePositiveNumber (js_get_opt usageMetadata ''promptTokenCount''))
                 (Fin 0));
          completionTokens =
            coalesce (coercePositiveNumber (js_get usage ''completion_tokens''))
              (coalesce (coercePositiveNumber (js_get_opt usageMetadata ''candidatesTokenCount''))
                 (Fin 0));
          totalTokens =
            coalesce (coercePositiveNumber (js_get usage ''total_tokens''))
              (coalesce (coercePositiveNumber (js_get_opt usageMetadata ''totalTokenCount''))
                 (js_add round_double promptTokens completionTokens));
          promptTokenDetails = js_get usage ''prompt_tokens_details'';
          completionTokenDetails = js_get usage ''completion_tokens_details''
      in \<lparr> prompt_tokens = promptTokens,
           completion_tokens = completionTokens,
           total_tokens = totalTokens,
           cached_tokens =
             coalesce (coercePositiveNumber (js_get_opt promptTokenDetails ''cached_tokens'')) (Fin 0),
           reasoning_tokens =
             coalesce (coercePositiveNumber (js_get_opt completionTokenDetails ''reasoning_tokens''))
               (Fin 0),
           cost =
             (case js_get usage ''cost'' of
                JNum n \<Rightarrow> if isFinite n then n else Fin 0
              | _ \<Rightarrow> Fin 0) \<rparr>)"

text \<open>The object that \<open>normalizeUsage\<close> returns, as a value that can be passed to it again.\<close>

definition usage_to_js :: "Usage \<Rightarrow> jsval" where
  "usage_to_js u = JObj
     [(''prompt_tokens'', JNum (prompt_tokens u)),
      (''completion_tokens'', JNum (completion_tokens u)),
      (''total_tokens'', JNum (total_tokens u)),
      (''cached_tokens'', JNum (cached_tokens u)),
      (''reasoning_tokens'', JNum (reasoning_tokens u)),
      (''cost'', JNum (cost u))]"

text \<open>A number that is not negative (NaN is not).\<close>

definition js_nonneg :: "jsnum \<Rightarrow> bool" where
  "js_nonneg n = js_le (Fin 0) n"

text \<open>
  The wording of the specification: the first of a field's sources that is a finite number
  above zero, and a default when none is.
\<close>

fun first_positive :: "jsval list \<Rightarrow> jsnum \<Rightarrow> jsnum" where
  "first_positive [] d = d"
| "first_positive (JNum (Fin q) # vs) d = (if 0 < q then Fin q else first_positive vs d)"
| "first_positive (v # vs) d = first_positive vs d"

subsection \<open>Runtime model selection\<close>

text \<open>An \<open>EnvGetter\<close>: \<open>None\<close> is \<open>undefined\<close>.\<close>

type_synonym EnvGetter = "string \<Rightarrow> string option"

text \<open>
  \<open>String.prototype.trim\<close> removes white space and line terminators at both ends; among the
  code units below 256 these are TAB, LF, VT, FF, CR, SPACE and NBSP.
\<close>

definition js_whitespace :: "char \<Rightarrow> bool" where
  "js_whitespace c = (of_char c \<in> {9, 10, 11, 12, 13, 32, 160 :: nat})"

definition js_trim :: "string \<Rightarrow> string" where
  "js_trim s = rev (dropWhile js_whitespace (rev (dropWhile js_whitespace s)))"

definition getEnvValue :: "string \<Rightarrow> EnvGetter \<Rightarrow> string option" where
  "getEnvValue name getEnv =
     (case getEnv name of
        None \<Rightarrow> None
      | Some raw \<Rightarrow> (let value = js_trim raw in if value \<noteq> [] then Some value else None))"

definition PRIMARY_FALLBACKS :: "string list" where
  "PRIMARY_FALLBACKS = [''gpt-5'', ''gpt-5.1'', ''gpt-5.2'', ''gpt-5-codex'']"

definition SUB_FALLBACKS :: "string list" where
  "SUB_FALLBACKS = [''gpt-5-codex-mini'', ''gpt-5.1-codex-mini'', ''gemini-2.5-flash'']"

datatype role = Primary | Sub

fun role_name :: "role \<Rightarrow> string" where
  "role_name Primary = ''primary''"
| "role_name Sub = ''sub''"

text \<open>
  The result of \<open>pickModel\<close>. \<open>selected\<close> is \<open>available[0]\<close> in the last branch, which is
  \<open>undefined\<close> (\<open>None\<close>) for an empty list; a template literal prints it as \<open>undefined\<close>.
\<close>

record picked =
  selected :: "string option"
  warning :: "string option"

record requested_models =
  requested_primaryAgent :: string
  requested_subAgent :: string

record RuntimeModelResolution =
  primaryAgent :: "string option"
  subAgent :: "string option"
  warnings :: "string list"

fun show_optional :: "string option \<Rightarrow> string" where
  "show_optional (Some s) = s"
| "show_optional None = ''undefined''"

text \<open>The loop over the built-in candidates: the first one that is available.\<close>

fun first_candidate :: "string list \<Rightarrow> string list \<Rightarrow> string option" where
  "first_candidate [] available = None"
| "first_candidate (candidate # rest) available =
     (if candidate \<in> set available then Some candidate else first_candidate rest available)"

definition pickModel :: "role \<Rightarrow> string \<Rightarrow> string list \<Rightarrow> EnvGetter \<Rightarrow> picked" where
  "pickModel role requested available getEnv =
     (if requested \<in> set available then \<lparr> selected = Some requested, warning = None \<rparr>
      else
        let fallbackEnvName = (if role = Primary then ''RLM_FALLBACK_PRIMARY'' else ''RLM_FALLBACK_SUB'');
            fallbackFromEnv = getEnvValue fallbackEnvName getEnv
        in if (case fallbackFromEnv of Some f \<Rightarrow> f \<in> set available | None \<Rightarrow> False)
           then \<lparr> selected = fallbackFromEnv,
                  warning = Some (''Requested '' @ role_name role @ '' model '' @ [CHR 0x27] @ requested
                     @ [CHR 0x27] @ '' is unavailable; using '' @ fallbackEnvName @ ''='' @ [CHR 0x27]
                     @ show_optional fallbackFromEnv @ [CHR 0x27] @ ''.'') \<rparr>
           else
             (case first_candidate (if role = Primary then PRIMARY_FALLBACKS else SUB_FALLBACKS) available of
                Some candidate \<Rightarrow>
                  \<lparr> selected = Some candidate,
                    warning = Some (''Requested '' @ role_name role @ '' model '' @ [CHR 0x27] @ requested
                      @ [CHR 0x27] @ '' is unavailable; using fallback '' @ [CHR 0x27] @ candidate
                      @ [CHR 0x27] @ ''.'') \<rparr>
              | None \<Rightarrow>
                  (let first = (case available of [] \<Rightarrow> None | a # _ \<Rightarrow> Some a)
                   in \<lparr> selected = first,
                        warning = Some (''Requested '' @ role_name role @ '' model '' @ [CHR 0x27] @ requested
                          @ [CHR 0x27] @ '' is unavailable; using first available model '' @ [CHR 0x27]
                          @ show_optional first @ [CHR 0x27] @ ''.'') \<rparr>)))"

text \<open>\<open>if (x.warning) warnings.push(x.warning)\<close>: a warning that is defined and not empty.\<close>

fun push_warning :: "string option \<Rightarrow> string list \<Rightarrow> string list" where
  "push_warning (Some w) ws = (if w \<noteq> [] then ws @ [w] else ws)"
| "push_warning None ws = ws"

definition resolveRuntimeModels :: "requested_models \<Rightarrow> string list \<Rightarrow> EnvGetter \<Rightarrow> RuntimeModelResolution" where
  "resolveRuntimeModels requested available getEnv =
     (let primary = pickModel Primary (requested_primaryAgent requested) available getEnv;
          sub = pickModel Sub (requested_subAgent requested) available getEnv;
          warnings = push_warning (warning sub) (push_warning (warning primary) [])
      in \<lparr> primaryAgent = selected primary, subAgent = selected sub, warnings = warnings \<rparr>)"

text \<open>
  The wording of the specification: \<open>chosen\<close> is the first member of the ordered list
  \<open>candidates\<close> that is available.
\<close>

definition first_available_of :: "string list \<Rightarrow> string list \<Rightarrow> string \<Rightarrow> bool" where
  "first_available_of candidates available chosen =
     (\<exists>before after. candidates = before @ chosen # after \<and> chosen \<in> set available
        \<and> (\<forall>c \<in> set before. c \<notin> set available))"

text \<open>
  The wording of the specification for one role: the environment variable of the role's
  fallback, its built-in ordered fallback list, and the order of preference among the
  fallbacks when the requested model is unavailable.
\<close>

definition fallback_env_name :: "role \<Rightarrow> string" where
  "fallback_env_name role = (if role = Primary then ''RLM_FALLBACK_PRIMARY'' else ''RLM_FALLBACK_SUB'')"

definition builtin_fallbacks :: "role \<Rightarrow> string list" where
  "builtin_fallbacks role =
     (if role = Primary then [''gpt-5'', ''gpt-5.1'', ''gpt-5.2'', ''gpt-5-codex'']
      else [''gpt-5-codex-mini'', ''gpt-5.1-codex-mini'', ''gemini-2.5-flash''])"

text \<open>
  What it is for a variable of the environment to name a model, stated on the environment
  itself: the variable is set to \<open>v\<close>, white space before and after it apart. A variable
  that is not set, or set to nothing but white space, names no model; one set to a model
  identifier with no white space around it names that identifier.
\<close>

definition env_names :: "EnvGetter \<Rightarrow> string \<Rightarrow> string \<Rightarrow> bool" where
  "env_names getEnv name v =
     (\<exists>raw before after. getEnv name = Some raw \<and> raw = before @ v @ after
        \<and> (\<forall>c \<in> set before. js_whitespace c) \<and> (\<forall>c \<in> set after. js_whitespace c)
        \<and> v \<noteq> [] \<and> \<not> js_whitespace (hd v) \<and> \<not> js_whitespace (last v))"

definition chosen_by_priority :: "role \<Rightarrow> string list \<Rightarrow> EnvGetter \<Rightarrow> string \<Rightarrow> bool" where
  "chosen_by_priority role available getEnv chosen =
     (if \<exists>f. env_names getEnv (fallback_env_name role) f \<and> f \<in> set available
        then env_names getEnv (fallback_env_name role) chosen
      else if \<exists>c \<in> set (builtin_fallbacks role). c \<in> set available
        then first_available_of (builtin_fallbacks role) available chosen
      else chosen = available ! 0)"

text \<open>
  The wording of the specification for the result of one role: the requested model without
  a warning when it is available, and otherwise an available model chosen by the order of
  preference, with a warning that names the role, the requested model and the chosen one.
\<close>

definition selection_ok :: "role \<Rightarrow> string \<Rightarrow> string list \<Rightarrow> EnvGetter \<Rightarrow> picked \<Rightarrow> bool" where
  "selection_ok role requested available getEnv p =
     (if requested \<in> set available then selected p = Some requested \<and> warning p = None
      else \<exists>chosen w. selected p = Some chosen \<and> warning p = Some w
             \<and> chosen \<in> set available \<and> chosen_by_priority role available getEnv chosen
             \<and> sublist (role_name role) w \<and> sublist requested w \<and> sublist chosen w)"

section \<open>Errors, exit codes and redaction (\<open>cli_common.ts\<close>)\<close>

datatype CliErrorKind =
    K_usage | K_config | K_proxy | K_model | K_runtime | K_output | K_interrupted | K_generic

text \<open>
  A thrown error object: its \<open>name\<close>, its \<open>message\<close>, and the \<open>kind\<close> it carries when it is a
  \<open>CliError\<close> (\<open>err instanceof CliError\<close> is \<open>exn_kind err \<noteq> None\<close>).
\<close>

datatype js_exn = Exn (exn_name: string) (exn_message: string) (exn_kind: "CliErrorKind option")

definition new_Error :: "string \<Rightarrow> js_exn" where
  "new_Error message = Exn ''Error'' message None"

definition new_CliError :: "CliErrorKind \<Rightarrow> string \<Rightarrow> js_exn" where
  "new_CliError kind message = Exn ''CliError'' message (Some kind)"

text \<open>\<open>String(err)\<close> for an error object (\<open>Error.prototype.toString\<close>).\<close>

definition String_of_error :: "js_exn \<Rightarrow> string" where
  "String_of_error err =
     (if exn_name err = [] then exn_message err
      else if exn_message err = [] then exn_name err
      else exn_name err @ '': '' @ exn_message err)"

definition EXIT_OK :: int where "EXIT_OK = 0"
definition EXIT_GENERIC :: int where "EXIT_GENERIC = 1"
definition EXIT_USAGE :: int where "EXIT_USAGE = 2"
definition EXIT_CONFIG :: int where "EXIT_CONFIG = 3"
definition EXIT_PROXY :: int where "EXIT_PROXY = 4"
definition EXIT_MODEL :: int where "EXIT_MODEL = 5"
definition EXIT_RUNTIME :: int where "EXIT_RUNTIME = 6"
definition EXIT_OUTPUT_WRITE :: int where "EXIT_OUTPUT_WRITE = 7"
definition EXIT_INTERRUPTED :: int where "EXIT_INTERRUPTED = 130"

definition exitCodeForError :: "js_exn \<Rightarrow> int" where
  "exitCodeForError err =
     (case exn_kind err of
        Some K_usage \<Rightarrow> EXIT_USAGE
      | Some K_config \<Rightarrow> EXIT_CONFIG
      | Some K_proxy \<Rightarrow> EXIT_PROXY
      | Some K_model \<Rightarrow> EXIT_MODEL
      | Some K_runtime \<Rightarrow> EXIT_RUNTIME
      | Some K_output \<Rightarrow> EXIT_OUTPUT_WRITE
      | Some K_interrupted \<Rightarrow> EXIT_INTERRUPTED
      | Some K_generic \<Rightarrow> EXIT_GENERIC
      | None \<Rightarrow> EXIT_GENERIC)"

subsection \<open>Redaction\<close>

text \<open>
  The first pattern, \<open>/Bearer\s+[A-Za-z0-9._-]+/gi\<close>: the word in any letter case, one or
  more white-space characters, one or more token characters. \<open>match_bearer s\<close> is the length
  of the match that starts at the first character of \<open>s\<close>. White space and token characters
  are disjoint classes, so the greedy match is the only one.
\<close>

definition bearer_word :: "string \<Rightarrow> bool" where
  "bearer_word w =
     list_all2 (\<lambda>c (lower, upper). c = lower \<or> c = upper) w
       [(CHR ''b'', CHR ''B''), (CHR ''e'', CHR ''E''), (CHR ''a'', CHR ''A''),
        (CHR ''r'', CHR ''R''), (CHR ''e'', CHR ''E''), (CHR ''r'', CHR ''R'')]"

definition token_char :: "char \<Rightarrow> bool" where
  "token_char c =
     (let n = (of_char c :: nat)
      in (65 \<le> n \<and> n \<le> 90) \<or> (97 \<le> n \<and> n \<le> 122) \<or> (48 \<le> n \<and> n \<le> 57)
         \<or> c = CHR ''.'' \<or> c = CHR ''_'' \<or> c = CHR ''-'')"

definition match_bearer :: "string \<Rightarrow> nat option" where
  "match_bearer s =
     (if bearer_word (take 6 s) then
        (let spaces = takeWhile js_whitespace (drop 6 s);
             token = takeWhile token_char (dropWhile js_whitespace (drop 6 s))
         in if spaces \<noteq> [] \<and> token \<noteq> [] then Some (6 + length spaces + length token) else None)
      else None)"

text \<open>
  \<open>replace\<close> with a global pattern: scan from the left, replace a match and go on behind
  it. A match has \<open>n \<ge> 1\<close> characters, so what follows it is \<open>drop (n - 1)\<close> of the tail.
\<close>

fun replace_bearer :: "string \<Rightarrow> string" where
  "replace_bearer [] = []"
| "replace_bearer (c # cs) =
     (case match_bearer (c # cs) of
        Some n \<Rightarrow> ''Bearer [REDACTED]'' @ replace_bearer (drop (n - 1) cs)
      | None \<Rightarrow> c # replace_bearer cs)"

text \<open>
  The second pattern, \<open>/(RLM_MODEL_API_KEY\s*=\s*)([^\s]+)/g\<close>, replaced by the first group
  and \<open>[REDACTED]\<close>. \<open>match_api_key s\<close> is the pair of the lengths of the first group and
  of the whole match.
\<close>

definition match_api_key :: "string \<Rightarrow> (nat \<times> nat) option" where
  "match_api_key s =
     (if take 17 s = ''RLM_MODEL_API_KEY'' then
        (let spaces1 = takeWhile js_whitespace (drop 17 s)
         in case dropWhile js_whitespace (drop 17 s) of
              [] \<Rightarrow> None
            | e # after_eq \<Rightarrow>
                if e = CHR ''='' then
                  (let spaces2 = takeWhile js_whitespace after_eq;
                       secret = takeWhile (\<lambda>c. \<not> js_whitespace c) (dropWhile js_whitespace after_eq);
                       group1 = 17 + length spaces1 + 1 + length spaces2
                   in if secret \<noteq> [] then Some (group1, group1 + length secret) else None)
                else None)
      else None)"

fun replace_api_key :: "string \<Rightarrow> string" where
  "replace_api_key [] = []"
| "replace_api_key (c # cs) =
     (case match_api_key (c # cs) of
        Some (g, n) \<Rightarrow> take g (c # cs) @ ''[REDACTED]'' @ replace_api_key (drop (n - 1) cs)
      | None \<Rightarrow> c # replace_api_key cs)"

definition redactSecrets :: "string \<Rightarrow> string" where
  "redactSecrets input = replace_api_key (replace_bearer input)"

section \<open>The agent (\<open>subagents.ts\<close>)\<close>

subsection \<open>Configuration\<close>

text \<open>
  The parsed \<open>rlm_config.yaml\<close>: \<open>None\<close> and \<open>JUndefined\<close> are absent keys. The three
  limits are integers; the token limits and \<open>max_money_spent\<close> are kept as the values read.
\<close>

record RlmConfig =
  max_calls_per_subagent :: "int option"
  max_depth :: "int option"
  truncate_len :: "int option"
  primary_agent :: "string option"
  sub_agent :: "string option"
  max_prompt_tokens :: jsval
  max_completion_tokens :: jsval
  max_money_spent :: jsval

definition MAX_CALLS :: "RlmConfig \<Rightarrow> int" where
  "MAX_CALLS config = coalesce (max_calls_per_subagent config) 20"

definition MAX_DEPTH :: "RlmConfig \<Rightarrow> int" where
  "MAX_DEPTH config = coalesce (max_depth config) 3"

definition TRUNCATE_LEN :: "RlmConfig \<Rightarrow> int" where
  "TRUNCATE_LEN config = coalesce (truncate_len config) 5000"

text \<open>\<open>resolveTokenLimits\<close> of \<open>provider_config.ts\<close>, one definition per limit.\<close>

definition MAX_PROMPT_TOKENS :: "RlmConfig \<Rightarrow> jsnum option" where
  "MAX_PROMPT_TOKENS config = coercePositiveNumber (max_prompt_tokens config)"

definition MAX_COMPLETION_TOKENS :: "RlmConfig \<Rightarrow> jsnum option" where
  "MAX_COMPLETION_TOKENS config = coercePositiveNumber (max_completion_tokens config)"

text \<open>\<open>a || b\<close> on optional strings: an absent or empty string is falsy.\<close>

fun or_else :: "string option \<Rightarrow> string option \<Rightarrow> string option" where
  "or_else (Some a) b = (if a \<noteq> [] then Some a else b)"
| "or_else None b = b"

definition resolveModelNames :: "RlmConfig \<Rightarrow> EnvGetter \<Rightarrow> requested_models" where
  "resolveModelNames config getEnv =
     \<lparr> requested_primaryAgent =
         show_optional (or_else (getEnvValue ''RLM_PRIMARY_AGENT'' getEnv)
           (or_else (primary_agent config) (Some ''gpt-5''))),
       requested_subAgent =
         show_optional (or_else (getEnvValue ''RLM_SUB_AGENT'' getEnv)
           (or_else (sub_agent config) (Some ''gpt-5-codex-mini''))) \<rparr>"

record ProxyClientConfig =
  apiKey :: string
  baseURL :: string

definition readRequiredEnv :: "string \<Rightarrow> EnvGetter \<Rightarrow> js_exn + string" where
  \<open>readRequiredEnv name getEnv =
     (case getEnvValue name getEnv of
        None \<Rightarrow> Inl (new_Error (''Missing required env var '' @ name
                 @ ''. Set it in .env and run via `deno task ...` ''
                 @ ''(tasks load .env via --env-file=.env), or use ./rlm and ./rlm-smoke wrappers.''))
      | Some v \<Rightarrow> Inr v)\<close>

definition resolveProxyClientConfig :: "EnvGetter \<Rightarrow> js_exn + ProxyClientConfig" where
  "resolveProxyClientConfig getEnv =
     (case readRequiredEnv ''RLM_MODEL_API_KEY'' getEnv of
        Inl err \<Rightarrow> Inl err
      | Inr key \<Rightarrow>
          (case readRequiredEnv ''RLM_MODEL_BASE_URL'' getEnv of
             Inl err \<Rightarrow> Inl err
           | Inr url \<Rightarrow>
               (let rawBaseUrl = rev (dropWhile (\<lambda>c. c = CHR ''/'') (rev url))
                in if drop (length rawBaseUrl - 3) rawBaseUrl \<noteq> ''/v1''
                   then Inl (new_Error
                          (''RLM_MODEL_BASE_URL must point to the OpenAI-compatible /v1 endpoint (received: ''
                             @ rawBaseUrl @ '').''))
                   else Inr \<lparr> apiKey = key, baseURL = rawBaseUrl \<rparr>)))"

subsection \<open>The world outside the agent\<close>

text \<open>The result of \<open>generate_code\<close> (\<open>call_llm.ts\<close>).\<close>

record CodeReturn =
  cr_code :: string
  cr_success :: bool
  cr_message :: jsval
  cr_usage :: Usage

text \<open>
  What one \<open>runPythonAsync\<close> does, as seen from the host: it prints to stdout or stderr
  (the callbacks given to \<open>loadPyodide\<close>), calls \<open>llm_query\<close> and goes on with what the call
  returned or threw, and in the end resolves or rejects, leaving the interpreter in a new
  state \<open>'p\<close>. Executions that end are covered; one that never ends leaves the agent
  waiting inside its turn.
\<close>

datatype 'p py =
    Return 'p
  | Raise js_exn 'p
  | Print string "'p py"
  | PrintErr string "'p py"
  | Query string "js_exn + jsval \<Rightarrow> 'p py"

text \<open>
  The collaborators of the agent, as parameters: the rounding of a sum to a double and the
  text of a number that is not a safe integer; the environment; the chat request of
  \<open>generate_code\<close> and the model list request of \<open>fetchAvailableModels\<close>, each a function
  of a hidden state \<open>'w\<close> of the outside world that returns a result or a thrown error;
  the Python interpreter (a fresh one, the run of a source text in a state, and the
  converted value of the global \<open>__final_result__\<close>, \<open>JUndefined\<close> for \<open>None\<close>);
  \<open>JSON.stringify\<close> on a value, which can throw, and on a string, which cannot; the two
  \<open>chalk\<close> styles used on stderr.
\<close>

record ('w, 'p) host =
  h_round :: "rat \<Rightarrow> jsnum"
  h_number_text :: "rat \<Rightarrow> string"
  h_getEnv :: EnvGetter
  h_generate_code :: "'w \<Rightarrow> jsval list \<Rightarrow> string option \<Rightarrow> (js_exn + CodeReturn) \<times> 'w"
  h_fetchAvailableModels :: "'w \<Rightarrow> ProxyClientConfig \<Rightarrow> (js_exn + string list) \<times> 'w"
  h_loadPyodide :: 'p
  h_runPython :: "'p \<Rightarrow> string \<Rightarrow> 'p py"
  h_final_result :: "'p \<Rightarrow> jsval"
  h_JSON_stringify :: "jsval \<Rightarrow> js_exn + string"
  h_JSON_quote :: "string \<Rightarrow> string"
  h_chalk_red :: "string \<Rightarrow> string"
  h_chalk_yellow :: "string \<Rightarrow> string"

text \<open>
  A number in a template literal (\<open>Number::toString\<close>). A number is a double; its text is
  the shortest decimal that reads back as the same double. For an integer of magnitude up
  to \<open>2^53 - 1\<close> (\<open>Number.MAX_SAFE_INTEGER\<close>) that is the integer's own decimal digits.
  From \<open>2^53\<close> on it is not: \<open>2^60\<close> is printed as \<open>1152921504606847000\<close>. The text of every
  number that is not such an integer is the parameter \<open>number_text\<close>.
\<close>

definition MAX_SAFE_INTEGER :: int where
  "MAX_SAFE_INTEGER = 9007199254740991"

definition js_number_string :: "(rat \<Rightarrow> string) \<Rightarrow> jsnum \<Rightarrow> string" where
  "js_number_string number_text n =
     (case n of
        NaN \<Rightarrow> ''NaN''
      | PosInf \<Rightarrow> ''Infinity''
      | NegInf \<Rightarrow> ''-Infinity''
      | Fin q \<Rightarrow> if of_int \<lfloor>q\<rfloor> = q \<and> \<bar>\<lfloor>q\<rfloor>\<bar> \<le> MAX_SAFE_INTEGER then show_int \<lfloor>q\<rfloor>
                 else number_text q)"

subsection \<open>Process-wide state\<close>

text \<open>One chat-completion request, as issued by the turn loop of the agent \<open>call_run\<close>.\<close>

record chat_call =
  call_run :: nat
  call_model :: "string option"
  call_messages :: "jsval list"

text \<open>
  Modelled from the spec: \<open>logging.ts\<close> is not among the sources. The specification has an
  append-only stream of events with a \<open>run_id\<close>, an optional \<open>parent_run_id\<close> and a
  \<open>depth\<close>; creating the \<open>Logger\<close> assigns a freshly generated, unique \<open>run_id\<close> and
  writes \<open>run_start\<close>. Run identifiers are drawn from a counter here.
\<close>

datatype log_event =
    Run_start (ev_run: nat) (ev_parent: "nat option") (ev_depth: nat)
  | Step_logged (ev_run: nat) (ev_step: nat) (ev_code: string) (ev_output: "string option")
      (ev_hasError: "bool option") (ev_reasoning: jsval) (ev_usage: Usage)
  | Final_result (ev_run: nat) (ev_result: jsval)

record 'w state =
  totalUsage :: Usage
  next_run_id :: nat
  log_events :: "log_event list"
  chat_calls :: "chat_call list"
  stderr :: "string list"
  humanOutputEnabled :: bool
  world :: 'w

definition new_Logger :: "nat \<Rightarrow> int \<Rightarrow> nat option \<Rightarrow> 'w state \<Rightarrow> nat \<times> 'w state" where
  "new_Logger depth max_calls parent_run_id s =
     (next_run_id s,
      s \<lparr> next_run_id := Suc (next_run_id s),
          log_events := log_events s @ [Run_start (next_run_id s) parent_run_id depth] \<rparr>)"

definition logStep ::
  "nat \<Rightarrow> nat \<Rightarrow> string \<Rightarrow> string option \<Rightarrow> bool option \<Rightarrow> jsval \<Rightarrow> Usage \<Rightarrow> 'w state \<Rightarrow> 'w state" where
  "logStep run_id step code_text output_text hasError reasoning step_usage s =
     s \<lparr> log_events := log_events s
            @ [Step_logged run_id step code_text output_text hasError reasoning step_usage] \<rparr>"

definition logFinalResult :: "nat \<Rightarrow> jsval \<Rightarrow> 'w state \<Rightarrow> 'w state" where
  "logFinalResult run_id result s =
     s \<lparr> log_events := log_events s @ [Final_result run_id result] \<rparr>"

text \<open>
  Modelled from the spec: \<open>usage.ts\<close> is not among the sources. The specification has three
  operations on the process-wide accumulator, \<open>reset\<close>, \<open>track\<close> and \<open>get\<close>, and \<open>track\<close>
  adds field-wise.
\<close>

definition noUsage :: Usage where
  "noUsage = \<lparr> prompt_tokens = Fin 0, completion_tokens = Fin 0, total_tokens = Fin 0,
               cached_tokens = Fin 0, reasoning_tokens = Fin 0, cost = Fin 0 \<rparr>"

definition add_usage :: "(rat \<Rightarrow> jsnum) \<Rightarrow> Usage \<Rightarrow> Usage \<Rightarrow> Usage" where
  "add_usage rnd a b =
     \<lparr> prompt_tokens = js_add rnd (prompt_tokens a) (prompt_tokens b),
       completion_tokens = js_add rnd (completion_tokens a) (completion_tokens b),
       total_tokens = js_add rnd (total_tokens a) (total_tokens b),
       cached_tokens = js_add rnd (cached_tokens a) (cached_tokens b),
       reasoning_tokens = js_add rnd (reasoning_tokens a) (reasoning_tokens b),
       cost = js_add rnd (cost a) (cost b) \<rparr>"

definition resetUsage :: "'w state \<Rightarrow> 'w state" where
  "resetUsage s = s \<lparr> totalUsage := noUsage \<rparr>"

definition trackUsage :: "(rat \<Rightarrow> jsnum) \<Rightarrow> Usage \<Rightarrow> 'w state \<Rightarrow> 'w state" where
  "trackUsage rnd step_usage s = s \<lparr> totalUsage := add_usage rnd (totalUsage s) step_usage \<rparr>"

definition getTotalUsage :: "'w state \<Rightarrow> Usage" where
  "getTotalUsage s = totalUsage s"

text \<open>\<open>console.error\<close> and \<open>console.warn\<close>: one more entry on stderr.\<close>

definition console_error :: "string \<Rightarrow> 'w state \<Rightarrow> 'w state" where
  "console_error line s = s \<lparr> stderr := stderr s @ [line] \<rparr>"

subsection \<open>Start of an agent\<close>

definition emitConfigWarnings :: "RlmConfig \<Rightarrow> 'w state \<Rightarrow> 'w state" where
  "emitConfigWarnings config s =
     (if max_money_spent config \<noteq> JUndefined \<and> humanOutputEnabled s
      then console_error
             ''max_money_spent is deprecated and ignored. Use max_prompt_tokens and max_completion_tokens.'' s
      else s)"

definition resolveRuntimeModelSelection ::
  "('w, 'p) host \<Rightarrow> RlmConfig \<Rightarrow> 'w state \<Rightarrow> (js_exn + RuntimeModelResolution) \<times> 'w state" where
  "resolveRuntimeModelSelection host config s =
     (case resolveProxyClientConfig (h_getEnv host) of
        Inl err \<Rightarrow> (Inl err, s)
      | Inr proxy \<Rightarrow>
          (case h_fetchAvailableModels host (world s) proxy of
             (Inl err, w) \<Rightarrow> (Inl err, s \<lparr> world := w \<rparr>)
           | (Inr availableModels, w) \<Rightarrow>
               (let resolution =
                      resolveRuntimeModels (resolveModelNames config (h_getEnv host)) availableModels
                        (h_getEnv host);
                    s1 = s \<lparr> world := w \<rparr>
                in (Inr resolution,
                    if humanOutputEnabled s1
                    then fold (\<lambda>w. console_error (h_chalk_yellow host (''Model preflight warning: '' @ w)))
                           (warnings resolution) s1
                    else s1))))"

text \<open>The two Python programs that seed the sandbox, and the first message of the history.\<close>

definition js_lines :: "string list \<Rightarrow> string" where
  "js_lines ls = concat (map (\<lambda>l. l @ [CHR 0x0A]) (butlast ls)) @ last ls"

definition setup_code :: "(string \<Rightarrow> string) \<Rightarrow> string \<Rightarrow> string" where
  "setup_code JSON_quote context_text =
     js_lines
       ['''',
        ''context = '' @ JSON_quote context_text,
        ''__final_result__ = None'',
        '''',
        ''def FINAL(x):'',
        ''    global __final_result__'',
        ''    __final_result__ = x'',
        '''',
        ''def FINAL_VAR(x):'',
        ''    global __final_result__'',
        ''    __final_result__ = x'',
        '''']"

definition initial_code :: string where
  \<open>initial_code =
     js_lines
       ['''',
        ''print("Context type: ", type(context))'',
        ''print(f"Context length: {len(context) if hasattr(context, '' @ [CHR 0x27] @ ''__len__''
          @ [CHR 0x27] @ '') else '' @ [CHR 0x27] @ ''N/A'' @ [CHR 0x27] @ ''}")'',
        '''',
        ''if len(context) > 500:'',
        ''    print(f"First 500 characters of str(context): ", str(context)[:500])'',
        ''    print("---")'',
        ''    print(f"Last 500 characters of str(context): ", str(context)[-500:])'',
        ''else:'',
        ''    print(f"Context: ", context)'',
        '''']\<close>

definition user_message :: "string \<Rightarrow> jsval" where
  "user_message content_text = JObj [(''role'', JStr ''user''), (''content'', JStr content_text)]"

definition first_message :: "RlmConfig \<Rightarrow> string \<Rightarrow> jsval" where
  "first_message config stdoutBuffer =
     user_message
       (js_lines
          ['''',
           ''Outputs will always be truncated to last '' @ show_int (TRUNCATE_LEN config) @ '' characters.'',
           ''code:'',
           ''```repl'',
           initial_code,
           ''```'',
           '''',
           ''Output:'',
           js_trim stdoutBuffer,
           ''    ''])"

subsection \<open>One run of the sandbox\<close>

text \<open>
  \<open>run_python q b (stdoutBuffer, s)\<close> carries out the execution \<open>b\<close> with \<open>q\<close> installed as
  \<open>llm_query\<close>. The stdout callback appends the text and a newline to the buffer, the stderr
  callback writes to the console. The result tells whether the run rejected, and with what.
\<close>

primrec run_python ::
  "(string \<Rightarrow> string \<times> 'w state \<Rightarrow> (js_exn + jsval) \<times> string \<times> 'w state) \<Rightarrow> 'p py
     \<Rightarrow> string \<times> 'w state \<Rightarrow> (js_exn option \<times> 'p) \<times> string \<times> 'w state" where
  "run_python q (Return p) = (\<lambda>st. ((None, p), st))"
| "run_python q (Raise err p) = (\<lambda>st. ((Some err, p), st))"
| "run_python q (Print line k) = (\<lambda>(stdoutBuffer, s). run_python q k (stdoutBuffer @ line @ [CHR 0x0A], s))"
| "run_python q (PrintErr line k) =
     (\<lambda>(stdoutBuffer, s). run_python q k (stdoutBuffer, console_error (''[Python Stderr]: '' @ line) s))"
| "run_python q (Query context_text k) =
     (\<lambda>st. case q context_text st of (r, st') \<Rightarrow> run_python q (k r) st')"

subsection \<open>The turn loop\<close>

text \<open>
  The two budget checks that follow \<open>trackUsage\<close>, in the order of the source: the error
  thrown by the first check that fails, if any.
\<close>

definition budget_violation :: "RlmConfig \<Rightarrow> (rat \<Rightarrow> string) \<Rightarrow> Usage \<Rightarrow> js_exn option" where
  "budget_violation config number_text acc =
     (let prompt_error =
            (case MAX_PROMPT_TOKENS config of
               Some limit \<Rightarrow>
                 if js_gt (prompt_tokens acc) limit
                 then Some (new_Error (''Prompt token budget exceeded: ''
                        @ js_number_string number_text (prompt_tokens acc) @ '' used, limit is ''
                        @ js_number_string number_text limit))
                 else None
             | None \<Rightarrow> None);
          completion_error =
            (case MAX_COMPLETION_TOKENS config of
               Some limit \<Rightarrow>
                 if js_gt (completion_tokens acc) limit
                 then Some (new_Error (''Completion token budget exceeded: ''
                        @ js_number_string number_text (completion_tokens acc) @ '' used, limit is ''
                        @ js_number_string number_text limit))
                 else None
             | None \<Rightarrow> None)
      in case prompt_error of Some err \<Rightarrow> Some err | None \<Rightarrow> completion_error)"

text \<open>
  A request of \<open>generate_code\<close> has been made by the agent \<open>run_id\<close>: the outside world
  is in its next state, and the request is recorded.
\<close>

definition issue_chat :: "nat \<Rightarrow> string option \<Rightarrow> jsval list \<Rightarrow> 'w \<Rightarrow> 'w state \<Rightarrow> 'w state" where
  "issue_chat run_id model_name messages w s =
     s \<lparr> world := w,
         chat_calls := chat_calls s
           @ [\<lparr> call_run = run_id, call_model = model_name, call_messages = messages \<rparr>] \<rparr>"

text \<open>
  The \<open>for\<close> loop of \<open>subagent\<close>, from iteration \<open>i\<close> on. \<open>llm_query\<close> is the function
  installed in the sandbox, \<open>messages\<close> the history, \<open>pyodide\<close> the state of the interpreter.
  A thrown error leaves the
  function as \<open>Inl\<close>, the returned final result as \<open>Inr\<close>. Output on stdout and the
  spinner are not part of the state.
\<close>

function turn_loop ::
  "('w, 'p) host \<Rightarrow> RlmConfig
     \<Rightarrow> (string \<Rightarrow> string \<times> 'w state \<Rightarrow> (js_exn + jsval) \<times> string \<times> 'w state)
     \<Rightarrow> string option \<Rightarrow> nat \<Rightarrow> nat \<Rightarrow> jsval list \<Rightarrow> 'p \<Rightarrow> 'w state
     \<Rightarrow> (js_exn + jsval) \<times> 'w state" where
  "turn_loop host config llm_query model_name run_id i messages pyodide s =
     (if int i < MAX_CALLS config then
        (case h_generate_code host (world s) messages model_name of
           (Inl err, w) \<Rightarrow> (Inl err, issue_chat run_id model_name messages w s)
         | (Inr reply, w) \<Rightarrow>
             (let s1 = issue_chat run_id model_name messages w s;
                  messages1 = messages @ [cr_message reply];
                  s2 = trackUsage (h_round host) (cr_usage reply) s1
              in case budget_violation config (h_number_text host) (getTotalUsage s2) of
                   Some err \<Rightarrow> (Inl err, s2)
                 | None \<Rightarrow>
                     if \<not> cr_success reply then
                       turn_loop host config llm_query model_name run_id (i + 1)
                         (messages1 @ [user_message
                            ''Error: We could not extract code because you may not have used repl block!''])
                         pyodide
                         (logStep run_id (i + 1) (cr_code reply) None None
                            (js_get (cr_message reply) ''reasoning'') (cr_usage reply) s2)
                     else
                       (case run_python llm_query (h_runPython host pyodide (cr_code reply)) ([], s2) of
                          ((thrown, pyodide1), captured, s3) \<Rightarrow>
                            (let stdoutBuffer =
                                   (case thrown of
                                      Some err \<Rightarrow> captured @ [CHR 0x0A] @ ''Error: '' @ exn_message err @ '' ''
                                    | None \<Rightarrow> captured);
                                 truncatedText = truncateText (TRUNCATE_LEN config) stdoutBuffer;
                                 finalResult = h_final_result host pyodide1
                             in if finalResult \<noteq> JUndefined then
                                  (Inr finalResult,
                                   logFinalResult run_id finalResult
                                     (logStep run_id (i + 1) (cr_code reply) None None
                                        (js_get (cr_message reply) ''reasoning'') (cr_usage reply) s3))
                                else
                                  turn_loop host config llm_query model_name run_id (i + 1)
                                    (messages1 @ [user_message (''Output: '' @ [CHR 0x0A] @ truncatedText)])
                                    pyodide1
                                    (logStep run_id (i + 1) (cr_code reply) (Some truncatedText)
                                       (Some (sublist ''Error'' stdoutBuffer))
                                       (js_get (cr_message reply) ''reasoning'') (cr_usage reply) s3)))))
      else (Inl (new_Error ''Did not finish the function stack before subagent died''), s))"
  by pat_completeness auto
termination
  by (relation "measure (\<lambda>(host, config, llm_query, model_name, run_id, i, messages, pyodide, s).
        nat (MAX_CALLS config - int i))") auto

declare turn_loop.simps [simp del]

subsection \<open>The agent and its recursion bridge\<close>

text \<open>
  \<open>subagent\<close>. The depth is a natural number: callers pass \<open>0\<close> or the depth of the caller
  plus one. \<open>llm_query\<close> is the closure installed in the sandbox; it shares the stdout
  buffer of its agent and the process-wide state. The recursion ends because a call at a
  depth of \<open>MAX_DEPTH\<close> or more does not create an agent.
\<close>

function subagent ::
  "('w, 'p) host \<Rightarrow> RlmConfig \<Rightarrow> string \<Rightarrow> nat \<Rightarrow> nat option \<Rightarrow> RuntimeModelResolution option
     \<Rightarrow> 'w state \<Rightarrow> (js_exn + jsval) \<times> 'w state" where
  "subagent host config context_text subagent_depth parent_run_id runtimeModels s =
     (case new_Logger subagent_depth (MAX_CALLS config) parent_run_id (emitConfigWarnings config s) of
        (run_id, s1) \<Rightarrow>
          (case (case runtimeModels of
                   Some given \<Rightarrow> (Inr given, s1)
                 | None \<Rightarrow> resolveRuntimeModelSelection host config s1) of
             (Inl err, s2) \<Rightarrow> (Inl err, s2)
           | (Inr models, s2) \<Rightarrow>
               (let model_name = (if subagent_depth = 0 then primaryAgent models else subAgent models);
                    llm_query =
                      (\<lambda>query (stdoutBuffer, t).
                         if int subagent_depth \<ge> MAX_DEPTH config then
                           (Inl (new_Error
                              ''MAXIMUM DEPTH REACHED. You must solve this task on your own without calling llm_query.''),
                            stdoutBuffer @ [CHR 0x0A]
                              @ ''Error: MAXIMUM DEPTH REACHED. You must solve this task on your own without calling llm_query.''
                              @ [CHR 0x0A],
                            t)
                         else
                           (case subagent host config query (subagent_depth + 1) (Some run_id) (Some models) t of
                              (result, t') \<Rightarrow> (result, stdoutBuffer, t')))
                in case run_python llm_query
                          (h_runPython host (h_loadPyodide host) (setup_code (h_JSON_quote host) context_text))
                          ([], s2) of
                     ((Some err, pyodide1), captured, s3) \<Rightarrow> (Inl err, s3)
                   | ((None, pyodide1), captured, s3) \<Rightarrow>
                       (case run_python llm_query (h_runPython host pyodide1 initial_code) ([], s3) of
                          ((Some err, pyodide2), stdoutBuffer, s4) \<Rightarrow> (Inl err, s4)
                        | ((None, pyodide2), stdoutBuffer, s4) \<Rightarrow>
                            turn_loop host config llm_query model_name run_id 0
                              [first_message config stdoutBuffer] pyodide2
                              (logStep run_id 0 initial_code (Some (js_trim stdoutBuffer)) (Some False)
                                 JUndefined noUsage s4)))))"
  by pat_completeness auto
termination
  by (relation "measure (\<lambda>(host, config, context_text, subagent_depth, parent_run_id, runtimeModels, s).
        nat (MAX_DEPTH config - int subagent_depth))") auto

declare subagent.simps [simp del]

text \<open>
  The closure \<open>llm_query\<close> of the agent \<open>run_id\<close> at depth \<open>subagent_depth\<close> with the
  resolved models \<open>models\<close>, as \<open>subagent\<close> builds it.
\<close>

definition llm_query_of ::
  "('w, 'p) host \<Rightarrow> RlmConfig \<Rightarrow> nat \<Rightarrow> nat \<Rightarrow> RuntimeModelResolution
     \<Rightarrow> string \<Rightarrow> string \<times> 'w state \<Rightarrow> (js_exn + jsval) \<times> string \<times> 'w state" where
  "llm_query_of host config subagent_depth run_id models =
     (\<lambda>query (stdoutBuffer, t).
        if int subagent_depth \<ge> MAX_DEPTH config then
          (Inl (new_Error
             ''MAXIMUM DEPTH REACHED. You must solve this task on your own without calling llm_query.''),
           stdoutBuffer @ [CHR 0x0A]
             @ ''Error: MAXIMUM DEPTH REACHED. You must solve this task on your own without calling llm_query.''
             @ [CHR 0x0A],
           t)
        else
          (case subagent host config query (subagent_depth + 1) (Some run_id) (Some models) t of
             (result, t') \<Rightarrow> (result, stdoutBuffer, t')))"

subsection \<open>Notions used to state the properties of the agent\<close>

text \<open>
  The requests recorded between two states carry run identifiers that were not yet
  assigned in the first state, and the counter of run identifiers has not gone back.
\<close>

definition fresh_calls :: "'w state \<Rightarrow> 'w state \<Rightarrow> bool" where
  "fresh_calls s s' =
     (next_run_id s \<le> next_run_id s'
      \<and> (\<exists>added. chat_calls s' = chat_calls s @ added
            \<and> (\<forall>c \<in> set added. next_run_id s \<le> call_run c)))"

text \<open>
  The requests of the agent \<open>run_id\<close> among those recorded between two states.
\<close>

definition own_calls :: "nat \<Rightarrow> 'w state \<Rightarrow> 'w state \<Rightarrow> chat_call list" where
  "own_calls run_id s s' =
     filter (\<lambda>c. call_run c = run_id) (drop (length (chat_calls s)) (chat_calls s'))"

text \<open>
  An \<open>llm_query\<close> whose every call records requests of new agents only.
\<close>

definition fresh_callback ::
  "(string \<Rightarrow> string \<times> 'w state \<Rightarrow> (js_exn + jsval) \<times> string \<times> 'w state) \<Rightarrow> bool" where
  "fresh_callback q = (\<forall>query buf t. fresh_calls t (snd (snd (q query (buf, t)))))"

text \<open>
  The state after the reply of a request has been received and its usage tracked.
\<close>

definition after_chat :: "('w, 'p) host \<Rightarrow> nat \<Rightarrow> string option \<Rightarrow> jsval list \<Rightarrow> CodeReturn \<Rightarrow> 'w \<Rightarrow> 'w state \<Rightarrow> 'w state" where
  "after_chat host run_id model_name messages reply w s =
     trackUsage (h_round host) (cr_usage reply) (issue_chat run_id model_name messages w s)"

text \<open>
  The stdout buffer after the \<open>try\<close>/\<open>catch\<close> around \<open>runPythonAsync\<close>.
\<close>

definition captured_output :: "js_exn option \<Rightarrow> string \<Rightarrow> string" where
  "captured_output thrown captured =
     (case thrown of
        Some err \<Rightarrow> captured @ [CHR 0x0A] @ ''Error: '' @ exn_message err @ '' ''
      | None \<Rightarrow> captured)"

text \<open>
  Between two states, at most \<open>n\<close> requests of the agent \<open>run_id\<close> were recorded, and
  every other request recorded belongs to a new agent.
\<close>

definition loop_calls :: "nat \<Rightarrow> nat \<Rightarrow> 'w state \<Rightarrow> 'w state \<Rightarrow> bool" where
  "loop_calls run_id n s s' =
     (next_run_id s \<le> next_run_id s'
      \<and> (\<exists>added. chat_calls s' = chat_calls s @ added
            \<and> (\<forall>c \<in> set added. call_run c = run_id \<or> next_run_id s \<le> call_run c)
            \<and> length (filter (\<lambda>c. call_run c = run_id) added) \<le> n))"

text \<open>
  The part of \<open>subagent\<close> that follows the resolution of the models: seeding the sandbox
  and running the turn loop, with \<open>llm_query\<close> installed.
\<close>

definition agent_body ::
  "('w, 'p) host \<Rightarrow> RlmConfig
     \<Rightarrow> (string \<Rightarrow> string \<times> 'w state \<Rightarrow> (js_exn + jsval) \<times> string \<times> 'w state)
     \<Rightarrow> string \<Rightarrow> string option \<Rightarrow> nat \<Rightarrow> 'w state \<Rightarrow> (js_exn + jsval) \<times> 'w state" where
  "agent_body host config llm_query context_text model_name run_id s2 =
     (case run_python llm_query
             (h_runPython host (h_loadPyodide host) (setup_code (h_JSON_quote host) context_text))
             ([], s2) of
        ((Some err, pyodide1), captured, s3) \<Rightarrow> (Inl err, s3)
      | ((None, pyodide1), captured, s3) \<Rightarrow>
          (case run_python llm_query (h_runPython host pyodide1 initial_code) ([], s3) of
             ((Some err, pyodide2), stdoutBuffer, s4) \<Rightarrow> (Inl err, s4)
           | ((None, pyodide2), stdoutBuffer, s4) \<Rightarrow>
               turn_loop host config llm_query model_name run_id 0
                 [first_message config stdoutBuffer] pyodide2
                 (logStep run_id 0 initial_code (Some (js_trim stdoutBuffer)) (Some False)
                    JUndefined noUsage s4)))"

text \<open>
  \<open>runtimeModels ?? await resolveRuntimeModelSelection()\<close>.
\<close>

definition resolve_models ::
  "('w, 'p) host \<Rightarrow> RlmConfig \<Rightarrow> RuntimeModelResolution option \<Rightarrow> 'w state
     \<Rightarrow> (js_exn + RuntimeModelResolution) \<times> 'w state" where
  "resolve_models host config runtimeModels s1 =
     (case runtimeModels of
        Some given \<Rightarrow> (Inr given, s1)
      | None \<Rightarrow> resolveRuntimeModelSelection host config s1)"

text \<open>
  Between the start and the end of an agent whose run identifier is the next one of the
  first state: the identifier has been taken, every request recorded belongs to this agent
  or to a later one, and at most \<open>MAX_CALLS\<close> of them are its own.
\<close>

definition agent_calls :: "RlmConfig \<Rightarrow> 'w state \<Rightarrow> 'w state \<Rightarrow> bool" where
  "agent_calls config s s' =
     (next_run_id s < next_run_id s'
      \<and> (\<exists>added. chat_calls s' = chat_calls s @ added
            \<and> (\<forall>c \<in> set added. next_run_id s \<le> call_run c)
            \<and> length (filter (\<lambda>c. call_run c = next_run_id s) added) \<le> nat (MAX_CALLS config)))"

text \<open>
  A relation between states that is reflexive and transitive and holds across every step
  that writes to the console or the log or tracks usage.
\<close>

definition quiet_steps :: "('w state \<Rightarrow> 'w state \<Rightarrow> bool) \<Rightarrow> bool" where
  "quiet_steps R =
     ((\<forall>s. R s s) \<and> (\<forall>s t u. R s t \<and> R t u \<longrightarrow> R s u)
      \<and> (\<forall>l s. R s (console_error l s))
      \<and> (\<forall>r n c out h re u s. R s (logStep r n c out h re u s))
      \<and> (\<forall>r v s. R s (logFinalResult r v s))
      \<and> (\<forall>rnd u s. R s (trackUsage rnd u s)))"

text \<open>
  An \<open>llm_query\<close> whose every call keeps the relation between the states around it.
\<close>

definition callback_keeps ::
  "('w state \<Rightarrow> 'w state \<Rightarrow> bool)
     \<Rightarrow> (string \<Rightarrow> string \<times> 'w state \<Rightarrow> (js_exn + jsval) \<times> string \<times> 'w state) \<Rightarrow> bool" where
  "callback_keeps R q = (\<forall>query buf t. R t (snd (snd (q query (buf, t)))))"

text \<open>
  Between two states the log has only grown, and every request recorded was made to the
  model \<open>m\<close>.
\<close>

definition same_model :: "string option \<Rightarrow> 'w state \<Rightarrow> 'w state \<Rightarrow> bool" where
  "same_model m s s' =
     (prefix (log_events s) (log_events s')
      \<and> (\<exists>added. chat_calls s' = chat_calls s @ added \<and> (\<forall>c \<in> set added. call_model c = m)))"

text \<open>
  The message of the error that \<open>llm_query\<close> throws at the depth limit.
\<close>

definition MAXIMUM_DEPTH_REACHED :: string where
  "MAXIMUM_DEPTH_REACHED =
     ''MAXIMUM DEPTH REACHED. You must solve this task on your own without calling llm_query.''"

text \<open>
  Between two states the log has only grown.
\<close>

definition log_grows :: "'w state \<Rightarrow> 'w state \<Rightarrow> bool" where
  "log_grows s s' = prefix (log_events s) (log_events s')"

section \<open>Writing the result file (\<open>subagents.ts\<close>)\<close>

text \<open>
  The file system, as far as \<open>writeOutputAtomically\<close> uses it: a map from paths to file
  contents, with paths compared as strings. Each operation can fail; whether it does is
  decided by the parameters below. A failed \<open>writeTextFile\<close> leaves its target with some
  residue (no file, its old contents, or a partial write) and touches no other path; a
  failed \<open>rename\<close> or \<open>remove\<close> changes nothing.
\<close>

type_synonym files = "string \<rightharpoonup> string"

record fs_faults =
  write_fault :: "files \<Rightarrow> string \<Rightarrow> string \<Rightarrow> (js_exn \<times> string option) option"
  rename_fault :: "files \<Rightarrow> string \<Rightarrow> string \<Rightarrow> js_exn option"
  remove_fault :: "files \<Rightarrow> string \<Rightarrow> js_exn option"
  not_found :: "string \<Rightarrow> js_exn"

definition Deno_writeTextFile :: "fs_faults \<Rightarrow> string \<Rightarrow> string \<Rightarrow> files \<Rightarrow> js_exn option \<times> files" where
  "Deno_writeTextFile faults path data fs =
     (case write_fault faults fs path data of
        None \<Rightarrow> (None, fs(path \<mapsto> data))
      | Some (err, residue) \<Rightarrow> (Some err, fs(path := residue)))"

definition Deno_rename :: "fs_faults \<Rightarrow> string \<Rightarrow> string \<Rightarrow> files \<Rightarrow> js_exn option \<times> files" where
  "Deno_rename faults oldpath newpath fs =
     (case fs oldpath of
        None \<Rightarrow> (Some (not_found faults oldpath), fs)
      | Some contents \<Rightarrow>
          (case rename_fault faults fs oldpath newpath of
             Some err \<Rightarrow> (Some err, fs)
           | None \<Rightarrow> (None, (fs(oldpath := None))(newpath \<mapsto> contents))))"

definition Deno_remove :: "fs_faults \<Rightarrow> string \<Rightarrow> files \<Rightarrow> js_exn option \<times> files" where
  "Deno_remove faults path fs =
     (case fs path of
        None \<Rightarrow> (Some (not_found faults path), fs)
      | Some contents \<Rightarrow>
          (case remove_fault faults fs path of
             Some err \<Rightarrow> (Some err, fs)
           | None \<Rightarrow> (None, fs(path := None))))"

text \<open>
  \<open>writeOutputAtomically\<close>. \<open>JSON_stringify\<close> is \<open>JSON.stringify\<close> on the payload (it
  throws on a value it cannot serialise), \<open>uuid\<close> the value of \<open>crypto.randomUUID()\<close>. The
  body of the \<open>try\<close> is \<open>attempt\<close>; the \<open>catch\<close> removes the temporary file, ignoring a
  failure of the removal, and throws the \<open>CliError\<close>.
\<close>

definition writeOutputAtomically ::
  "(jsval \<Rightarrow> js_exn + string) \<Rightarrow> fs_faults \<Rightarrow> string \<Rightarrow> string \<Rightarrow> jsval \<Rightarrow> files
     \<Rightarrow> (js_exn + unit) \<times> files" where
  "writeOutputAtomically JSON_stringify faults uuid outputFile payload fs =
     (let tmp = outputFile @ ''.tmp.'' @ uuid;
          attempt =
            (case JSON_stringify payload of
               Inl err \<Rightarrow> (Some err, fs)
             | Inr serialized \<Rightarrow>
                 (case Deno_writeTextFile faults tmp serialized fs of
                    (Some err, fs1) \<Rightarrow> (Some err, fs1)
                  | (None, fs1) \<Rightarrow> Deno_rename faults tmp outputFile fs1))
      in case attempt of
           (None, fs2) \<Rightarrow> (Inr (), fs2)
         | (Some err, fs2) \<Rightarrow>
             (Inl (new_CliError K_output
                    (''Failed writing output file '' @ [CHR 0x27] @ outputFile @ [CHR 0x27] @ '': ''
                       @ String_of_error err)),
              snd (Deno_remove faults tmp fs2)))"

section \<open>The run command (\<open>subagents.ts\<close>, \<open>cli.ts\<close>)\<close>

text \<open>
  \<open>validatePrefix\<close>: the error it throws, if any. The pattern \<open>/^[A-Za-z0-9._-]+$/\<close> is
  \<open>list_all token_char\<close> on a non-empty string.
\<close>

definition validatePrefix :: "string \<Rightarrow> js_exn option" where
  "validatePrefix prefix_text =
     (if length prefix_text = 0 \<or> length prefix_text > 64
        then Some (new_CliError K_usage ''--prefix must be between 1 and 64 characters.'')
      else if \<not> list_all token_char prefix_text
        then Some (new_CliError K_usage
               ''--prefix may only contain letters, numbers, dot, underscore, and dash.'')
      else if sublist ''..'' prefix_text \<or> CHR ''/'' \<in> set prefix_text \<or> CHR 0x5C \<in> set prefix_text
        then Some (new_CliError K_usage ''--prefix must not contain path separators.'')
      else None)"

record RunSubagentCommandOptions =
  opt_context :: string
  opt_prefix :: "string option"
  opt_outputFile :: "string option"
  opt_jsonMode :: bool

text \<open>
  What \<open>runSubagentCommand\<close> needs beyond the agent: the failures of the file system, the
  value of \<open>crypto.randomUUID()\<close>, and the name of the log file for a prefix.
\<close>

record cli_host =
  c_faults :: fs_faults
  c_randomUUID :: string
  c_logFileName :: "string option \<Rightarrow> string"

text \<open>
  The process: the state shared by the agents, the files, and the log prefix.
\<close>

record 'w process =
  agent :: "'w state"
  disk :: files
  logPrefix :: "string option"

text \<open>
  Modelled from the spec: \<open>logging.ts\<close> is not among the sources. The log file is created
  with the first event written, and \<open>getLogFile\<close> gives its path from then on.
\<close>

definition getLogFile :: "cli_host \<Rightarrow> 'w process \<Rightarrow> string option" where
  "getLogFile cli p =
     (if log_events (agent p) = [] then None else Some (c_logFileName cli (logPrefix p)))"

text \<open>
  Truthiness of an optional string: defined and not empty.
\<close>

fun truthy :: "string option \<Rightarrow> bool" where
  "truthy (Some t) = (t \<noteq> [])"
| "truthy None = False"

text \<open>
  The line that the \<open>catch\<close> of \<open>runSubagentCommand\<close> writes with \<open>console.error\<close>.
\<close>

definition fatal_line :: "('w, 'p) host \<Rightarrow> string \<Rightarrow> string" where
  "fatal_line host fatalError = h_chalk_red host ([CHR 0x0A] @ ''Fatal error: '' @ fatalError)"

text \<open>
  \<open>runSubagentCommand\<close>. The \<open>try\<close> covers the call of \<open>subagent\<close> and, outside JSON mode,
  the \<open>JSON.stringify\<close> of the result line; the \<open>catch\<close> keeps the message as
  \<open>fatalError\<close> and prints it. \<open>Inl\<close> is an error thrown out of the function (by
  \<open>validatePrefix\<close> or \<open>writeOutputAtomically\<close>), \<open>Inr\<close> the exit code returned. Output on
  stdout and \<open>Logger.flush\<close> are not part of the state.
\<close>

definition runSubagentCommand ::
  "('w, 'p) host \<Rightarrow> cli_host \<Rightarrow> RlmConfig \<Rightarrow> RunSubagentCommandOptions \<Rightarrow> 'w process
     \<Rightarrow> (js_exn + int) \<times> 'w process" where
  "runSubagentCommand host cli config opts p =
     (let jsonMode = opt_jsonMode opts;
          outputFile = opt_outputFile opts
      in case (if truthy (opt_prefix opts) then validatePrefix (show_optional (opt_prefix opts)) else None) of
           Some err \<Rightarrow> (Inl err, p)
         | None \<Rightarrow>
             (let p1 = (if truthy (opt_prefix opts) then p \<lparr> logPrefix := opt_prefix opts \<rparr> else p);
                  s1 = resetUsage ((agent p1) \<lparr> humanOutputEnabled := \<not> jsonMode \<rparr>)
              in case subagent host config (opt_context opts) 0 None None s1 of
                   (outcome, s2) \<Rightarrow>
                     (case (case outcome of
                              Inr v \<Rightarrow>
                                (if \<not> jsonMode then
                                   (case h_JSON_stringify host (JObj [(''results'', v)]) of
                                      Inr printed \<Rightarrow> (v, None, s2)
                                    | Inl err \<Rightarrow>
                                        (v, Some (exn_message err),
                                         console_error (fatal_line host (exn_message err)) s2))
                                 else (v, None, s2))
                            | Inl err \<Rightarrow>
                                (JNull, Some (exn_message err),
                                 if \<not> jsonMode then console_error (fatal_line host (exn_message err)) s2
                                 else s2)) of
                        (out, fatalError, s3) \<Rightarrow>
                          (let p2 = p1 \<lparr> agent := s3 \<rparr>;
                               outputPayload =
                                 JObj ([(''results'', nullish out JNull),
                                        (''log_file'',
                                         case getLogFile cli p2 of Some f \<Rightarrow> JStr f | None \<Rightarrow> JNull)]
                                       @ (if truthy fatalError
                                          then [(''error'', JStr (show_optional fatalError))] else []))
                           in case (if truthy outputFile
                                    then writeOutputAtomically (h_JSON_stringify host) (c_faults cli)
                                           (c_randomUUID cli) (show_optional outputFile) outputPayload (disk p2)
                                    else (Inr (), disk p2)) of
                                (Inl err, d) \<Rightarrow> (Inl err, p2 \<lparr> disk := d \<rparr>)
                              | (Inr done, d) \<Rightarrow>
                                  (Inr (if truthy fatalError then EXIT_RUNTIME else EXIT_OK),
                                   p2 \<lparr> disk := d \<rparr>)))))"

text \<open>
  The \<open>run\<close> subcommand as the entry point of \<open>cli.ts\<close> runs it, for parsed options:
  \<open>runCli\<close> returns the exit code of \<open>runSubagentCommand\<close>; the \<open>catch\<close> of the entry point
  prints the redacted message of a thrown error and exits with the code of the error.
\<close>

definition run_command_main ::
  "('w, 'p) host \<Rightarrow> cli_host \<Rightarrow> RlmConfig \<Rightarrow> RunSubagentCommandOptions \<Rightarrow> 'w process
     \<Rightarrow> int \<times> 'w process" where
  "run_command_main host cli config opts p =
     (case runSubagentCommand host cli config opts p of
        (Inr exit_code, p') \<Rightarrow> (exit_code, p')
      | (Inl err, p') \<Rightarrow>
          (exitCodeForError err,
           p' \<lparr> agent := console_error (redactSecrets (exn_message err)) (agent p') \<rparr>))"

section \<open>Example worlds\<close>

text \<open>
  Concrete collaborators for the examples below. The outside world counts the chat requests
  made so far, and its \<open>n\<close>-th reply is \<open>replies n\<close>; the state of the interpreter counts
  its runs, the \<open>n\<close>-th run of an interpreter behaves as \<open>script n\<close>, and \<open>final\<close> reads the
  final result off that state. Sums are exact, the environment is empty.
\<close>

definition example_host ::
  "(nat \<Rightarrow> js_exn + CodeReturn) \<Rightarrow> (nat \<Rightarrow> nat py) \<Rightarrow> (nat \<Rightarrow> jsval) \<Rightarrow> (nat, nat) host" where
  "example_host replies script final =
     \<lparr> h_round = Fin,
       h_number_text = (\<lambda>q. ''?''),
       h_getEnv = (\<lambda>name. None),
       h_generate_code = (\<lambda>w messages model_name. (replies w, Suc w)),
       h_fetchAvailableModels = (\<lambda>w proxy. (Inr [''gpt-5'', ''gpt-5-codex-mini''], w)),
       h_loadPyodide = 0,
       h_runPython = (\<lambda>p source. script p),
       h_final_result = final,
       h_JSON_stringify = (\<lambda>v. Inr ''{}''),
       h_JSON_quote = (\<lambda>t. t),
       h_chalk_red = (\<lambda>t. t),
       h_chalk_yellow = (\<lambda>t. t) \<rparr>"

definition example_config :: "int \<Rightarrow> int \<Rightarrow> jsval \<Rightarrow> jsval \<Rightarrow> RlmConfig" where
  "example_config calls depth prompt_limit completion_limit =
     \<lparr> max_calls_per_subagent = Some calls, max_depth = Some depth, truncate_len = None,
       primary_agent = None, sub_agent = None,
       max_prompt_tokens = prompt_limit, max_completion_tokens = completion_limit,
       max_money_spent = JUndefined \<rparr>"

definition example_state :: "nat state" where
  "example_state =
     \<lparr> totalUsage = noUsage, next_run_id = 0, log_events = [], chat_calls = [], stderr = [],
       humanOutputEnabled = True, world = 0 \<rparr>"

definition example_models :: RuntimeModelResolution where
  "example_models = \<lparr> primaryAgent = Some ''gpt-5'', subAgent = Some ''gpt-5-codex-mini'', warnings = [] \<rparr>"

definition reply_with :: "string \<Rightarrow> bool \<Rightarrow> rat \<Rightarrow> rat \<Rightarrow> js_exn + CodeReturn" where
  "reply_with source ok prompt completion =
     Inr \<lparr> cr_code = source, cr_success = ok, cr_message = JObj [(''role'', JStr ''assistant'')],
           cr_usage = \<lparr> prompt_tokens = Fin prompt, completion_tokens = Fin completion,
                        total_tokens = Fin (prompt + completion), cached_tokens = Fin 0,
                        reasoning_tokens = Fin 0, cost = Fin 0 \<rparr> \<rparr>"

definition example_script :: "nat \<Rightarrow> nat py" where
  "example_script p =
     (if p = 2 then Query ''sub'' (\<lambda>r. case r of Inl err \<Rightarrow> Raise err 3 | Inr v \<Rightarrow> Return 4)
      else Return (Suc p))"

definition example_final :: "nat \<Rightarrow> jsval" where
  "example_final p = (if p = 4 then JStr ''done'' else JUndefined)"

text \<open>
  An environment that sets both fallback variables: the one of the primary role to an
  available model, with a space before it, and the one of the sub role to a model that is
  not available.
\<close>

definition fallback_env :: EnvGetter where
  "fallback_env = map_of [(''RLM_FALLBACK_PRIMARY'', '' gemini-2.5-pro''),
                          (''RLM_FALLBACK_SUB'', ''gpt-4o'')]"

text \<open>
  An example in which the proxy rejects the model list request and echoes the
  \<open>Authorization\<close> header in its response, which \<open>fetchAvailableModels\<close> puts into the
  message of the error it throws.
\<close>

definition leaky_env :: EnvGetter where
  "leaky_env = map_of [(''RLM_MODEL_API_KEY'', ''sk-live-123''),
                       (''RLM_MODEL_BASE_URL'', ''http://127.0.0.1:8317/v1'')]"

definition leaky_host :: "(nat, nat) host" where
  "leaky_host =
     (example_host (\<lambda>w. reply_with [] False 10 5) (\<lambda>p. Return (Suc p)) (\<lambda>p. JUndefined))
       \<lparr> h_getEnv := leaky_env,
         h_fetchAvailableModels :=
           (\<lambda>w client. (Inl (new_Error (''Failed to fetch models from '' @ baseURL client
                             @ ''/models: 401 Unauthorized. Response: invalid Authorization: Bearer ''
                             @ apiKey client)), w)) \<rparr>"

definition example_cli :: cli_host where
  "example_cli =
     \<lparr> c_faults = \<lparr> write_fault = (\<lambda>fs path data. None), rename_fault = (\<lambda>fs a b. None),
                    remove_fault = (\<lambda>fs path. None), not_found = (\<lambda>path. Exn ''NotFound'' path None) \<rparr>,
       c_randomUUID = ''u1'',
       c_logFileName = (\<lambda>prefix_text. ''logs/run.jsonl'') \<rparr>"

definition example_process :: "nat process" where
  "example_process = \<lparr> agent = example_state, disk = Map.empty, logPrefix = None \<rparr>"

definition example_run :: RunSubagentCommandOptions where
  "example_run = \<lparr> opt_context = ''task'', opt_prefix = None, opt_outputFile = None, opt_jsonMode = False \<rparr>"

section \<open>Properties of output truncation\<close>

lemma js_slice_from_last:
  assumes "0 < n" and "n < int (length xs)"
  shows "js_slice_from (- n) xs = drop (length xs - nat n) xs"
proof -
  have "nat (max (int (length xs) + - n) 0) = length xs - nat n"
    using assms by (simp add: max_def nat_diff_distrib')
  with assms show ?thesis by (simp add: js_slice_from_def)
qed

lemma length_js_slice_from_last:
  assumes "0 < n" and "n < int (length xs)"
  shows "length (js_slice_from (- n) xs) = nat n"
  using assms by (simp add: js_slice_from_last)

text \<open>
  Claim C2. With a positive \<open>TRUNCATE_LEN\<close> (the configuration's \<open>truncate_len\<close> is an
  integer above zero), \<open>truncateText\<close> returns \<open>[EMPTY OUTPUT]\<close> for the empty string, the
  full-output prefix followed by the unchanged text when the length is between 1 and
  \<open>TRUNCATE_LEN\<close> inclusive, and otherwise the truncation prefix naming \<open>TRUNCATE_LEN\<close>
  followed by exactly the last \<open>TRUNCATE_LEN\<close> code units of the text.
\<close>

theorem truncateText_branches:
  assumes "0 < limit"
  shows "truncateText limit text =
     (if length text = 0 then ''[EMPTY OUTPUT]''
      else if int (length text) \<le> limit then ''[FULL OUTPUT SHOWN]... '' @ text
      else ''[TRUNCATED: Last '' @ show_int limit @ '' chars shown].. ''
             @ drop (length text - nat limit) text)
     \<and> (limit < int (length text) \<longrightarrow>
          length (drop (length text - nat limit) text) = nat limit)"
proof (cases "int (length text) > limit")
  case True
  with assms have "js_slice_from (- limit) text = drop (length text - nat limit) text"
    by (simp add: js_slice_from_last)
  with True assms show ?thesis
    by (auto simp: truncateText_def truncated_prefix_def)
next
  case False
  with assms show ?thesis by (auto simp: truncateText_def)
qed

theorem truncateText_branches_witness:
  "truncateText 5 ''hello world'' = ''[TRUNCATED: Last 5 chars shown].. world''
   \<and> truncateText 5 ''hello'' = ''[FULL OUTPUT SHOWN]... hello''
   \<and> truncateText 5 [] = ''[EMPTY OUTPUT]''"
  using truncateText_branches [of 5 "''hello world''"] truncateText_branches [of 5 "''hello''"]
    truncateText_branches [of 5 "[]"]
  by (simp add: show_int_def show_nat.simps digit_char_def)

lemma truncateText_long:
  assumes "0 < n" and "n < int (length xs)"
  shows "truncateText n xs = truncated_prefix n @ drop (length xs - nat n) xs"
  using assms by (simp add: truncateText_def js_slice_from_last)

lemma truncated_prefix_head:
  "truncated_prefix n = CHR ''['' # CHR ''T'' # drop 2 (truncated_prefix n)"
  by (simp add: truncated_prefix_def)

lemma truncateText_twice_long:
  assumes "0 < n" and "n < int (length xs)"
  shows "truncateText n (truncateText n xs) = truncateText n xs"
proof -
  let ?s = "drop (length xs - nat n) xs"
  let ?P = "truncated_prefix n"
  have len: "length ?s = nat n" using assms by simp
  have P: "0 < length ?P" by (simp add: truncated_prefix_def)
  have long: "n < int (length (?P @ ?s))" using len P assms by simp
  have "truncateText n (?P @ ?s) = ?P @ drop (length (?P @ ?s) - nat n) (?P @ ?s)"
    using assms(1) long by (rule truncateText_long)
  also have "drop (length (?P @ ?s) - nat n) (?P @ ?s) = ?s"
    using len by simp
  finally show ?thesis using assms by (simp add: truncateText_long)
qed

lemma truncateText_twice_short:
  assumes "0 < n" and "int (length xs) \<le> n"
  shows "truncateText n (truncateText n xs) \<noteq> truncateText n xs"
proof (cases "xs = []")
  case True
  then have one: "truncateText n xs = ''[EMPTY OUTPUT]''"
    using assms by (simp add: truncateText_def)
  show ?thesis
  proof (cases "int (length ''[EMPTY OUTPUT]'') > n")
    case True
    then have "truncateText n ''[EMPTY OUTPUT]''
        = truncated_prefix n @ js_slice_from (- n) ''[EMPTY OUTPUT]''"
      by (simp add: truncateText_def)
    then show ?thesis unfolding one
      by (subst (asm) truncated_prefix_head) auto
  next
    case False
    then have "truncateText n ''[EMPTY OUTPUT]'' = ''[FULL OUTPUT SHOWN]... [EMPTY OUTPUT]''"
      by (simp add: truncateText_def)
    then show ?thesis unfolding one by simp
  qed
next
  case False
  then have one: "truncateText n xs = ''[FULL OUTPUT SHOWN]... '' @ xs"
    using assms by (simp add: truncateText_def)
  show ?thesis
  proof (cases "int (length (''[FULL OUTPUT SHOWN]... '' @ xs)) > n")
    case True
    then have "truncateText n (''[FULL OUTPUT SHOWN]... '' @ xs)
         = truncated_prefix n @ js_slice_from (- n) (''[FULL OUTPUT SHOWN]... '' @ xs)"
      by (simp add: truncateText_def)
    then show ?thesis unfolding one
      by (subst (asm) truncated_prefix_head) auto
  next
    case False
    then have "truncateText n (''[FULL OUTPUT SHOWN]... '' @ xs)
        = ''[FULL OUTPUT SHOWN]... '' @ ''[FULL OUTPUT SHOWN]... '' @ xs"
      by (simp add: truncateText_def)
    then show ?thesis unfolding one by simp
  qed
qed

text \<open>
  Claim C3 says that truncating twice gives the same string as truncating once, for every
  text. With the default \<open>TRUNCATE_LEN = 5000\<close> the empty output already refutes it:
  the first pass gives \<open>[EMPTY OUTPUT]\<close>, the second labels that string as a full output.
\<close>

theorem truncateText_not_idempotent:
  "truncateText 5000 (truncateText 5000 []) \<noteq> truncateText 5000 []"
  by (simp add: truncateText_def)

text \<open>
  Claim C3, amended. For a positive \<open>TRUNCATE_LEN\<close>, truncating twice gives the same
  string as truncating once exactly for the texts longer than \<open>TRUNCATE_LEN\<close>: a
  truncated output is a fixed point, an empty or fully shown output gets a further label.
\<close>

theorem truncateText_idempotent_iff:
  assumes "0 < limit"
  shows "truncateText limit (truncateText limit xs) = truncateText limit xs
         \<longleftrightarrow> limit < int (length xs)"
  using assms truncateText_twice_long [of limit xs] truncateText_twice_short [of limit xs]
  by (cases "limit < int (length xs)") auto

theorem truncateText_idempotent_iff_witness:
  "truncateText 5 (truncateText 5 ''hello world'') = truncateText 5 ''hello world''
   \<and> truncateText 5 (truncateText 5 ''hello'') \<noteq> truncateText 5 ''hello''"
  using truncateText_idempotent_iff [of 5 "''hello world''"]
    truncateText_idempotent_iff [of 5 "''hello''"]
  by simp

section \<open>Properties of usage normalisation\<close>

lemma coalesce_coerce_Cons:
  "coalesce (coercePositiveNumber v) (first_positive vs d) = first_positive (v # vs) d"
proof (cases v)
  case (JNum n)
  then show ?thesis by (cases n) (auto simp: js_le_def)
qed simp_all

lemma coalesce_coerce:
  "coalesce (coercePositiveNumber v) d = first_positive [v] d"
  using coalesce_coerce_Cons [of v "[]" d] by simp

lemma first_positive_single:
  "first_positive [v] (first_positive vs d) = first_positive (v # vs) d"
proof (cases v)
  case (JNum n)
  then show ?thesis by (cases n) auto
qed simp_all

lemma first_positive_nonneg:
  "js_nonneg d \<Longrightarrow> js_nonneg (first_positive vs d)"
  by (induction vs d rule: first_positive.induct) (auto simp: js_nonneg_def js_le_def)

lemma first_positive_finite:
  "isFinite d \<Longrightarrow> isFinite (first_positive vs d)"
  by (induction vs d rule: first_positive.induct) auto

lemma js_add_nonneg:
  assumes "\<forall>q. 0 \<le> q \<longrightarrow> js_nonneg (round_double q)"
    and "js_nonneg a" "isFinite a" "js_nonneg b" "isFinite b"
  shows "js_nonneg (js_add round_double a b)"
proof -
  from assms(3) obtain x where a: "a = Fin x" by (cases a) auto
  from assms(5) obtain y where b: "b = Fin y" by (cases b) auto
  from assms(2,4) have "0 \<le> x + y" by (auto simp: a b js_nonneg_def js_le_def)
  with assms(1) show ?thesis by (simp add: a b)
qed

lemma normalizeUsage_sel:
  fixes round_double rawUsage
  defines "u \<equiv> normalizeUsage round_double rawUsage"
    and "usage \<equiv> nullish rawUsage (JObj [])"
  shows "prompt_tokens u =
           first_positive [js_get usage ''prompt_tokens'',
             js_get_opt (js_get usage ''usageMetadata'') ''promptTokenCount''] (Fin 0)"
    and "completion_tokens u =
           first_positive [js_get usage ''completion_tokens'',
             js_get_opt (js_get usage ''usageMetadata'') ''candidatesTokenCount''] (Fin 0)"
    and "total_tokens u =
           first_positive [js_get usage ''total_tokens'',
             js_get_opt (js_get usage ''usageMetadata'') ''totalTokenCount'']
             (js_add round_double (prompt_tokens u) (completion_tokens u))"
    and "cached_tokens u =
           first_positive [js_get_opt (js_get usage ''prompt_tokens_details'') ''cached_tokens''] (Fin 0)"
    and "reasoning_tokens u =
           first_positive [js_get_opt (js_get usage ''completion_tokens_details'') ''reasoning_tokens'']
             (Fin 0)"
    and "cost u = (case js_get usage ''cost'' of JNum (Fin q) \<Rightarrow> Fin q | _ \<Rightarrow> Fin 0)"
  unfolding u_def usage_def
       apply (simp_all only: normalizeUsage_def Let_def Usage.simps coalesce_coerce first_positive_single)
  apply (simp split: jsval.splits jsnum.splits)
  done

text \<open>
  Claim C6, amended. For every input, \<open>normalizeUsage\<close> returns the canonical record in which
  each token field is the first of its sources (the flat field, then the \<open>usageMetadata\<close>
  field) that is a finite number above zero, and \<open>0\<close> when none is (for \<open>total_tokens\<close>:
  the sum of the prompt and completion tokens); the five token fields are non-negative
  numbers. \<open>cost\<close> is the reported cost whenever that is a finite number, of either sign,
  and \<open>0\<close> otherwise. The rounding of the sum is assumed to keep a non-negative sum
  non-negative, as rounding to a double does.
\<close>

theorem normalizeUsage_fields:
  assumes "\<forall>q. 0 \<le> q \<longrightarrow> js_nonneg (round_double q)"
  shows "(let u = normalizeUsage round_double rawUsage;
              usage = nullish rawUsage (JObj []);
              usageMetadata = js_get usage ''usageMetadata''
          in prompt_tokens u =
               first_positive [js_get usage ''prompt_tokens'', js_get_opt usageMetadata ''promptTokenCount''] (Fin 0)
           \<and> completion_tokens u =
               first_positive [js_get usage ''completion_tokens'', js_get_opt usageMetadata ''candidatesTokenCount''] (Fin 0)
           \<and> total_tokens u =
               first_positive [js_get usage ''total_tokens'', js_get_opt usageMetadata ''totalTokenCount'']
                 (js_add round_double (prompt_tokens u) (completion_tokens u))
           \<and> cached_tokens u =
               first_positive [js_get_opt (js_get usage ''prompt_tokens_details'') ''cached_tokens''] (Fin 0)
           \<and> reasoning_tokens u =
               first_positive [js_get_opt (js_get usage ''completion_tokens_details'') ''reasoning_tokens''] (Fin 0)
           \<and> cost u = (case js_get usage ''cost'' of JNum (Fin q) \<Rightarrow> Fin q | _ \<Rightarrow> Fin 0)
           \<and> js_nonneg (prompt_tokens u) \<and> js_nonneg (completion_tokens u) \<and> js_nonneg (total_tokens u)
           \<and> js_nonneg (cached_tokens u) \<and> js_nonneg (reasoning_tokens u) \<and> isFinite (cost u))"
proof -
  let ?u = "normalizeUsage round_double rawUsage"
  note sel = normalizeUsage_sel [of round_double rawUsage]
  have z: "js_nonneg (Fin 0)" "isFinite (Fin 0)" by (simp_all add: js_nonneg_def js_le_def)
  have np: "js_nonneg (prompt_tokens ?u)" "isFinite (prompt_tokens ?u)"
    unfolding sel(1) by (rule first_positive_nonneg first_positive_finite; rule z)+
  have nc: "js_nonneg (completion_tokens ?u)" "isFinite (completion_tokens ?u)"
    unfolding sel(2) by (rule first_positive_nonneg first_positive_finite; rule z)+
  have nt: "js_nonneg (total_tokens ?u)"
    by (subst sel(3)) (rule first_positive_nonneg, rule js_add_nonneg [OF assms np nc])
  have nca: "js_nonneg (cached_tokens ?u)"
    unfolding sel(4) by (rule first_positive_nonneg) (rule z)
  have nr: "js_nonneg (reasoning_tokens ?u)"
    unfolding sel(5) by (rule first_positive_nonneg) (rule z)
  have fco: "isFinite (cost ?u)"
    unfolding sel(6) by (simp split: jsval.splits jsnum.splits)
  show ?thesis
    unfolding Let_def using sel np(1) nc(1) nt nca nr fco by blast
qed

text \<open>
  Claim C6 says that every field of the result is a non-negative number. A negative finite
  \<open>cost\<close> passes the guard of the \<open>cost\<close> field (a number that is finite) unchanged.
\<close>

theorem normalizeUsage_negative_cost:
  "\<not> js_nonneg (cost (normalizeUsage Fin (JObj [(''cost'', JNum (Fin (- 1)))])))"
  by (simp add: normalizeUsage_def js_nonneg_def js_le_def Let_def)

theorem normalizeUsage_fields_witness:
  "normalizeUsage Fin (JObj [(''prompt_tokens'', JNum (Fin 120)), (''completion_tokens'', JNum (Fin (- 80))),
       (''usageMetadata'', JObj [(''candidatesTokenCount'', JNum (Fin 25))]),
       (''cost'', JNum (Fin (- 1 / 2)))])
   = \<lparr> prompt_tokens = Fin 120, completion_tokens = Fin 25, total_tokens = Fin 145,
       cached_tokens = Fin 0, reasoning_tokens = Fin 0, cost = Fin (- 1 / 2) \<rparr>"
proof -
  have h: "\<forall>q. 0 \<le> q \<longrightarrow> js_nonneg (Fin q)" by (auto simp: js_nonneg_def js_le_def)
  show ?thesis
    using normalizeUsage_fields [OF h, of "JObj [(''prompt_tokens'', JNum (Fin 120)), (''completion_tokens'', JNum (Fin (- 80))),
       (''usageMetadata'', JObj [(''candidatesTokenCount'', JNum (Fin 25))]),
       (''cost'', JNum (Fin (- 1 / 2)))]"]
    by (simp add: Let_def Usage.equality)
qed

lemma first_positive_renormalized:
  "first_positive [JNum (first_positive vs d), JUndefined] d = first_positive vs d"
proof (induction vs d rule: first_positive.induct)
  case (1 d)
  show ?case by (cases d) auto
qed auto

lemma normalizeUsage_again:
  "normalizeUsage round_double (usage_to_js (normalizeUsage round_double rawUsage))
     = (normalizeUsage round_double rawUsage) \<lparr> cached_tokens := Fin 0, reasoning_tokens := Fin 0 \<rparr>"
proof -
  let ?u = "normalizeUsage round_double rawUsage"
  let ?v = "normalizeUsage round_double (usage_to_js ?u)"
  note su = normalizeUsage_sel [of round_double rawUsage]
  note sv = normalizeUsage_sel [of round_double "usage_to_js ?u"]
  have p: "prompt_tokens ?v = prompt_tokens ?u"
    by (subst sv(1)) (simp add: usage_to_js_def su(1) first_positive_renormalized)
  have c: "completion_tokens ?v = completion_tokens ?u"
    by (subst sv(2)) (simp add: usage_to_js_def su(2) first_positive_renormalized)
  have t: "total_tokens ?v = total_tokens ?u"
    by (subst sv(3), simp only: p c) (simp add: usage_to_js_def su(3) first_positive_renormalized)
  have ca: "cached_tokens ?v = Fin 0"
    by (subst sv(4)) (simp add: usage_to_js_def)
  have r: "reasoning_tokens ?v = Fin 0"
    by (subst sv(5)) (simp add: usage_to_js_def)
  have co: "cost ?v = cost ?u"
    by (subst sv(6)) (simp add: usage_to_js_def su(6) split: jsval.splits jsnum.splits)
  show ?thesis
    by (rule Usage.equality) (simp_all add: p c t ca r co)
qed

text \<open>
  Claim C7, amended. Normalising a normalised usage keeps \<open>prompt_tokens\<close>,
  \<open>completion_tokens\<close>, \<open>total_tokens\<close> and \<open>cost\<close>, and sets \<open>cached_tokens\<close> and
  \<open>reasoning_tokens\<close> to \<open>0\<close>, since these two are read from the nested
  \<open>prompt_tokens_details\<close> and \<open>completion_tokens_details\<close> objects, which the canonical
  record does not have. So the second pass returns the first result exactly when that result
  has no cached and no reasoning tokens.
\<close>

theorem normalizeUsage_twice:
  "normalizeUsage round_double (usage_to_js (normalizeUsage round_double rawUsage))
     = (normalizeUsage round_double rawUsage) \<lparr> cached_tokens := Fin 0, reasoning_tokens := Fin 0 \<rparr>
   \<and> (normalizeUsage round_double (usage_to_js (normalizeUsage round_double rawUsage))
          = normalizeUsage round_double rawUsage
        \<longleftrightarrow> cached_tokens (normalizeUsage round_double rawUsage) = Fin 0
          \<and> reasoning_tokens (normalizeUsage round_double rawUsage) = Fin 0)"
proof -
  let ?u = "normalizeUsage round_double rawUsage"
  have "?u \<lparr> cached_tokens := Fin 0, reasoning_tokens := Fin 0 \<rparr> = ?u
        \<longleftrightarrow> cached_tokens ?u = Fin 0 \<and> reasoning_tokens ?u = Fin 0"
    by (cases ?u) auto
  then show ?thesis by (simp only: normalizeUsage_again)
qed

theorem normalizeUsage_twice_witness:
  "normalizeUsage Fin (usage_to_js (normalizeUsage Fin
      (JObj [(''usageMetadata'', JObj [(''promptTokenCount'', JNum (Fin 50)),
               (''candidatesTokenCount'', JNum (Fin 25)), (''totalTokenCount'', JNum (Fin 75))])])))
   = \<lparr> prompt_tokens = Fin 50, completion_tokens = Fin 25, total_tokens = Fin 75,
       cached_tokens = Fin 0, reasoning_tokens = Fin 0, cost = Fin 0 \<rparr>"
  using normalizeUsage_twice [of Fin "JObj [(''usageMetadata'', JObj [(''promptTokenCount'', JNum (Fin 50)),
               (''candidatesTokenCount'', JNum (Fin 25)), (''totalTokenCount'', JNum (Fin 75))])]"]
  by (simp add: normalizeUsage_def usage_to_js_def Let_def js_le_def)

text \<open>
  Claim C7 says \<open>normalizeUsage (normalizeUsage x) = normalizeUsage x\<close> for every \<open>x\<close>. The
  usage object of the repository's own test (\<open>provider_config_test.ts\<close>), with 10 cached and 20
  reasoning tokens, refutes it.
\<close>

theorem normalizeUsage_not_idempotent:
  "normalizeUsage Fin (usage_to_js (normalizeUsage Fin
      (JObj [(''prompt_tokens'', JNum (Fin 120)), (''completion_tokens'', JNum (Fin 80)),
             (''total_tokens'', JNum (Fin 200)),
             (''prompt_tokens_details'', JObj [(''cached_tokens'', JNum (Fin 10))]),
             (''completion_tokens_details'', JObj [(''reasoning_tokens'', JNum (Fin 20))]),
             (''cost'', JNum (Fin (3 / 1000)))])))
   \<noteq> normalizeUsage Fin
      (JObj [(''prompt_tokens'', JNum (Fin 120)), (''completion_tokens'', JNum (Fin 80)),
             (''total_tokens'', JNum (Fin 200)),
             (''prompt_tokens_details'', JObj [(''cached_tokens'', JNum (Fin 10))]),
             (''completion_tokens_details'', JObj [(''reasoning_tokens'', JNum (Fin 20))]),
             (''cost'', JNum (Fin (3 / 1000)))])"
  by (simp add: normalizeUsage_def usage_to_js_def Let_def js_le_def)

section \<open>Properties of runtime model selection\<close>

lemma sublist_between: "w = ps @ xs @ ss \<Longrightarrow> sublist xs w"
  by (auto simp: sublist_def)

lemma first_candidate_Some:
  "first_candidate cs available = Some c \<Longrightarrow> first_available_of cs available c"
proof (induction cs)
  case Nil
  then show ?case by simp
next
  case (Cons a cs)
  show ?case
  proof (cases "a \<in> set available")
    case True
    with Cons.prems have "c = a" by simp
    with True have "a # cs = [] @ c # cs \<and> c \<in> set available \<and> (\<forall>x \<in> set []. x \<notin> set available)"
      by simp
    then show ?thesis unfolding first_available_of_def by blast
  next
    case False
    with Cons.prems have "first_candidate cs available = Some c" by simp
    then have "first_available_of cs available c" by (rule Cons.IH)
    then obtain before after where
      b: "cs = before @ c # after" "c \<in> set available" "\<forall>x \<in> set before. x \<notin> set available"
      unfolding first_available_of_def by blast
    with False have "a # cs = (a # before) @ c # after \<and> c \<in> set available
        \<and> (\<forall>x \<in> set (a # before). x \<notin> set available)"
      by simp
    then show ?thesis unfolding first_available_of_def by blast
  qed
qed

lemma first_candidate_None:
  "first_candidate cs available = None \<longleftrightarrow> (\<forall>c \<in> set cs. c \<notin> set available)"
  by (induction cs) auto

lemma js_trim_parts:
  assumes "js_trim raw \<noteq> []"
  shows "\<exists>before after. raw = before @ js_trim raw @ after
           \<and> (\<forall>c \<in> set before. js_whitespace c) \<and> (\<forall>c \<in> set after. js_whitespace c)
           \<and> \<not> js_whitespace (hd (js_trim raw)) \<and> \<not> js_whitespace (last (js_trim raw))"
proof -
  let ?m = "dropWhile js_whitespace raw"
  let ?t = "dropWhile js_whitespace (rev ?m)"
  have v: "js_trim raw = rev ?t" by (simp add: js_trim_def)
  with assms have t: "?t \<noteq> []" by simp
  have m: "?m = rev ?t @ rev (takeWhile js_whitespace (rev ?m))"
    by (metis rev_append rev_rev_ident takeWhile_dropWhile_id)
  have raw: "raw = takeWhile js_whitespace raw @ rev ?t @ rev (takeWhile js_whitespace (rev ?m))"
    using m by (metis takeWhile_dropWhile_id)
  have b: "\<forall>c \<in> set (takeWhile js_whitespace raw). js_whitespace c"
    by (auto dest: set_takeWhileD)
  have a: "\<forall>c \<in> set (rev (takeWhile js_whitespace (rev ?m))). js_whitespace c"
    by (auto dest: set_takeWhileD)
  have "last (rev ?t) = hd ?t" using t by (simp add: last_rev)
  moreover have "\<not> js_whitespace (hd ?t)" using t by (rule hd_dropWhile)
  ultimately have l: "\<not> js_whitespace (last (rev ?t))" by simp
  have mne: "?m \<noteq> []"
  proof
    assume e: "?m = []"
    have "?t = []" unfolding e by simp
    with t show False by simp
  qed
  have "hd ?m = hd (rev ?t)" using m t by (metis hd_append2 rev_is_Nil_conv)
  moreover have "\<not> js_whitespace (hd ?m)" using mne by (rule hd_dropWhile)
  ultimately have h: "\<not> js_whitespace (hd (rev ?t))" by simp
  show ?thesis unfolding v using raw b a h l by blast
qed

lemma js_trim_between:
  assumes "\<forall>c \<in> set before. js_whitespace c" and "\<forall>c \<in> set after. js_whitespace c"
    and "v \<noteq> []" and "\<not> js_whitespace (hd v)" and "\<not> js_whitespace (last v)"
  shows "js_trim (before @ v @ after) = v"
proof -
  have "dropWhile js_whitespace (before @ v @ after) = dropWhile js_whitespace (v @ after)"
    using assms(1) by simp
  also have "\<dots> = v @ after" using assms(3,4) by (cases v) simp_all
  finally have front: "dropWhile js_whitespace (before @ v @ after) = v @ after" .
  have "dropWhile js_whitespace (rev after @ rev v) = dropWhile js_whitespace (rev v)"
    by (rule dropWhile_append2) (use assms(2) in auto)
  also have "\<dots> = rev v" using assms(3,5) by (cases "rev v") (simp_all add: hd_rev)
  finally show ?thesis by (simp add: js_trim_def front)
qed

lemma getEnvValue_names: "getEnvValue name getEnv = Some v \<longleftrightarrow> env_names getEnv name v"
proof
  assume g: "getEnvValue name getEnv = Some v"
  then obtain raw where raw: "getEnv name = Some raw" "js_trim raw = v" "v \<noteq> []"
    by (auto simp: getEnvValue_def Let_def split: option.splits if_splits)
  from js_trim_parts [of raw] raw show "env_names getEnv name v"
    unfolding env_names_def by auto
next
  assume "env_names getEnv name v"
  then obtain raw before after where e: "getEnv name = Some raw" "raw = before @ v @ after"
      "\<forall>c \<in> set before. js_whitespace c" "\<forall>c \<in> set after. js_whitespace c"
      "v \<noteq> []" "\<not> js_whitespace (hd v)" "\<not> js_whitespace (last v)"
    unfolding env_names_def by blast
  have "js_trim raw = v" unfolding e(2) using e(3-7) by (rule js_trim_between)
  with e(1,5) show "getEnvValue name getEnv = Some v"
    by (simp add: getEnvValue_def Let_def)
qed

lemma pickModel_available:
  "requested \<in> set available \<Longrightarrow>
     pickModel role requested available getEnv = \<lparr> selected = Some requested, warning = None \<rparr>"
  by (simp add: pickModel_def)

lemma pickModel_unavailable:
  assumes "available \<noteq> []" and "requested \<notin> set available"
  shows "\<exists>chosen w. pickModel role requested available getEnv = \<lparr> selected = Some chosen, warning = Some w \<rparr>
           \<and> chosen \<in> set available 
           \<and> chosen_by_priority role available getEnv chosen
           \<and> sublist (role_name role) w \<and> sublist requested w \<and> sublist chosen w"
proof -
  let ?env = "getEnvValue (fallback_env_name role) getEnv"
  let ?head = "''Requested '' @ role_name role @ '' model '' @ [CHR 0x27] @ requested @ [CHR 0x27]"
  have bf: "builtin_fallbacks role = (if role = Primary then PRIMARY_FALLBACKS else SUB_FALLBACKS)"
    by (simp add: builtin_fallbacks_def PRIMARY_FALLBACKS_def SUB_FALLBACKS_def)
  have named: "sublist (role_name role) (?head @ rest) \<and> sublist requested (?head @ rest)" for rest
  proof
    show "sublist (role_name role) (?head @ rest)"
      by (rule sublist_between [where ps = "''Requested ''"
            and ss = "'' model '' @ [CHR 0x27] @ requested @ [CHR 0x27] @ rest"]) simp
    show "sublist requested (?head @ rest)"
      by (rule sublist_between [where ps = "''Requested '' @ role_name role @ '' model '' @ [CHR 0x27]"
            and ss = "[CHR 0x27] @ rest"]) simp
  qed
  consider
      (env) f where "?env = Some f" "f \<in> set available"
    | (builtin) c where "\<not> (\<exists>f. ?env = Some f \<and> f \<in> set available)"
        "first_candidate (builtin_fallbacks role) available = Some c"
    | (first) "\<not> (\<exists>f. ?env = Some f \<and> f \<in> set available)"
        "first_candidate (builtin_fallbacks role) available = None"
    by (cases "first_candidate (builtin_fallbacks role) available") auto
  then show ?thesis
  proof cases
    case env
    let ?w = "?head @ '' is unavailable; using '' @ fallback_env_name role @ ''='' @ [CHR 0x27] @ f @ [CHR 0x27] @ ''.''"
    have "pickModel role requested available getEnv = \<lparr> selected = Some f, warning = Some ?w \<rparr>"
      using assms(2) env by (simp add: pickModel_def fallback_env_name_def Let_def)
    moreover have "chosen_by_priority role available getEnv f"
      using env by (auto simp: chosen_by_priority_def getEnvValue_names)
    moreover have "sublist f ?w"
      by (rule sublist_between [where ps = "?head @ '' is unavailable; using '' @ fallback_env_name role @ ''='' @ [CHR 0x27]"
            and ss = "[CHR 0x27] @ ''.''"]) simp
    ultimately show ?thesis using env(2) named by blast
  next
    case builtin
    let ?w = "?head @ '' is unavailable; using fallback '' @ [CHR 0x27] @ c @ [CHR 0x27] @ ''.''"
    have fa: "first_available_of (builtin_fallbacks role) available c"
      using builtin(2) by (rule first_candidate_Some)
    then have mem: "c \<in> set available" "c \<in> set (builtin_fallbacks role)"
      by (auto simp: first_available_of_def)
    have noenv: "\<not> (case ?env of Some f \<Rightarrow> f \<in> set available | None \<Rightarrow> False)"
      using builtin(1) by (auto split: option.splits)
    have "pickModel role requested available getEnv = \<lparr> selected = Some c, warning = Some ?w \<rparr>"
      using assms(2) noenv builtin(2)
      by (simp add: pickModel_def Let_def bf fallback_env_name_def)
    moreover have "chosen_by_priority role available getEnv c"
      using builtin(1) fa mem by (auto simp: chosen_by_priority_def getEnvValue_names)
    moreover have "sublist c ?w"
      by (rule sublist_between [where ps = "?head @ '' is unavailable; using fallback '' @ [CHR 0x27]"
            and ss = "[CHR 0x27] @ ''.''"]) simp
    ultimately show ?thesis using mem(1) named by blast
  next
    case first
    from assms(1) obtain a rest where av: "available = a # rest" by (cases available) auto
    have hd0: "(case available of [] \<Rightarrow> None | a # x \<Rightarrow> Some a) = Some a" by (simp add: av)
    let ?w = "?head @ '' is unavailable; using first available model '' @ [CHR 0x27] @ a @ [CHR 0x27] @ ''.''"
    have noenv: "\<not> (case ?env of Some f \<Rightarrow> f \<in> set available | None \<Rightarrow> False)"
      using first(1) by (auto split: option.splits)
    have "pickModel role requested available getEnv = \<lparr> selected = Some a, warning = Some ?w \<rparr>"
      using assms(2) noenv first(2)
      by (simp add: pickModel_def Let_def bf fallback_env_name_def hd0)
    moreover have "chosen_by_priority role available getEnv a"
      using first by (auto simp: chosen_by_priority_def first_candidate_None av getEnvValue_names)
    moreover have "sublist a ?w"
      by (rule sublist_between [where ps = "?head @ '' is unavailable; using first available model '' @ [CHR 0x27]"
            and ss = "[CHR 0x27] @ ''.''"]) simp
    ultimately show ?thesis using av named by auto
  qed
qed

lemma pickModel_selection_ok:
  assumes "available \<noteq> []"
  shows "selection_ok role requested available getEnv (pickModel role requested available getEnv)"
proof (cases "requested \<in> set available")
  case True
  then show ?thesis by (simp add: selection_ok_def pickModel_available)
next
  case False
  from pickModel_unavailable [OF assms False, of role getEnv]
  obtain chosen w where
    "pickModel role requested available getEnv = \<lparr> selected = Some chosen, warning = Some w \<rparr>"
    "chosen \<in> set available" "chosen_by_priority role available getEnv chosen"
    "sublist (role_name role) w" "sublist requested w" "sublist chosen w"
    by blast
  with False show ?thesis by (auto simp: selection_ok_def)
qed

lemma pickModel_warning_count:
  assumes "available \<noteq> []"
  shows "push_warning (warning (pickModel role requested available getEnv)) ws
          = ws @ (case warning (pickModel role requested available getEnv) of Some w \<Rightarrow> [w] | None \<Rightarrow> [])"
    and "length (case warning (pickModel role requested available getEnv) of Some w \<Rightarrow> [w] | None \<Rightarrow> [])
          = (if requested \<in> set available then 0 else 1)"
proof -
  have ok: "selection_ok role requested available getEnv (pickModel role requested available getEnv)"
    using assms by (rule pickModel_selection_ok)
  have ne: "w \<noteq> []" if "sublist (role_name role) w" for w
    using that by (cases role) (auto simp: sublist_def)
  show "push_warning (warning (pickModel role requested available getEnv)) ws
          = ws @ (case warning (pickModel role requested available getEnv) of Some w \<Rightarrow> [w] | None \<Rightarrow> [])"
    using ok ne by (auto simp: selection_ok_def split: if_splits)
  show "length (case warning (pickModel role requested available getEnv) of Some w \<Rightarrow> [w] | None \<Rightarrow> [])
          = (if requested \<in> set available then 0 else 1)"
    using ok by (auto simp: selection_ok_def split: if_splits)
qed

text \<open>
  Claim C5. For a non-empty list of available models, \<open>pickModel\<close> returns for each role the
  requested model with no warning when it is available; otherwise the model that the role's
  fallback variable (\<open>RLM_FALLBACK_PRIMARY\<close>, \<open>RLM_FALLBACK_SUB\<close>) names in the environment,
  when it names one and that one is available; otherwise the first built-in fallback of the
  role that is available; otherwise the first available model. Every selection other than
  the requested model carries one warning naming the role, the requested model and the
  chosen model. \<open>resolveRuntimeModels\<close> returns the two selections and the warnings of the
  primary and then the sub role, one per unavailable request. Being functions of their
  arguments, both are deterministic.
\<close>

theorem resolveRuntimeModels_selection:
  assumes "available \<noteq> []"
  shows "selection_ok role model available getEnv (pickModel role model available getEnv)
       \<and> (let r = resolveRuntimeModels requested available getEnv;
               primary = pickModel Primary (requested_primaryAgent requested) available getEnv;
               sub = pickModel Sub (requested_subAgent requested) available getEnv
           in primaryAgent r = selected primary \<and> subAgent r = selected sub
            \<and> warnings r = (case warning primary of Some w \<Rightarrow> [w] | None \<Rightarrow> [])
                            @ (case warning sub of Some w \<Rightarrow> [w] | None \<Rightarrow> [])
            \<and> length (warnings r) =
                 (if requested_primaryAgent requested \<in> set available then 0 else 1)
               + (if requested_subAgent requested \<in> set available then 0 else 1))"
proof -
  note wc = pickModel_warning_count [OF assms]
  have "warnings (resolveRuntimeModels requested available getEnv)
      = (case warning (pickModel Primary (requested_primaryAgent requested) available getEnv) of
           Some w \<Rightarrow> [w] | None \<Rightarrow> [])
        @ (case warning (pickModel Sub (requested_subAgent requested) available getEnv) of
           Some w \<Rightarrow> [w] | None \<Rightarrow> [])"
    by (simp add: resolveRuntimeModels_def Let_def wc(1))
  moreover have "primaryAgent (resolveRuntimeModels requested available getEnv)
      = selected (pickModel Primary (requested_primaryAgent requested) available getEnv)"
    by (simp add: resolveRuntimeModels_def Let_def)
  moreover have "subAgent (resolveRuntimeModels requested available getEnv)
      = selected (pickModel Sub (requested_subAgent requested) available getEnv)"
    by (simp add: resolveRuntimeModels_def Let_def)
  ultimately show ?thesis
    using pickModel_selection_ok [OF assms, of role model getEnv]
    by (simp add: Let_def wc(2))
qed

theorem resolveRuntimeModels_selection_witness:
  "(let r = resolveRuntimeModels
       \<lparr> requested_primaryAgent = ''gpt-6'', requested_subAgent = ''gpt-5-codex-mini'' \<rparr>
       [''gpt-5'', ''gpt-5-codex-mini''] (\<lambda>name. None)
    in primaryAgent r = Some ''gpt-5'' \<and> subAgent r = Some ''gpt-5-codex-mini''
     \<and> warnings r = [''Requested primary model '' @ [CHR 0x27] @ ''gpt-6'' @ [CHR 0x27]
          @ '' is unavailable; using fallback '' @ [CHR 0x27] @ ''gpt-5'' @ [CHR 0x27] @ ''.''])
   \<and> (let env = fallback_env;
           available = [''gpt-5'', ''gemini-2.5-pro'', ''gpt-5-codex-mini''];
           r = resolveRuntimeModels
                 \<lparr> requested_primaryAgent = ''gpt-6'', requested_subAgent = ''gpt-6-mini'' \<rparr> available env
       in primaryAgent r = Some ''gemini-2.5-pro'' \<and> subAgent r = Some ''gpt-5-codex-mini''
        \<and> warnings r = [''Requested primary model '' @ [CHR 0x27] @ ''gpt-6'' @ [CHR 0x27]
             @ '' is unavailable; using RLM_FALLBACK_PRIMARY='' @ [CHR 0x27] @ ''gemini-2.5-pro''
             @ [CHR 0x27] @ ''.'',
            ''Requested sub model '' @ [CHR 0x27] @ ''gpt-6-mini'' @ [CHR 0x27]
             @ '' is unavailable; using fallback '' @ [CHR 0x27] @ ''gpt-5-codex-mini'' @ [CHR 0x27] @ ''.'']
        \<and> chosen_by_priority Primary available env ''gemini-2.5-pro'')"
proof -
  let ?env = fallback_env
  let ?available = "[''gpt-5'', ''gemini-2.5-pro'', ''gpt-5-codex-mini'']"
  have ne: "[''gpt-5'', ''gpt-5-codex-mini''] \<noteq> []" "?available \<noteq> []" by simp_all
  note plain = resolveRuntimeModels_selection [OF ne(1), of Primary "''gpt-6''" "\<lambda>name. None"
      "\<lparr> requested_primaryAgent = ''gpt-6'', requested_subAgent = ''gpt-5-codex-mini'' \<rparr>"]
  note fallback = resolveRuntimeModels_selection [OF ne(2), of Primary "''gpt-6''" ?env
      "\<lparr> requested_primaryAgent = ''gpt-6'', requested_subAgent = ''gpt-6-mini'' \<rparr>"]
  have env: "getEnvValue ''RLM_FALLBACK_PRIMARY'' fallback_env = Some ''gemini-2.5-pro''"
    "getEnvValue ''RLM_FALLBACK_SUB'' fallback_env = Some ''gpt-4o''"
    by (simp_all add: getEnvValue_def fallback_env_def js_trim_def js_whitespace_def)
  have primary: "pickModel Primary ''gpt-6'' ?available ?env
      = \<lparr> selected = Some ''gemini-2.5-pro'',
          warning = Some (''Requested primary model '' @ [CHR 0x27] @ ''gpt-6'' @ [CHR 0x27]
             @ '' is unavailable; using RLM_FALLBACK_PRIMARY='' @ [CHR 0x27] @ ''gemini-2.5-pro''
             @ [CHR 0x27] @ ''.'') \<rparr>"
    by (simp add: pickModel_def env)
  have sub: "pickModel Sub ''gpt-6-mini'' ?available ?env
      = \<lparr> selected = Some ''gpt-5-codex-mini'',
          warning = Some (''Requested sub model '' @ [CHR 0x27] @ ''gpt-6-mini'' @ [CHR 0x27]
             @ '' is unavailable; using fallback '' @ [CHR 0x27] @ ''gpt-5-codex-mini'' @ [CHR 0x27] @ ''.'') \<rparr>"
    by (simp add: pickModel_def env SUB_FALLBACKS_def)
  from fallback have "selection_ok Primary ''gpt-6'' ?available ?env (pickModel Primary ''gpt-6'' ?available ?env)"
    by (rule conjunct1)
  then have chosen: "chosen_by_priority Primary ?available ?env ''gemini-2.5-pro''"
    unfolding primary by (simp add: selection_ok_def)
  have first: "(let r = resolveRuntimeModels
       \<lparr> requested_primaryAgent = ''gpt-6'', requested_subAgent = ''gpt-5-codex-mini'' \<rparr>
       [''gpt-5'', ''gpt-5-codex-mini''] (\<lambda>name. None)
    in primaryAgent r = Some ''gpt-5'' \<and> subAgent r = Some ''gpt-5-codex-mini''
     \<and> warnings r = [''Requested primary model '' @ [CHR 0x27] @ ''gpt-6'' @ [CHR 0x27]
          @ '' is unavailable; using fallback '' @ [CHR 0x27] @ ''gpt-5'' @ [CHR 0x27] @ ''.''])"
    using plain
    by (simp add: Let_def pickModel_def getEnvValue_def PRIMARY_FALLBACKS_def SUB_FALLBACKS_def)
  have second: "primaryAgent (resolveRuntimeModels
         \<lparr> requested_primaryAgent = ''gpt-6'', requested_subAgent = ''gpt-6-mini'' \<rparr> ?available ?env)
       = Some ''gemini-2.5-pro''
     \<and> subAgent (resolveRuntimeModels
         \<lparr> requested_primaryAgent = ''gpt-6'', requested_subAgent = ''gpt-6-mini'' \<rparr> ?available ?env)
       = Some ''gpt-5-codex-mini''
     \<and> warnings (resolveRuntimeModels
         \<lparr> requested_primaryAgent = ''gpt-6'', requested_subAgent = ''gpt-6-mini'' \<rparr> ?available ?env)
       = [''Requested primary model '' @ [CHR 0x27] @ ''gpt-6'' @ [CHR 0x27]
             @ '' is unavailable; using RLM_FALLBACK_PRIMARY='' @ [CHR 0x27] @ ''gemini-2.5-pro''
             @ [CHR 0x27] @ ''.'',
            ''Requested sub model '' @ [CHR 0x27] @ ''gpt-6-mini'' @ [CHR 0x27]
             @ '' is unavailable; using fallback '' @ [CHR 0x27] @ ''gpt-5-codex-mini'' @ [CHR 0x27] @ ''.'']"
    using fallback by (simp add: Let_def primary sub)
  show ?thesis unfolding Let_def using first [unfolded Let_def] second chosen by blast
qed

section \<open>Properties of the result-file write\<close>

lemma tmp_differs: "outputFile @ ''.tmp.'' @ uuid \<noteq> outputFile"
proof
  assume "outputFile @ ''.tmp.'' @ uuid = outputFile"
  then have "length (outputFile @ ''.tmp.'' @ uuid) = length outputFile" by simp
  then show False by simp
qed

lemma Deno_remove_others:
  "p \<noteq> path \<Longrightarrow> snd (Deno_remove faults path fs) p = fs p"
  by (simp add: Deno_remove_def split: option.splits)

lemma Deno_remove_removed:
  "\<forall>f p. remove_fault faults f p = None \<Longrightarrow> snd (Deno_remove faults path fs) path = None"
  by (simp add: Deno_remove_def split: option.splits)

text \<open>
  Claim C10. \<open>writeOutputAtomically\<close> serialises the payload to the temporary path
  \<open>outputFile.tmp.uuid\<close> and renames it onto the destination. When the payload can be
  serialised and neither the write of the temporary file nor the rename fails, the call
  returns, and the file system is the one it started with but for the destination, which
  holds the complete serialised payload, and the temporary path, which is gone. When
  serialising, writing or renaming fails, and only then, the call throws: the destination
  and every path but the temporary one are unchanged, the temporary file is gone unless its
  removal fails too, and the error thrown is a \<open>CliError\<close> of kind \<open>output\<close>, mapped to exit
  code 7, whose message names the destination and the cause.
\<close>

theorem writeOutputAtomically_atomic:
  "(\<forall>serialized. JSON_stringify payload = Inr serialized
       \<and> write_fault faults fs (outputFile @ ''.tmp.'' @ uuid) serialized = None
       \<and> rename_fault faults (fs(outputFile @ ''.tmp.'' @ uuid \<mapsto> serialized))
            (outputFile @ ''.tmp.'' @ uuid) outputFile = None \<longrightarrow>
     writeOutputAtomically JSON_stringify faults uuid outputFile payload fs
       = (Inr (), (fs(outputFile @ ''.tmp.'' @ uuid := None))(outputFile \<mapsto> serialized)))
 \<and> (case writeOutputAtomically JSON_stringify faults uuid outputFile payload fs of
      (Inr done, fs') \<Rightarrow>
        (\<exists>serialized. JSON_stringify payload = Inr serialized \<and> fs' outputFile = Some serialized
           \<and> write_fault faults fs (outputFile @ ''.tmp.'' @ uuid) serialized = None
           \<and> rename_fault faults (fs(outputFile @ ''.tmp.'' @ uuid \<mapsto> serialized))
                (outputFile @ ''.tmp.'' @ uuid) outputFile = None)
        \<and> fs' (outputFile @ ''.tmp.'' @ uuid) = None
        \<and> (\<forall>p. p \<noteq> outputFile \<and> p \<noteq> outputFile @ ''.tmp.'' @ uuid \<longrightarrow> fs' p = fs p)
    | (Inl err, fs') \<Rightarrow>
        fs' outputFile = fs outputFile
        \<and> (\<forall>p. p \<noteq> outputFile @ ''.tmp.'' @ uuid \<longrightarrow> fs' p = fs p)
        \<and> ((\<forall>f p. remove_fault faults f p = None) \<longrightarrow> fs' (outputFile @ ''.tmp.'' @ uuid) = None)
        \<and> exn_name err = ''CliError'' \<and> exn_kind err = Some K_output \<and> exitCodeForError err = 7
        \<and> (\<exists>cause. exn_message err =
              ''Failed writing output file '' @ [CHR 0x27] @ outputFile @ [CHR 0x27] @ '': ''
                @ String_of_error cause)
        \<and> sublist outputFile (exn_message err))"
proof -
  let ?tmp = "outputFile @ ''.tmp.'' @ uuid"
  let ?msg = "\<lambda>cause. ''Failed writing output file '' @ [CHR 0x27] @ outputFile @ [CHR 0x27] @ '': ''
                @ String_of_error cause"
  have named: "sublist outputFile (?msg cause)" for cause
    by (rule sublist_between [where ps = "''Failed writing output file '' @ [CHR 0x27]"
          and ss = "[CHR 0x27] @ '': '' @ String_of_error cause"]) simp
  have code: "exitCodeForError (new_CliError K_output m) = 7" for m
    by (simp add: exitCodeForError_def new_CliError_def EXIT_OUTPUT_WRITE_def)
  note d = tmp_differs [of outputFile uuid]
  show ?thesis
  proof (cases "JSON_stringify payload")
    case (Inl e)
    then show ?thesis
      using named [of e] code d
      by (auto simp: writeOutputAtomically_def Let_def new_CliError_def Deno_remove_others Deno_remove_removed)
  next
    case (Inr ser)
    show ?thesis
    proof (cases "write_fault faults fs ?tmp ser")
      case (Some a)
      obtain e residue where a: "a = (e, residue)" by (cases a)
      show ?thesis
        using Inr Some a named [of e] code d
        by (auto simp: writeOutputAtomically_def Let_def new_CliError_def Deno_writeTextFile_def
              Deno_remove_others Deno_remove_removed)
    next
      case None
      show ?thesis
      proof (cases "rename_fault faults (fs(?tmp \<mapsto> ser)) ?tmp outputFile")
        case (Some e)
        show ?thesis
          using Inr None Some named [of e] code d
          by (auto simp: writeOutputAtomically_def Let_def new_CliError_def Deno_writeTextFile_def
                Deno_rename_def Deno_remove_others Deno_remove_removed)
      next
        case rn: None
        show ?thesis
          using Inr None rn d
          by (auto simp: writeOutputAtomically_def Let_def Deno_writeTextFile_def Deno_rename_def)
      qed
    qed
  qed
qed

theorem writeOutputAtomically_atomic_witness:
  "(let faults = \<lparr> write_fault = (\<lambda>fs path data. None),
                     rename_fault = (\<lambda>fs oldpath newpath. None),
                     remove_fault = (\<lambda>fs path. None),
                     not_found = (\<lambda>path. Exn ''NotFound'' path None) \<rparr>;
        r = writeOutputAtomically (\<lambda>payload. Inr ''{}'') faults ''u1'' ''out.json'' JNull
              [''out.json'' \<mapsto> ''old'']
    in fst r = Inr () \<and> snd r ''out.json'' = Some ''{}'' \<and> snd r ''out.json.tmp.u1'' = None)
 \<and> (let faults = \<lparr> write_fault = (\<lambda>fs path data. None),
                     rename_fault = (\<lambda>fs oldpath newpath. Some (Exn ''PermissionDenied'' ''denied'' None)),
                     remove_fault = (\<lambda>fs path. None),
                     not_found = (\<lambda>path. Exn ''NotFound'' path None) \<rparr>;
        r = writeOutputAtomically (\<lambda>payload. Inr ''{}'') faults ''u1'' ''out.json'' JNull
              [''out.json'' \<mapsto> ''old'']
    in fst r = Inl (Exn ''CliError''
                 (''Failed writing output file '' @ [CHR 0x27] @ ''out.json'' @ [CHR 0x27]
                    @ '': PermissionDenied: denied'') (Some K_output))
     \<and> snd r ''out.json'' = Some ''old'' \<and> snd r ''out.json.tmp.u1'' = None)"
proof -
  let ?sound = "\<lparr> write_fault = (\<lambda>fs path data. None),
         rename_fault = (\<lambda>fs oldpath newpath. None),
         remove_fault = (\<lambda>fs path. None),
         not_found = (\<lambda>path. Exn ''NotFound'' path None) \<rparr>"
  let ?denied = "\<lparr> write_fault = (\<lambda>fs path data. None),
         rename_fault = (\<lambda>fs oldpath newpath. Some (Exn ''PermissionDenied'' ''denied'' None)),
         remove_fault = (\<lambda>fs path. None),
         not_found = (\<lambda>path. Exn ''NotFound'' path None) \<rparr>"
  from writeOutputAtomically_atomic [where JSON_stringify = "\<lambda>payload. Inr ''{}''"
      and faults = ?sound and uuid = "''u1''" and outputFile = "''out.json''" and payload = JNull
      and fs = "[''out.json'' \<mapsto> ''old'']"]
  have "writeOutputAtomically (\<lambda>payload. Inr ''{}'') ?sound ''u1'' ''out.json'' JNull [''out.json'' \<mapsto> ''old'']
      = (Inr (), ([''out.json'' \<mapsto> ''old''](''out.json'' @ ''.tmp.'' @ ''u1'' := None))(''out.json'' \<mapsto> ''{}''))"
    by simp
  then have success: "fst (writeOutputAtomically (\<lambda>payload. Inr ''{}'') ?sound ''u1'' ''out.json'' JNull
        [''out.json'' \<mapsto> ''old'']) = Inr ()
     \<and> snd (writeOutputAtomically (\<lambda>payload. Inr ''{}'') ?sound ''u1'' ''out.json'' JNull
        [''out.json'' \<mapsto> ''old'']) ''out.json'' = Some ''{}''
     \<and> snd (writeOutputAtomically (\<lambda>payload. Inr ''{}'') ?sound ''u1'' ''out.json'' JNull
        [''out.json'' \<mapsto> ''old'']) ''out.json.tmp.u1'' = None"
    by simp
  have failure: "fst (writeOutputAtomically (\<lambda>payload. Inr ''{}'') ?denied ''u1'' ''out.json'' JNull
        [''out.json'' \<mapsto> ''old''])
       = Inl (Exn ''CliError''
                 (''Failed writing output file '' @ [CHR 0x27] @ ''out.json'' @ [CHR 0x27]
                    @ '': PermissionDenied: denied'') (Some K_output))
     \<and> snd (writeOutputAtomically (\<lambda>payload. Inr ''{}'') ?denied ''u1'' ''out.json'' JNull
        [''out.json'' \<mapsto> ''old'']) ''out.json'' = Some ''old''
     \<and> snd (writeOutputAtomically (\<lambda>payload. Inr ''{}'') ?denied ''u1'' ''out.json'' JNull
        [''out.json'' \<mapsto> ''old'']) ''out.json.tmp.u1'' = None"
    using writeOutputAtomically_atomic [where JSON_stringify = "\<lambda>payload. Inr ''{}''"
      and faults = ?denied and uuid = "''u1''" and outputFile = "''out.json''" and payload = JNull
      and fs = "[''out.json'' \<mapsto> ''old'']"]
    by (simp add: writeOutputAtomically_def Let_def Deno_writeTextFile_def Deno_rename_def
        Deno_remove_def new_CliError_def String_of_error_def)
  show ?thesis unfolding Let_def using success failure by blast
qed

section \<open>Properties of the agent\<close>

lemma fresh_calls_refl: "fresh_calls s s"
  by (simp add: fresh_calls_def)

lemma fresh_calls_trans:
  assumes "fresh_calls s t" and "fresh_calls t u"
  shows "fresh_calls s u"
proof -
  from assms(1) obtain a where a: "next_run_id s \<le> next_run_id t" "chat_calls t = chat_calls s @ a"
    "\<forall>c \<in> set a. next_run_id s \<le> call_run c"
    unfolding fresh_calls_def by blast
  from assms(2) obtain b where b: "next_run_id t \<le> next_run_id u" "chat_calls u = chat_calls t @ b"
    "\<forall>c \<in> set b. next_run_id t \<le> call_run c"
    unfolding fresh_calls_def by blast
  have "chat_calls u = chat_calls s @ (a @ b)" using a(2) b(2) by simp
  moreover have "\<forall>c \<in> set (a @ b). next_run_id s \<le> call_run c"
    using a(1,3) b(3) by (auto intro: order_trans)
  moreover have "next_run_id s \<le> next_run_id u" using a(1) b(1) by simp
  ultimately show ?thesis unfolding fresh_calls_def by blast
qed

lemma fresh_calls_same:
  "next_run_id s' = next_run_id s \<Longrightarrow> chat_calls s' = chat_calls s \<Longrightarrow> fresh_calls s s'"
  by (simp add: fresh_calls_def)

lemma console_error_fresh [simp]:
  "next_run_id (console_error l s) = next_run_id s" "chat_calls (console_error l s) = chat_calls s"
  by (simp_all add: console_error_def)

lemma logStep_fresh [simp]:
  "next_run_id (logStep r n c out h re u s) = next_run_id s"
  "chat_calls (logStep r n c out h re u s) = chat_calls s"
  by (simp_all add: logStep_def)

lemma logFinalResult_fresh [simp]:
  "next_run_id (logFinalResult r v s) = next_run_id s"
  "chat_calls (logFinalResult r v s) = chat_calls s"
  by (simp_all add: logFinalResult_def)

lemma trackUsage_fresh [simp]:
  "next_run_id (trackUsage rnd u s) = next_run_id s"
  "chat_calls (trackUsage rnd u s) = chat_calls s"
  by (simp_all add: trackUsage_def)

lemma issue_chat_fresh [simp]:
  "next_run_id (issue_chat r m ms w s) = next_run_id s"
  "chat_calls (issue_chat r m ms w s)
     = chat_calls s @ [\<lparr> call_run = r, call_model = m, call_messages = ms \<rparr>]"
  by (simp_all add: issue_chat_def)

lemma run_python_fresh:
  assumes "fresh_callback q"
  shows "fresh_calls s (snd (snd (run_python q b (buf, s))))"
proof (induction b arbitrary: buf s)
  case (Return p)
  show ?case by (simp add: fresh_calls_refl)
next
  case (Raise e p)
  show ?case by (simp add: fresh_calls_refl)
next
  case (Print l k)
  then show ?case by simp
next
  case (PrintErr l k)
  have "fresh_calls s (console_error (''[Python Stderr]: '' @ l) s)"
    by (rule fresh_calls_same) simp_all
  moreover have "fresh_calls (console_error (''[Python Stderr]: '' @ l) s)
      (snd (snd (run_python q k (buf, console_error (''[Python Stderr]: '' @ l) s))))"
    by (rule PrintErr.IH)
  ultimately show ?case by (simp add: fresh_calls_trans)
next
  case (Query c k)
  obtain r buf' t where q: "q c (buf, s) = (r, buf', t)" by (cases "q c (buf, s)") auto
  have "fresh_calls s t" using assms q unfolding fresh_callback_def by (metis snd_conv)
  moreover have "fresh_calls t (snd (snd (run_python q (k r) (buf', t))))"
    by (rule Query.IH) simp
  ultimately show ?case using q by (simp add: fresh_calls_trans)
qed

lemma turn_loop_exhausted:
  "\<not> int i < MAX_CALLS config \<Longrightarrow>
     turn_loop host config q model_name run_id i messages pyodide s
       = (Inl (new_Error ''Did not finish the function stack before subagent died''), s)"
  by (subst turn_loop.simps) simp

lemma turn_loop_chat_error:
  assumes "int i < MAX_CALLS config"
    and "h_generate_code host (world s) messages model_name = (Inl err, w)"
  shows "turn_loop host config q model_name run_id i messages pyodide s
          = (Inl err, issue_chat run_id model_name messages w s)"
  using assms by (subst turn_loop.simps) simp

lemma turn_loop_budget:
  assumes "int i < MAX_CALLS config"
    and "h_generate_code host (world s) messages model_name = (Inr reply, w)"
    and "budget_violation config (h_number_text host)
           (getTotalUsage (after_chat host run_id model_name messages reply w s)) = Some err"
  shows "turn_loop host config q model_name run_id i messages pyodide s
         = (Inl err, after_chat host run_id model_name messages reply w s)"
  using assms by (subst turn_loop.simps) (simp add: after_chat_def Let_def)

lemma turn_loop_no_code:
  assumes "int i < MAX_CALLS config"
    and "h_generate_code host (world s) messages model_name = (Inr reply, w)"
    and "budget_violation config (h_number_text host)
           (getTotalUsage (after_chat host run_id model_name messages reply w s)) = None"
    and "\<not> cr_success reply"
  shows "turn_loop host config q model_name run_id i messages pyodide s
         = turn_loop host config q model_name run_id (i + 1)
             (messages @ [cr_message reply, user_message
                ''Error: We could not extract code because you may not have used repl block!''])
             pyodide
             (logStep run_id (i + 1) (cr_code reply) None None
                (js_get (cr_message reply) ''reasoning'') (cr_usage reply)
                (after_chat host run_id model_name messages reply w s))"
  using assms by (subst turn_loop.simps) (simp add: after_chat_def Let_def)

lemma turn_loop_final:
  assumes "int i < MAX_CALLS config"
    and "h_generate_code host (world s) messages model_name = (Inr reply, w)"
    and "budget_violation config (h_number_text host)
           (getTotalUsage (after_chat host run_id model_name messages reply w s)) = None"
    and "cr_success reply"
    and "run_python q (h_runPython host pyodide (cr_code reply))
           ([], after_chat host run_id model_name messages reply w s) = ((thrown, pyodide1), captured, s3)"
    and "h_final_result host pyodide1 \<noteq> JUndefined"
  shows "turn_loop host config q model_name run_id i messages pyodide s
         = (Inr (h_final_result host pyodide1),
            logFinalResult run_id (h_final_result host pyodide1)
              (logStep run_id (i + 1) (cr_code reply) None None
                 (js_get (cr_message reply) ''reasoning'') (cr_usage reply) s3))"
  using assms by (subst turn_loop.simps) (simp add: after_chat_def Let_def)

lemma turn_loop_continue:
  assumes "int i < MAX_CALLS config"
    and "h_generate_code host (world s) messages model_name = (Inr reply, w)"
    and "budget_violation config (h_number_text host)
           (getTotalUsage (after_chat host run_id model_name messages reply w s)) = None"
    and "cr_success reply"
    and "run_python q (h_runPython host pyodide (cr_code reply))
           ([], after_chat host run_id model_name messages reply w s) = ((thrown, pyodide1), captured, s3)"
    and "h_final_result host pyodide1 = JUndefined"
  shows "turn_loop host config q model_name run_id i messages pyodide s
         = turn_loop host config q model_name run_id (i + 1)
             (messages @ [cr_message reply, user_message (''Output: '' @ [CHR 0x0A]
                @ truncateText (TRUNCATE_LEN config) (captured_output thrown captured))])
             pyodide1
             (logStep run_id (i + 1) (cr_code reply)
                (Some (truncateText (TRUNCATE_LEN config) (captured_output thrown captured)))
                (Some (sublist ''Error'' (captured_output thrown captured)))
                (js_get (cr_message reply) ''reasoning'') (cr_usage reply) s3)"
  using assms by (subst turn_loop.simps) (simp add: after_chat_def captured_output_def Let_def)

lemma loop_calls_refl: "loop_calls run_id n s s"
  by (simp add: loop_calls_def)

lemma loop_calls_same:
  "next_run_id t = next_run_id s \<Longrightarrow> chat_calls t = chat_calls s \<Longrightarrow>
     loop_calls run_id n t u \<Longrightarrow> loop_calls run_id n s u"
  by (simp add: loop_calls_def)

lemma loop_calls_fresh:
  assumes "run_id < next_run_id s" and "fresh_calls s t"
  shows "loop_calls run_id n s t"
proof -
  from assms(2) obtain a where a: "next_run_id s \<le> next_run_id t" "chat_calls t = chat_calls s @ a"
    "\<forall>c \<in> set a. next_run_id s \<le> call_run c"
    unfolding fresh_calls_def by blast
  have "filter (\<lambda>c. call_run c = run_id) a = []"
    using a(3) assms(1) by (auto simp: filter_empty_conv)
  then show ?thesis unfolding loop_calls_def using a by auto
qed

lemma loop_calls_trans:
  assumes "loop_calls run_id m s t" and "loop_calls run_id n t u"
  shows "loop_calls run_id (m + n) s u"
proof -
  from assms(1) obtain a where a: "next_run_id s \<le> next_run_id t" "chat_calls t = chat_calls s @ a"
    "\<forall>c \<in> set a. call_run c = run_id \<or> next_run_id s \<le> call_run c"
    "length (filter (\<lambda>c. call_run c = run_id) a) \<le> m"
    unfolding loop_calls_def by blast
  from assms(2) obtain b where b: "next_run_id t \<le> next_run_id u" "chat_calls u = chat_calls t @ b"
    "\<forall>c \<in> set b. call_run c = run_id \<or> next_run_id t \<le> call_run c"
    "length (filter (\<lambda>c. call_run c = run_id) b) \<le> n"
    unfolding loop_calls_def by blast
  have "chat_calls u = chat_calls s @ (a @ b)" using a(2) b(2) by simp
  moreover have "\<forall>c \<in> set (a @ b). call_run c = run_id \<or> next_run_id s \<le> call_run c"
    using a(1,3) b(3) by (auto intro: order_trans)
  moreover have "length (filter (\<lambda>c. call_run c = run_id) (a @ b)) \<le> m + n"
    using a(4) b(4) by simp
  moreover have "next_run_id s \<le> next_run_id u" using a(1) b(1) by simp
  ultimately show ?thesis unfolding loop_calls_def by blast
qed

lemma loop_calls_issue:
  "loop_calls run_id 1 s (issue_chat run_id model_name messages w s)"
  unfolding loop_calls_def by (rule conjI, simp, rule exI [where x = "[\<lparr> call_run = run_id, call_model = model_name, call_messages = messages \<rparr>]"]) simp

lemma loop_calls_after_chat:
  "loop_calls run_id 1 s (after_chat host run_id model_name messages reply w s)"
  using loop_calls_issue [of run_id s model_name messages w]
  by (simp add: loop_calls_def after_chat_def)

lemma after_chat_next [simp]:
  "next_run_id (after_chat host run_id model_name messages reply w s) = next_run_id s"
  by (simp add: after_chat_def)

lemma fresh_calls_next: "fresh_calls s t \<Longrightarrow> next_run_id s \<le> next_run_id t"
  by (simp add: fresh_calls_def)

lemma turn_loop_calls:
  assumes "fresh_callback q" and "run_id < next_run_id s"
  shows "loop_calls run_id (nat (MAX_CALLS config - int i)) s
           (snd (turn_loop host config q model_name run_id i messages pyodide s))"
  using assms(2)
proof (induction "nat (MAX_CALLS config - int i)" arbitrary: i messages pyodide s)
  case 0
  then have "\<not> int i < MAX_CALLS config" by simp
  then show ?case by (simp add: turn_loop_exhausted loop_calls_refl)
next
  case (Suc k)
  then have lt: "int i < MAX_CALLS config" and k: "k = nat (MAX_CALLS config - int (i + 1))"
    by simp_all
  have step: "Suc k = 1 + k" by simp
  obtain r w where gen: "h_generate_code host (world s) messages model_name = (r, w)"
    by (cases "h_generate_code host (world s) messages model_name") auto
  show ?case
  proof (cases r)
    case (Inl err)
    have "loop_calls run_id 1 s (issue_chat run_id model_name messages w s)"
      by (rule loop_calls_issue)
    then have "loop_calls run_id (1 + k) s (issue_chat run_id model_name messages w s)"
      using loop_calls_trans [OF _ loop_calls_refl [of run_id k]] by blast
    then show ?thesis
      using turn_loop_chat_error [OF lt gen [unfolded Inl]] Suc(2) [symmetric] by simp
  next
    case (Inr reply)
    let ?s2 = "after_chat host run_id model_name messages reply w s"
    note gen' = gen [unfolded Inr]
    have first: "loop_calls run_id 1 s ?s2" by (rule loop_calls_after_chat)
    have rid2: "run_id < next_run_id ?s2" using Suc.prems by simp
    have rest: "loop_calls run_id k ?s2 (snd (turn_loop host config q model_name run_id i messages pyodide s))"
    proof (cases "budget_violation config (h_number_text host) (getTotalUsage ?s2)")
      case (Some err)
      show ?thesis using turn_loop_budget [OF lt gen' Some] by (simp add: loop_calls_refl)
    next
      case None
      show ?thesis
      proof (cases "cr_success reply")
        case False
        let ?s3 = "logStep run_id (i + 1) (cr_code reply) None None
                (js_get (cr_message reply) ''reasoning'') (cr_usage reply) ?s2"
        have "run_id < next_run_id ?s3" using rid2 by simp
        from Suc.hyps(1) [OF k this]
        have "loop_calls run_id k ?s3 (snd (turn_loop host config q model_name run_id (i + 1)
             (messages @ [cr_message reply, user_message
                ''Error: We could not extract code because you may not have used repl block!''])
             pyodide ?s3))" by (simp add: k)
        then show ?thesis
          using turn_loop_no_code [OF lt gen' None False]
          by (auto intro: loop_calls_same [rotated 2])
      next
        case True
        obtain thrown p1 captured s3 where run:
          "run_python q (h_runPython host pyodide (cr_code reply)) ([], ?s2) = ((thrown, p1), captured, s3)"
          by (metis prod.exhaust)
        have fr: "fresh_calls ?s2 s3"
          using run_python_fresh [OF assms(1), of ?s2 "h_runPython host pyodide (cr_code reply)" "[]"] run
          by simp
        have rid3: "run_id < next_run_id s3" using fresh_calls_next [OF fr] rid2 by simp
        show ?thesis
        proof (cases "h_final_result host p1 = JUndefined")
          case False
          have "fresh_calls ?s2 (logFinalResult run_id (h_final_result host p1)
              (logStep run_id (i + 1) (cr_code reply) None None
                 (js_get (cr_message reply) ''reasoning'') (cr_usage reply) s3))"
            using fr by (simp add: fresh_calls_def)
          then show ?thesis
            using turn_loop_final [OF lt gen' None True run False] loop_calls_fresh [OF rid2]
            by simp
        next
          case undef: True
          let ?out = "captured_output thrown captured"
          let ?s4 = "logStep run_id (i + 1) (cr_code reply)
                (Some (truncateText (TRUNCATE_LEN config) ?out))
                (Some (sublist ''Error'' ?out))
                (js_get (cr_message reply) ''reasoning'') (cr_usage reply) s3"
          have "run_id < next_run_id ?s4" using rid3 by simp
          from Suc.hyps(1) [OF k this]
          have "loop_calls run_id k ?s4 (snd (turn_loop host config q model_name run_id (i + 1)
             (messages @ [cr_message reply, user_message (''Output: '' @ [CHR 0x0A]
                @ truncateText (TRUNCATE_LEN config) ?out)])
             p1 ?s4))" by (simp add: k)
          then have "loop_calls run_id k s3 (snd (turn_loop host config q model_name run_id (i + 1)
             (messages @ [cr_message reply, user_message (''Output: '' @ [CHR 0x0A]
                @ truncateText (TRUNCATE_LEN config) ?out)])
             p1 ?s4))"
            by (rule loop_calls_same [rotated 2]) simp_all
          with loop_calls_fresh [OF rid2 fr, of 0]
          have "loop_calls run_id (0 + k) ?s2 (snd (turn_loop host config q model_name run_id (i + 1)
             (messages @ [cr_message reply, user_message (''Output: '' @ [CHR 0x0A]
                @ truncateText (TRUNCATE_LEN config) ?out)])
             p1 ?s4))"
            by (rule loop_calls_trans)
          then show ?thesis
            using turn_loop_continue [OF lt gen' None True run undef] by simp
        qed
      qed
    qed
    from loop_calls_trans [OF first rest] show ?thesis
      using Suc(2) [symmetric] by simp
  qed
qed

lemma emitConfigWarnings_fresh [simp]:
  "next_run_id (emitConfigWarnings config s) = next_run_id s"
  "chat_calls (emitConfigWarnings config s) = chat_calls s"
  by (simp_all add: emitConfigWarnings_def)

lemma subagent_unfold:
  "subagent host config context_text d parent_run_id runtimeModels s =
     (case resolve_models host config runtimeModels
             (snd (new_Logger d (MAX_CALLS config) parent_run_id (emitConfigWarnings config s))) of
        (Inl err, s2) \<Rightarrow> (Inl err, s2)
      | (Inr models, s2) \<Rightarrow>
          agent_body host config (llm_query_of host config d (next_run_id s) models) context_text
            (if d = 0 then primaryAgent models else subAgent models) (next_run_id s) s2)"
proof -
  let ?s1 = "snd (new_Logger d (MAX_CALLS config) parent_run_id (emitConfigWarnings config s))"
  obtain r s2 where rm: "resolve_models host config runtimeModels ?s1 = (r, s2)"
    by (cases "resolve_models host config runtimeModels ?s1") auto
  have start: "new_Logger d (MAX_CALLS config) parent_run_id (emitConfigWarnings config s)
      = (next_run_id s, ?s1)"
    by (simp add: new_Logger_def)
  have "subagent host config context_text d parent_run_id runtimeModels s =
     (case (r, s2) of
        (Inl err, s2) \<Rightarrow> (Inl err, s2)
      | (Inr models, s2) \<Rightarrow>
          agent_body host config (llm_query_of host config d (next_run_id s) models) context_text
            (if d = 0 then primaryAgent models else subAgent models) (next_run_id s) s2)"
    by (subst subagent.simps, subst start, simp only: prod.case, fold resolve_models_def,
        subst rm, cases r)
       (simp_all add: agent_body_def llm_query_of_def Let_def)
  then show ?thesis by (simp only: rm)
qed

lemma fold_console_error_fresh [simp]:
  "next_run_id (fold (\<lambda>l. console_error (f l)) ls s) = next_run_id s"
  "chat_calls (fold (\<lambda>l. console_error (f l)) ls s) = chat_calls s"
  by (induction ls arbitrary: s) simp_all

lemma resolveRuntimeModelSelection_fresh [simp]:
  "next_run_id (snd (resolveRuntimeModelSelection host config s)) = next_run_id s"
  "chat_calls (snd (resolveRuntimeModelSelection host config s)) = chat_calls s"
  by (simp_all add: resolveRuntimeModelSelection_def Let_def split: sum.splits prod.splits)

lemma resolve_models_fresh [simp]:
  "next_run_id (snd (resolve_models host config rm s)) = next_run_id s"
  "chat_calls (snd (resolve_models host config rm s)) = chat_calls s"
  by (simp_all add: resolve_models_def split: option.splits)

lemma new_Logger_fresh [simp]:
  "next_run_id (snd (new_Logger d m parent s)) = Suc (next_run_id s)"
  "chat_calls (snd (new_Logger d m parent s)) = chat_calls s"
  by (simp_all add: new_Logger_def)

lemma run_result_cases:
  obtains thrown p buf t where "(x :: ('a \<times> 'b) \<times> 'c \<times> 'd) = ((thrown, p), buf, t)"
  by (cases x) auto

lemma agent_body_calls:
  assumes "fresh_callback q" and "run_id < next_run_id s"
  shows "loop_calls run_id (nat (MAX_CALLS config)) s
           (snd (agent_body host config q context_text model_name run_id s))"
proof -
  obtain t1 p1 c1 s3 where r1: "run_python q
      (h_runPython host (h_loadPyodide host) (setup_code (h_JSON_quote host) context_text)) ([], s)
      = ((t1, p1), c1, s3)"
    by (rule run_result_cases)
  have f1: "fresh_calls s s3"
    using run_python_fresh [OF assms(1), of s "h_runPython host (h_loadPyodide host) (setup_code (h_JSON_quote host) context_text)" "[]"]
    by (simp add: r1)
  show ?thesis
  proof (cases t1)
    case (Some err)
    then show ?thesis using r1 loop_calls_fresh [OF assms(2) f1] by (simp add: agent_body_def)
  next
    case None
    obtain t2 p2 c2 s4 where r2: "run_python q (h_runPython host p1 initial_code) ([], s3)
        = ((t2, p2), c2, s4)"
      by (rule run_result_cases)
    have f2: "fresh_calls s3 s4"
      using run_python_fresh [OF assms(1), of s3 "h_runPython host p1 initial_code" "[]"]
      by (simp add: r2)
    have f: "fresh_calls s s4" using f1 f2 by (rule fresh_calls_trans)
    show ?thesis
    proof (cases t2)
      case (Some err)
      then show ?thesis using r1 r2 None loop_calls_fresh [OF assms(2) f] by (simp add: agent_body_def)
    next
      case n2: None
      let ?s5 = "logStep run_id 0 initial_code (Some (js_trim c2)) (Some False) JUndefined noUsage s4"
      have "run_id < next_run_id ?s5" using fresh_calls_next [OF f] assms(2) by simp
      from turn_loop_calls [OF assms(1) this, of config 0 host model_name "[first_message config c2]" p2]
      have "loop_calls run_id (nat (MAX_CALLS config)) s4
              (snd (turn_loop host config q model_name run_id 0 [first_message config c2] p2 ?s5))"
        by (auto intro: loop_calls_same [rotated 2])
      with loop_calls_fresh [OF assms(2) f, of 0]
      have "loop_calls run_id (0 + nat (MAX_CALLS config)) s
              (snd (turn_loop host config q model_name run_id 0 [first_message config c2] p2 ?s5))"
        by (rule loop_calls_trans)
      then show ?thesis using r1 r2 None n2 by (simp add: agent_body_def)
    qed
  qed
qed

lemma llm_query_of_fresh:
  assumes "int d < MAX_DEPTH config \<Longrightarrow>
     (\<And>query t. fresh_calls t (snd (subagent host config query (d + 1) (Some run_id) (Some models) t)))"
  shows "fresh_callback (llm_query_of host config d run_id models)"
  unfolding fresh_callback_def
proof (intro allI)
  fix query buf t
  show "fresh_calls t (snd (snd (llm_query_of host config d run_id models query (buf, t))))"
  proof (cases "int d < MAX_DEPTH config")
    case True
    from assms [OF True, of t query] show ?thesis
      using True by (auto simp add: llm_query_of_def split: prod.splits)
  next
    case False
    then show ?thesis by (simp add: llm_query_of_def fresh_calls_refl)
  qed
qed

lemma agent_calls_fresh: "agent_calls config s s' \<Longrightarrow> fresh_calls s s'"
  by (auto simp: agent_calls_def fresh_calls_def)

lemma loop_calls_agent:
  assumes "loop_calls (next_run_id s) (nat (MAX_CALLS config)) s2 s'"
    and "next_run_id s2 = Suc (next_run_id s)" and "chat_calls s2 = chat_calls s"
  shows "agent_calls config s s'"
  using assms unfolding loop_calls_def agent_calls_def by fastforce

lemma subagent_calls:
  "agent_calls config s (snd (subagent host config context_text d parent_run_id runtimeModels s))"
proof (induction "nat (MAX_DEPTH config - int d)" arbitrary: d context_text parent_run_id runtimeModels s)
  case 0
  let ?s1 = "snd (new_Logger d (MAX_CALLS config) parent_run_id (emitConfigWarnings config s))"
  obtain r s2 where rm: "resolve_models host config runtimeModels ?s1 = (r, s2)"
    by (cases "resolve_models host config runtimeModels ?s1") auto
  have s2: "next_run_id s2 = Suc (next_run_id s)" "chat_calls s2 = chat_calls s"
    using resolve_models_fresh [of host config runtimeModels ?s1] rm by simp_all
  show ?case
  proof (cases r)
    case (Inl err)
    then show ?thesis using rm s2 by (simp add: subagent_unfold agent_calls_def)
  next
    case (Inr models)
    have "fresh_callback (llm_query_of host config d (next_run_id s) models)"
      by (rule llm_query_of_fresh) (use 0 in simp)
    from agent_body_calls [OF this, where s = s2 and config = config and host = host
        and context_text = context_text]
    have "loop_calls (next_run_id s) (nat (MAX_CALLS config)) s2
        (snd (agent_body host config (llm_query_of host config d (next_run_id s) models) context_text
            (if d = 0 then primaryAgent models else subAgent models) (next_run_id s) s2))"
      using s2 by simp
    from loop_calls_agent [OF this s2] show ?thesis
      using rm Inr by (simp add: subagent_unfold)
  qed
next
  case (Suc k)
  let ?s1 = "snd (new_Logger d (MAX_CALLS config) parent_run_id (emitConfigWarnings config s))"
  obtain r s2 where rm: "resolve_models host config runtimeModels ?s1 = (r, s2)"
    by (cases "resolve_models host config runtimeModels ?s1") auto
  have s2: "next_run_id s2 = Suc (next_run_id s)" "chat_calls s2 = chat_calls s"
    using resolve_models_fresh [of host config runtimeModels ?s1] rm by simp_all
  have k: "k = nat (MAX_DEPTH config - int (d + 1))" using Suc(2) by simp
  show ?case
  proof (cases r)
    case (Inl err)
    then show ?thesis using rm s2 by (simp add: subagent_unfold agent_calls_def)
  next
    case (Inr models)
    have "fresh_callback (llm_query_of host config d (next_run_id s) models)"
      by (rule llm_query_of_fresh) (rule agent_calls_fresh, rule Suc(1) [OF k])
    from agent_body_calls [OF this, where s = s2 and config = config and host = host
        and context_text = context_text]
    have "loop_calls (next_run_id s) (nat (MAX_CALLS config)) s2
        (snd (agent_body host config (llm_query_of host config d (next_run_id s) models) context_text
            (if d = 0 then primaryAgent models else subAgent models) (next_run_id s) s2))"
      using s2 by simp
    from loop_calls_agent [OF this s2] show ?thesis
      using rm Inr by (simp add: subagent_unfold)
  qed
qed

lemma quiet_trans: "quiet_steps R \<Longrightarrow> R s t \<Longrightarrow> R t u \<Longrightarrow> R s u"
  unfolding quiet_steps_def by blast

lemma run_python_keeps:
  assumes "quiet_steps R" and "callback_keeps R q"
  shows "R s (snd (snd (run_python q b (buf, s))))"
proof (induction b arbitrary: buf s)
  case (Return p)
  show ?case using assms(1) by (simp add: quiet_steps_def)
next
  case (Raise e p)
  show ?case using assms(1) by (simp add: quiet_steps_def)
next
  case (Print l k)
  then show ?case by simp
next
  case (PrintErr l k)
  have "R s (console_error (''[Python Stderr]: '' @ l) s)"
    using assms(1) by (simp add: quiet_steps_def)
  moreover have "R (console_error (''[Python Stderr]: '' @ l) s)
      (snd (snd (run_python q k (buf, console_error (''[Python Stderr]: '' @ l) s))))"
    by (rule PrintErr.IH)
  ultimately have "R s (snd (snd (run_python q k (buf, console_error (''[Python Stderr]: '' @ l) s))))"
    by (rule quiet_trans [OF assms(1)])
  then show ?case by simp
next
  case (Query c k)
  obtain r buf' t where q: "q c (buf, s) = (r, buf', t)" by (cases "q c (buf, s)") auto
  have "R s (snd (snd (q c (buf, s))))" using assms(2) unfolding callback_keeps_def by blast
  then have "R s t" by (simp add: q)
  moreover have "R t (snd (snd (run_python q (k r) (buf', t))))"
    by (rule Query.IH) simp
  ultimately have "R s (snd (snd (run_python q (k r) (buf', t))))"
    by (rule quiet_trans [OF assms(1)])
  then show ?case using q by simp
qed

lemma turn_loop_keeps:
  assumes "quiet_steps R" and "callback_keeps R q"
    and chat: "\<And>messages w s. R s (issue_chat run_id model_name messages w s)"
  shows "R s (snd (turn_loop host config q model_name run_id i messages pyodide s))"
proof (induction "nat (MAX_CALLS config - int i)" arbitrary: i messages pyodide s)
  case 0
  then have "\<not> int i < MAX_CALLS config" by simp
  then show ?case using assms(1) by (simp add: turn_loop_exhausted quiet_steps_def)
next
  case (Suc k)
  then have lt: "int i < MAX_CALLS config" and k: "k = nat (MAX_CALLS config - int (i + 1))"
    by simp_all
  note tr = quiet_trans [OF assms(1)]
  obtain r w where gen: "h_generate_code host (world s) messages model_name = (r, w)"
    by (cases "h_generate_code host (world s) messages model_name") auto
  show ?case
  proof (cases r)
    case (Inl err)
    show ?thesis using turn_loop_chat_error [OF lt gen [unfolded Inl]] chat by simp
  next
    case (Inr reply)
    let ?s2 = "after_chat host run_id model_name messages reply w s"
    note gen' = gen [unfolded Inr]
    have "R (issue_chat run_id model_name messages w s) ?s2"
      using assms(1) by (simp add: after_chat_def quiet_steps_def)
    with chat have first: "R s ?s2" by (rule tr)
    have rest: "R ?s2 (snd (turn_loop host config q model_name run_id i messages pyodide s))"
    proof (cases "budget_violation config (h_number_text host) (getTotalUsage ?s2)")
      case (Some err)
      show ?thesis using turn_loop_budget [OF lt gen' Some] assms(1) by (simp add: quiet_steps_def)
    next
      case None
      show ?thesis
      proof (cases "cr_success reply")
        case False
        let ?s3 = "logStep run_id (i + 1) (cr_code reply) None None
                (js_get (cr_message reply) ''reasoning'') (cr_usage reply) ?s2"
        have "R ?s2 ?s3" using assms(1) by (simp add: quiet_steps_def)
        moreover have "R ?s3 (snd (turn_loop host config q model_name run_id (i + 1)
             (messages @ [cr_message reply, user_message
                ''Error: We could not extract code because you may not have used repl block!''])
             pyodide ?s3))"
          by (rule Suc.hyps(1) [OF k])
        ultimately have "R ?s2 (snd (turn_loop host config q model_name run_id (i + 1)
             (messages @ [cr_message reply, user_message
                ''Error: We could not extract code because you may not have used repl block!''])
             pyodide ?s3))"
          by (rule tr)
        then show ?thesis
          using turn_loop_no_code [OF lt gen' None False] by simp
      next
        case True
        obtain thrown p1 captured s3 where run:
          "run_python q (h_runPython host pyodide (cr_code reply)) ([], ?s2) = ((thrown, p1), captured, s3)"
          by (rule run_result_cases)
        have fr: "R ?s2 s3"
          using run_python_keeps [OF assms(1,2), of ?s2 "h_runPython host pyodide (cr_code reply)" "[]"] run
          by simp
        show ?thesis
        proof (cases "h_final_result host p1 = JUndefined")
          case False
          let ?s4 = "logStep run_id (i + 1) (cr_code reply) None None
                 (js_get (cr_message reply) ''reasoning'') (cr_usage reply) s3"
          have a: "R s3 ?s4" and b: "R ?s4 (logFinalResult run_id (h_final_result host p1) ?s4)"
            using assms(1) by (simp_all add: quiet_steps_def)
          have "R ?s2 (logFinalResult run_id (h_final_result host p1) ?s4)"
            by (rule tr [OF fr tr [OF a b]])
          then show ?thesis
            using turn_loop_final [OF lt gen' None True run False] by simp
        next
          case undef: True
          let ?out = "captured_output thrown captured"
          let ?s4 = "logStep run_id (i + 1) (cr_code reply)
                (Some (truncateText (TRUNCATE_LEN config) ?out))
                (Some (sublist ''Error'' ?out))
                (js_get (cr_message reply) ''reasoning'') (cr_usage reply) s3"
          have a: "R s3 ?s4" using assms(1) by (simp add: quiet_steps_def)
          have b: "R ?s4 (snd (turn_loop host config q model_name run_id (i + 1)
             (messages @ [cr_message reply, user_message (''Output: '' @ [CHR 0x0A]
                @ truncateText (TRUNCATE_LEN config) ?out)])
             p1 ?s4))"
            by (rule Suc.hyps(1) [OF k])
          have "R ?s2 (snd (turn_loop host config q model_name run_id (i + 1)
             (messages @ [cr_message reply, user_message (''Output: '' @ [CHR 0x0A]
                @ truncateText (TRUNCATE_LEN config) ?out)])
             p1 ?s4))"
            by (rule tr [OF fr tr [OF a b]])
          then show ?thesis
            using turn_loop_continue [OF lt gen' None True run undef] by simp
        qed
      qed
    qed
    from first rest show ?thesis by (rule tr)
  qed
qed

lemma agent_body_keeps:
  assumes "quiet_steps R" and "callback_keeps R q"
    and chat: "\<And>messages w s. R s (issue_chat run_id model_name messages w s)"
  shows "R s (snd (agent_body host config q context_text model_name run_id s))"
proof -
  note tr = quiet_trans [OF assms(1)]
  obtain t1 p1 c1 s3 where r1: "run_python q
      (h_runPython host (h_loadPyodide host) (setup_code (h_JSON_quote host) context_text)) ([], s)
      = ((t1, p1), c1, s3)"
    by (rule run_result_cases)
  have f1: "R s s3"
    using run_python_keeps [OF assms(1,2), of s "h_runPython host (h_loadPyodide host) (setup_code (h_JSON_quote host) context_text)" "[]"]
    by (simp add: r1)
  show ?thesis
  proof (cases t1)
    case (Some err)
    then show ?thesis using r1 f1 by (simp add: agent_body_def)
  next
    case None
    obtain t2 p2 c2 s4 where r2: "run_python q (h_runPython host p1 initial_code) ([], s3)
        = ((t2, p2), c2, s4)"
      by (rule run_result_cases)
    have f2: "R s3 s4"
      using run_python_keeps [OF assms(1,2), of s3 "h_runPython host p1 initial_code" "[]"]
      by (simp add: r2)
    have f: "R s s4" using f1 f2 by (rule tr)
    show ?thesis
    proof (cases t2)
      case (Some err)
      then show ?thesis using r1 r2 None f by (simp add: agent_body_def)
    next
      case n2: None
      let ?s5 = "logStep run_id 0 initial_code (Some (js_trim c2)) (Some False) JUndefined noUsage s4"
      have a: "R s4 ?s5" using assms(1) by (simp add: quiet_steps_def)
      have b: "R ?s5 (snd (turn_loop host config q model_name run_id 0 [first_message config c2] p2 ?s5))"
        by (rule turn_loop_keeps [OF assms])
      have "R s (snd (turn_loop host config q model_name run_id 0 [first_message config c2] p2 ?s5))"
        by (rule tr [OF f tr [OF a b]])
      then show ?thesis using r1 r2 None n2 by (simp add: agent_body_def)
    qed
  qed
qed

lemma same_model_refl: "same_model m s s"
  by (simp add: same_model_def)

lemma same_model_trans:
  assumes "same_model m s t" and "same_model m t u"
  shows "same_model m s u"
proof -
  from assms(1) obtain a where a: "prefix (log_events s) (log_events t)" "chat_calls t = chat_calls s @ a"
    "\<forall>c \<in> set a. call_model c = m"
    unfolding same_model_def by blast
  from assms(2) obtain b where b: "prefix (log_events t) (log_events u)" "chat_calls u = chat_calls t @ b"
    "\<forall>c \<in> set b. call_model c = m"
    unfolding same_model_def by blast
  have "chat_calls u = chat_calls s @ (a @ b)" using a(2) b(2) by simp
  moreover have "\<forall>c \<in> set (a @ b). call_model c = m" using a(3) b(3) by auto
  moreover have "prefix (log_events s) (log_events u)" using a(1) b(1) by (rule prefix_order.trans)
  ultimately show ?thesis unfolding same_model_def by blast
qed

lemma same_model_quiet: "quiet_steps (same_model m)"
  unfolding quiet_steps_def
proof (intro conjI allI impI)
  fix s t u :: "'a state"
  assume "same_model m s t \<and> same_model m t u"
  then show "same_model m s u" using same_model_trans by blast
qed (simp_all add: same_model_def console_error_def logStep_def logFinalResult_def trackUsage_def)

lemma same_model_issue: "same_model m s (issue_chat run_id m messages w s)"
  by (simp add: same_model_def issue_chat_def)

lemma same_model_start:
  "log_events (snd (new_Logger d n parent (emitConfigWarnings config s)))
     = log_events s @ [Run_start (next_run_id s) parent d]"
  "chat_calls (snd (new_Logger d n parent (emitConfigWarnings config s))) = chat_calls s"
  by (simp_all add: new_Logger_def emitConfigWarnings_def console_error_def)

lemma subagent_same_model:
  assumes "0 < d"
  shows "same_model (subAgent models)
           (snd (new_Logger d (MAX_CALLS config) parent_run_id (emitConfigWarnings config s)))
           (snd (subagent host config context_text d parent_run_id (Some models) s))"
  using assms
proof (induction "nat (MAX_DEPTH config - int d)" arbitrary: d context_text parent_run_id s)
  case 0
  have "callback_keeps (same_model (subAgent models)) (llm_query_of host config d (next_run_id s) models)"
    using 0 by (simp add: callback_keeps_def llm_query_of_def same_model_refl)
  from agent_body_keeps [OF same_model_quiet this same_model_issue]
  show ?case using 0 by (simp add: subagent_unfold resolve_models_def)
next
  case (Suc k)
  have k: "k = nat (MAX_DEPTH config - int (d + 1))" using Suc(2) by simp
  have child: "same_model (subAgent models) t
      (snd (subagent host config query (d + 1) (Some (next_run_id s)) (Some models) t))" for query t
  proof -
    let ?t1 = "snd (new_Logger (d + 1) (MAX_CALLS config) (Some (next_run_id s)) (emitConfigWarnings config t))"
    have "same_model (subAgent models) t ?t1"
      by (simp add: same_model_def same_model_start)
    moreover have "same_model (subAgent models) ?t1
        (snd (subagent host config query (d + 1) (Some (next_run_id s)) (Some models) t))"
      by (rule Suc(1) [OF k]) simp
    ultimately show ?thesis by (rule same_model_trans)
  qed
  have "callback_keeps (same_model (subAgent models)) (llm_query_of host config d (next_run_id s) models)"
    unfolding callback_keeps_def
  proof (intro allI)
    fix query buf t
    show "same_model (subAgent models) t
        (snd (snd (llm_query_of host config d (next_run_id s) models query (buf, t))))"
      using child [of t query]
      by (auto simp: llm_query_of_def same_model_refl split: prod.splits)
  qed
  from agent_body_keeps [OF same_model_quiet this same_model_issue]
  show ?case using Suc(3) by (simp add: subagent_unfold resolve_models_def)
qed

text \<open>
  Claim C4. The \<open>llm_query\<close> installed in the sandbox of the agent \<open>run_id\<close> at depth \<open>d\<close>
  with the resolved models \<open>models\<close> is \<open>llm_query_of host config d run_id models\<close> (last
  conjunct: this is the closure that \<open>subagent\<close> hands to its sandbox, with its own depth,
  run identifier and models). At a depth of \<open>MAX_DEPTH\<close> or more a call appends the error
  line to the stdout buffer of the caller, throws the error with the same text, and leaves
  the process-wide state as it was: no agent is created, nothing is logged, no request is
  made. Below \<open>MAX_DEPTH\<close> it is the call of \<open>subagent\<close> at depth \<open>d + 1\<close> with
  \<open>parent_run_id = run_id\<close> and the same models, on the same process-wide state (usage
  accumulator and log): the first event the call logs is the \<open>run_start\<close> of a new run with
  that depth and parent, and every chat request made during the call goes to the sub model
  of the same pair.
\<close>

theorem llm_query_depth:
  "(MAX_DEPTH config \<le> int d \<longrightarrow>
      llm_query_of host config d run_id models query (stdoutBuffer, s)
        = (Inl (new_Error MAXIMUM_DEPTH_REACHED),
           stdoutBuffer @ [CHR 0x0A] @ ''Error: '' @ MAXIMUM_DEPTH_REACHED @ [CHR 0x0A], s))
   \<and> (int d < MAX_DEPTH config \<longrightarrow>
        (case subagent host config query (d + 1) (Some run_id) (Some models) s of
           (result, s') \<Rightarrow>
             llm_query_of host config d run_id models query (stdoutBuffer, s) = (result, stdoutBuffer, s')
             \<and> (\<exists>events. log_events s'
                    = log_events s @ Run_start (next_run_id s) (Some run_id) (d + 1) # events)
             \<and> (\<exists>added. chat_calls s' = chat_calls s @ added
                    \<and> (\<forall>c \<in> set added. call_model c = subAgent models))))
   \<and> subagent host config context_text d parent_run_id runtimeModels s =
        (case resolve_models host config runtimeModels
                (snd (new_Logger d (MAX_CALLS config) parent_run_id (emitConfigWarnings config s))) of
           (Inl err, s2) \<Rightarrow> (Inl err, s2)
         | (Inr resolved, s2) \<Rightarrow>
             agent_body host config (llm_query_of host config d (next_run_id s) resolved) context_text
               (if d = 0 then primaryAgent resolved else subAgent resolved) (next_run_id s) s2)"
proof (intro conjI impI)
  assume "MAX_DEPTH config \<le> int d"
  then show "llm_query_of host config d run_id models query (stdoutBuffer, s)
        = (Inl (new_Error MAXIMUM_DEPTH_REACHED),
           stdoutBuffer @ [CHR 0x0A] @ ''Error: '' @ MAXIMUM_DEPTH_REACHED @ [CHR 0x0A], s)"
    by (simp add: llm_query_of_def MAXIMUM_DEPTH_REACHED_def)
next
  assume lt: "int d < MAX_DEPTH config"
  obtain result s' where sub: "subagent host config query (d + 1) (Some run_id) (Some models) s = (result, s')"
    by (cases "subagent host config query (d + 1) (Some run_id) (Some models) s") auto
  let ?s1 = "snd (new_Logger (d + 1) (MAX_CALLS config) (Some run_id) (emitConfigWarnings config s))"
  have "same_model (subAgent models) ?s1 s'"
    using subagent_same_model [of "d + 1" models config "Some run_id" s host query] sub by simp
  then obtain added where ev: "prefix (log_events ?s1) (log_events s')"
    and ch: "chat_calls s' = chat_calls ?s1 @ added" "\<forall>c \<in> set added. call_model c = subAgent models"
    unfolding same_model_def by blast
  from ev obtain events where "log_events s' = log_events ?s1 @ events"
    by (auto simp: prefix_def)
  then have "log_events s' = log_events s @ Run_start (next_run_id s) (Some run_id) (d + 1) # events"
    by (simp add: same_model_start)
  moreover have "chat_calls s' = chat_calls s @ added" using ch(1) by (simp add: same_model_start)
  moreover have "llm_query_of host config d run_id models query (stdoutBuffer, s) = (result, stdoutBuffer, s')"
    using lt sub by (simp add: llm_query_of_def)
  ultimately show "case subagent host config query (d + 1) (Some run_id) (Some models) s of
           (result, s') \<Rightarrow>
             llm_query_of host config d run_id models query (stdoutBuffer, s) = (result, stdoutBuffer, s')
             \<and> (\<exists>events. log_events s'
                    = log_events s @ Run_start (next_run_id s) (Some run_id) (d + 1) # events)
             \<and> (\<exists>added. chat_calls s' = chat_calls s @ added
                    \<and> (\<forall>c \<in> set added. call_model c = subAgent models))"
    unfolding sub prod.case using ch(2) by blast
next
  show "subagent host config context_text d parent_run_id runtimeModels s =
        (case resolve_models host config runtimeModels
                (snd (new_Logger d (MAX_CALLS config) parent_run_id (emitConfigWarnings config s))) of
           (Inl err, s2) \<Rightarrow> (Inl err, s2)
         | (Inr resolved, s2) \<Rightarrow>
             agent_body host config (llm_query_of host config d (next_run_id s) resolved) context_text
               (if d = 0 then primaryAgent resolved else subAgent resolved) (next_run_id s) s2)"
    by (rule subagent_unfold)
qed

lemmas example_defs = example_host_def example_config_def example_state_def example_models_def
  reply_with_def

lemma show_int_150: "show_int 150 = ''150''" "show_int 100 = ''100''"
  by (simp_all add: show_int_def show_nat.simps digit_char_def)

text \<open>
  Claim C1, amended. In every turn of the loop, once the reply of the chat request has come
  and its usage has been added to the accumulator: if \<open>MAX_PROMPT_TOKENS\<close> is set and the
  accumulated prompt tokens exceed it, the loop ends with the error \<open>Prompt token budget
  exceeded: N used, limit is M\<close>; if the prompt budget is not exceeded, \<open>MAX_COMPLETION_TOKENS\<close>
  is set and the accumulated completion tokens exceed it, the loop ends with
  \<open>Completion token budget exceeded: N used, limit is M\<close>. In both cases the state with
  which the error leaves the loop has the usage of the overflowing call counted in. \<open>N\<close>
  and \<open>M\<close> are the accumulated count and the limit as a template literal prints a number:
  the decimal digits of an integer of magnitude up to \<open>2^53 - 1\<close>, and the shortest decimal
  that reads back as the same double beyond that.
  (\<open>usage.ts\<close> is not among the sources; \<open>trackUsage\<close> adds field-wise, as the
  specification has it.)
\<close>

theorem turn_loop_budget_check:
  assumes "int i < MAX_CALLS config"
    and "h_generate_code host (world s) messages model_name = (Inr reply, w)"
  shows "(let s2 = after_chat host run_id model_name messages reply w s;
              render = js_number_string (h_number_text host)
          in totalUsage s2 = add_usage (h_round host) (totalUsage s) (cr_usage reply)
           \<and> (\<forall>n. \<bar>n\<bar> \<le> MAX_SAFE_INTEGER \<longrightarrow> render (Fin (of_int n)) = show_int n)
           \<and> (\<forall>limit. MAX_PROMPT_TOKENS config = Some limit
                    \<and> js_gt (prompt_tokens (totalUsage s2)) limit \<longrightarrow>
                turn_loop host config llm_query model_name run_id i messages pyodide s
                = (Inl (new_Error (''Prompt token budget exceeded: ''
                          @ render (prompt_tokens (totalUsage s2)) @ '' used, limit is ''
                          @ render limit)), s2))
           \<and> (\<forall>limit. MAX_COMPLETION_TOKENS config = Some limit
                    \<and> js_gt (completion_tokens (totalUsage s2)) limit
                    \<and> \<not> (\<exists>prompt_limit. MAX_PROMPT_TOKENS config = Some prompt_limit
                            \<and> js_gt (prompt_tokens (totalUsage s2)) prompt_limit) \<longrightarrow>
                turn_loop host config llm_query model_name run_id i messages pyodide s
                = (Inl (new_Error (''Completion token budget exceeded: ''
                          @ render (completion_tokens (totalUsage s2)) @ '' used, limit is ''
                          @ render limit)), s2)))"
proof -
  let ?s2 = "after_chat host run_id model_name messages reply w s"
  have acc: "totalUsage ?s2 = add_usage (h_round host) (totalUsage s) (cr_usage reply)"
    by (simp add: after_chat_def trackUsage_def issue_chat_def)
  have p: "turn_loop host config llm_query model_name run_id i messages pyodide s
      = (Inl (new_Error (''Prompt token budget exceeded: ''
            @ js_number_string (h_number_text host) (prompt_tokens (totalUsage ?s2)) @ '' used, limit is ''
            @ js_number_string (h_number_text host) limit)), ?s2)"
    if "MAX_PROMPT_TOKENS config = Some limit" "js_gt (prompt_tokens (totalUsage ?s2)) limit" for limit
    by (rule turn_loop_budget [OF assms])
       (use that in \<open>simp add: budget_violation_def getTotalUsage_def\<close>)
  have c: "turn_loop host config llm_query model_name run_id i messages pyodide s
      = (Inl (new_Error (''Completion token budget exceeded: ''
            @ js_number_string (h_number_text host) (completion_tokens (totalUsage ?s2)) @ '' used, limit is ''
            @ js_number_string (h_number_text host) limit)), ?s2)"
    if "MAX_COMPLETION_TOKENS config = Some limit" "js_gt (completion_tokens (totalUsage ?s2)) limit"
      "\<not> (\<exists>l. MAX_PROMPT_TOKENS config = Some l \<and> js_gt (prompt_tokens (totalUsage ?s2)) l)" for limit
    by (rule turn_loop_budget [OF assms])
       (use that in \<open>auto simp add: budget_violation_def getTotalUsage_def split: option.splits\<close>)
  have r: "js_number_string (h_number_text host) (Fin (of_int n)) = show_int n"
    if "\<bar>n\<bar> \<le> MAX_SAFE_INTEGER" for n
    using that by (simp add: js_number_string_def)
  show ?thesis
    unfolding Let_def using acc p c r by (auto simp del: not_ex)
qed

text \<open>
  Claim C1 says the same of the completion budget as of the prompt budget. When both budgets
  are exceeded in the same turn, the prompt check comes first: the completion budget of 100
  is exceeded by 150 accumulated completion tokens, and the message is the one of the prompt
  budget.
\<close>

theorem budget_completion_not_reported:
  "(let host = example_host (\<lambda>w. reply_with ''x'' True 150 150) (\<lambda>p. Return (Suc p)) (\<lambda>p. JUndefined);
        config = example_config 2 1 (JNum (Fin 100)) (JNum (Fin 100));
        r = turn_loop host config (\<lambda>query st. (Inr JNull, st)) (Some ''gpt-5'') 0 0 [] 0 example_state
    in MAX_COMPLETION_TOKENS config = Some (Fin 100)
     \<and> js_gt (completion_tokens (totalUsage (snd r))) (Fin 100)
     \<and> fst r = Inl (new_Error ''Prompt token budget exceeded: 150 used, limit is 100'')
     \<and> fst r \<noteq> Inl (new_Error ''Completion token budget exceeded: 150 used, limit is 100''))"
  by (subst turn_loop.simps)
     (simp add: example_defs Let_def MAX_CALLS_def MAX_PROMPT_TOKENS_def MAX_COMPLETION_TOKENS_def
        budget_violation_def getTotalUsage_def trackUsage_def issue_chat_def add_usage_def noUsage_def
        js_gt_def js_le_def js_number_string_def MAX_SAFE_INTEGER_def show_int_150 new_Error_def)

theorem turn_loop_budget_check_witness:
  "(let host = example_host (\<lambda>w. reply_with ''x'' True 150 150) (\<lambda>p. Return (Suc p)) (\<lambda>p. JUndefined);
        config = example_config 2 1 (JNum (Fin 1000)) (JNum (Fin 100));
        r = turn_loop host config (\<lambda>query st. (Inr JNull, st)) (Some ''gpt-5'') 0 0 [] 0 example_state
    in fst r = Inl (new_Error ''Completion token budget exceeded: 150 used, limit is 100'')
     \<and> completion_tokens (totalUsage (snd r)) = Fin 150 \<and> prompt_tokens (totalUsage (snd r)) = Fin 150)"
proof -
  let ?host = "example_host (\<lambda>w. reply_with ''x'' True 150 150) (\<lambda>p. Return (Suc p)) (\<lambda>p. JUndefined)"
  let ?config = "example_config 2 1 (JNum (Fin 1000)) (JNum (Fin 100))"
  have a: "int 0 < MAX_CALLS ?config" by (simp add: example_defs MAX_CALLS_def)
  have b: "h_generate_code ?host (world example_state) [] (Some ''gpt-5'')
      = (Inr \<lparr> cr_code = ''x'', cr_success = True, cr_message = JObj [(''role'', JStr ''assistant'')],
           cr_usage = \<lparr> prompt_tokens = Fin 150, completion_tokens = Fin 150,
                        total_tokens = Fin 300, cached_tokens = Fin 0,
                        reasoning_tokens = Fin 0, cost = Fin 0 \<rparr> \<rparr>, 1)"
    by (simp add: example_defs)
  show ?thesis
    using turn_loop_budget_check [OF a b, where run_id = 0 and llm_query = "\<lambda>query st. (Inr JNull, st)"
        and pyodide = 0]
    by (simp add: example_defs Let_def MAX_PROMPT_TOKENS_def MAX_COMPLETION_TOKENS_def
        after_chat_def trackUsage_def issue_chat_def add_usage_def noUsage_def
        js_gt_def js_le_def js_number_string_def MAX_SAFE_INTEGER_def show_int_150 new_Error_def)
qed

lemma turn_loop_result:
  "fst (turn_loop host config q model_name run_id i messages pyodide s) = Inr v \<Longrightarrow> v \<noteq> JUndefined"
proof (induction "nat (MAX_CALLS config - int i)" arbitrary: i messages pyodide s)
  case 0
  then have "\<not> int i < MAX_CALLS config" by simp
  with 0(2) show ?case by (simp add: turn_loop_exhausted)
next
  case (Suc k)
  then have lt: "int i < MAX_CALLS config" and k: "k = nat (MAX_CALLS config - int (i + 1))"
    by simp_all
  obtain r w where gen: "h_generate_code host (world s) messages model_name = (r, w)"
    by (cases "h_generate_code host (world s) messages model_name") auto
  show ?case
  proof (cases r)
    case (Inl err)
    show ?thesis using turn_loop_chat_error [OF lt gen [unfolded Inl]] Suc.prems by simp
  next
    case (Inr reply)
    let ?s2 = "after_chat host run_id model_name messages reply w s"
    note gen' = gen [unfolded Inr]
    show ?thesis
    proof (cases "budget_violation config (h_number_text host) (getTotalUsage ?s2)")
      case (Some err)
      show ?thesis using turn_loop_budget [OF lt gen' Some] Suc.prems by simp
    next
      case None
      show ?thesis
      proof (cases "cr_success reply")
        case False
        show ?thesis
          using turn_loop_no_code [OF lt gen' None False] Suc.prems Suc.hyps(1) [OF k] by simp
      next
        case True
        obtain thrown p1 captured s3 where run:
          "run_python q (h_runPython host pyodide (cr_code reply)) ([], ?s2) = ((thrown, p1), captured, s3)"
          by (rule run_result_cases)
        show ?thesis
        proof (cases "h_final_result host p1 = JUndefined")
          case False
          show ?thesis
            using turn_loop_final [OF lt gen' None True run False] Suc.prems False by simp
        next
          case undef: True
          show ?thesis
            using turn_loop_continue [OF lt gen' None True run undef] Suc.prems Suc.hyps(1) [OF k]
            by simp
        qed
      qed
    qed
  qed
qed

lemma agent_body_result:
  "fst (agent_body host config q context_text model_name run_id s) = Inr v \<Longrightarrow> v \<noteq> JUndefined"
  by (auto simp: agent_body_def split: prod.splits option.splits dest: turn_loop_result)

lemma subagent_result:
  "fst (subagent host config context_text d parent_run_id runtimeModels s) = Inr v \<Longrightarrow> v \<noteq> JUndefined"
  by (auto simp: subagent_unfold split: prod.splits sum.splits dest: agent_body_result)

lemma log_grows_quiet: "quiet_steps log_grows"
  unfolding quiet_steps_def
proof (intro conjI allI impI)
  fix s t u :: "'a state"
  assume "log_grows s t \<and> log_grows t u"
  then show "log_grows s u" unfolding log_grows_def using prefix_order.trans by blast
qed (simp_all add: log_grows_def console_error_def logStep_def logFinalResult_def trackUsage_def)

lemma log_grows_issue: "log_grows s (issue_chat run_id m messages w s)"
  by (simp add: log_grows_def issue_chat_def)

lemma fold_console_error_log [simp]:
  "log_events (fold (\<lambda>l. console_error (f l)) ls s) = log_events s"
  by (induction ls arbitrary: s) (simp_all add: console_error_def)

lemma resolve_models_log [simp]:
  "log_events (snd (resolve_models host config rm s)) = log_events s"
  by (simp add: resolve_models_def resolveRuntimeModelSelection_def Let_def
        split: option.splits sum.splits prod.splits)

lemma subagent_log_grows:
  "log_grows (snd (new_Logger d (MAX_CALLS config) parent_run_id (emitConfigWarnings config s)))
     (snd (subagent host config context_text d parent_run_id runtimeModels s))"
proof (induction "nat (MAX_DEPTH config - int d)" arbitrary: d context_text parent_run_id runtimeModels s)
  case 0
  let ?s1 = "snd (new_Logger d (MAX_CALLS config) parent_run_id (emitConfigWarnings config s))"
  obtain r s2 where rm: "resolve_models host config runtimeModels ?s1 = (r, s2)"
    by (cases "resolve_models host config runtimeModels ?s1") auto
  have s2: "log_events s2 = log_events ?s1"
    using resolve_models_log [of host config runtimeModels ?s1] rm by simp
  show ?case
  proof (cases r)
    case (Inl err)
    then show ?thesis using rm s2 by (simp add: subagent_unfold log_grows_def)
  next
    case (Inr models)
    have "callback_keeps log_grows (llm_query_of host config d (next_run_id s) models)"
      using 0 by (simp add: callback_keeps_def llm_query_of_def log_grows_def)
    from agent_body_keeps [OF log_grows_quiet this log_grows_issue]
    have "log_grows s2 (snd (agent_body host config (llm_query_of host config d (next_run_id s) models)
            context_text (if d = 0 then primaryAgent models else subAgent models) (next_run_id s) s2))" .
    then show ?thesis
      unfolding subagent_unfold rm Inr prod.case sum.case log_grows_def s2 .
  qed
next
  case (Suc k)
  let ?s1 = "snd (new_Logger d (MAX_CALLS config) parent_run_id (emitConfigWarnings config s))"
  obtain r s2 where rm: "resolve_models host config runtimeModels ?s1 = (r, s2)"
    by (cases "resolve_models host config runtimeModels ?s1") auto
  have s2: "log_events s2 = log_events ?s1"
    using resolve_models_log [of host config runtimeModels ?s1] rm by simp
  have k: "k = nat (MAX_DEPTH config - int (d + 1))" using Suc(2) by simp
  show ?case
  proof (cases r)
    case (Inl err)
    then show ?thesis using rm s2 by (simp add: subagent_unfold log_grows_def)
  next
    case (Inr models)
    have child: "log_grows t (snd (subagent host config query (d + 1) (Some (next_run_id s)) (Some models) t))"
      for query t
    proof -
      let ?t1 = "snd (new_Logger (d + 1) (MAX_CALLS config) (Some (next_run_id s)) (emitConfigWarnings config t))"
      have "log_grows t ?t1" by (simp add: log_grows_def same_model_start)
      moreover have "log_grows ?t1
          (snd (subagent host config query (d + 1) (Some (next_run_id s)) (Some models) t))"
        by (rule Suc(1) [OF k])
      ultimately show ?thesis unfolding log_grows_def by (rule prefix_order.trans)
    qed
    have "callback_keeps log_grows (llm_query_of host config d (next_run_id s) models)"
      unfolding callback_keeps_def
    proof (intro allI)
      fix query buf t
      show "log_grows t (snd (snd (llm_query_of host config d (next_run_id s) models query (buf, t))))"
        using child [of t query]
        by (auto simp: llm_query_of_def log_grows_def split: prod.splits)
    qed
    from agent_body_keeps [OF log_grows_quiet this log_grows_issue]
    have "log_grows s2 (snd (agent_body host config (llm_query_of host config d (next_run_id s) models)
            context_text (if d = 0 then primaryAgent models else subAgent models) (next_run_id s) s2))" .
    then show ?thesis
      unfolding subagent_unfold rm Inr prod.case sum.case log_grows_def s2 .
  qed
qed

lemma subagent_run_start:
  "\<exists>events. log_events (snd (subagent host config context_text d parent_run_id runtimeModels s))
      = log_events s @ Run_start (next_run_id s) parent_run_id d # events"
proof -
  from subagent_log_grows [of d config parent_run_id s host context_text runtimeModels]
  obtain events where
    "log_events (snd (subagent host config context_text d parent_run_id runtimeModels s))
      = log_events (snd (new_Logger d (MAX_CALLS config) parent_run_id (emitConfigWarnings config s))) @ events"
    by (auto simp: log_grows_def prefix_def)
  then show ?thesis by (simp add: same_model_start)
qed

lemma turn_loop_runs_out:
  assumes chat: "\<forall>w ms. \<exists>reply w'. h_generate_code host w ms model_name = (Inr reply, w')"
    and never: "\<forall>p. h_final_result host p = JUndefined"
    and budget: "MAX_PROMPT_TOKENS config = None" "MAX_COMPLETION_TOKENS config = None"
  shows "fst (turn_loop host config q model_name run_id i messages pyodide s)
          = Inl (new_Error ''Did not finish the function stack before subagent died'')"
proof (induction "nat (MAX_CALLS config - int i)" arbitrary: i messages pyodide s)
  case 0
  then have "\<not> int i < MAX_CALLS config" by simp
  then show ?case by (simp add: turn_loop_exhausted)
next
  case (Suc k)
  then have lt: "int i < MAX_CALLS config" and k: "k = nat (MAX_CALLS config - int (i + 1))"
    by simp_all
  from chat obtain reply w where gen: "h_generate_code host (world s) messages model_name = (Inr reply, w)"
    by blast
  let ?s2 = "after_chat host run_id model_name messages reply w s"
  have None: "budget_violation config (h_number_text host) (getTotalUsage ?s2) = None"
    by (simp add: budget_violation_def budget)
  show ?case
  proof (cases "cr_success reply")
    case False
    show ?thesis
      using turn_loop_no_code [OF lt gen None False] Suc.hyps(1) [OF k] by simp
  next
    case True
    obtain thrown p1 captured s3 where run:
      "run_python q (h_runPython host pyodide (cr_code reply)) ([], ?s2) = ((thrown, p1), captured, s3)"
      by (rule run_result_cases)
    have undef: "h_final_result host p1 = JUndefined" using never by simp
    show ?thesis
      using turn_loop_continue [OF lt gen None True run undef] Suc.hyps(1) [OF k] by simp
  qed
qed

text \<open>
  Claim C8. Among the chat requests recorded during a run of \<open>subagent\<close>, at most
  \<open>MAX_CALLS\<close> are requests of this agent itself: its run identifier is the next one of the
  state it starts in, as the \<open>run_start\<close> event it logs first shows, and the other requests
  belong to the agents below it. Turns without extracted code
  are counted, since the request is recorded before the reply is looked at. When the loop
  reaches its end, that is at every \<open>i\<close> that is not below \<open>MAX_CALLS\<close>, it throws the error
  \<open>Did not finish the function stack before subagent died\<close> and leaves the state as it is.
  A whole run of the loop, from any turn on, ends with that error when no request fails, no
  run of the sandbox sets a final result and no token budget is set. And a run that returns
  a value returns a final result that was set.
\<close>

theorem subagent_call_bound:
  "int (length (own_calls (next_run_id s) s
          (snd (subagent host config context_text d parent_run_id runtimeModels s))))
     \<le> max 0 (MAX_CALLS config)
   \<and> (\<exists>events. log_events (snd (subagent host config context_text d parent_run_id runtimeModels s))
          = log_events s @ Run_start (next_run_id s) parent_run_id d # events)
   \<and> (\<not> int i < MAX_CALLS config \<longrightarrow>
        turn_loop host config llm_query model_name run_id i messages pyodide t
          = (Inl (new_Error ''Did not finish the function stack before subagent died''), t))
   \<and> ((\<forall>w ms. \<exists>reply w'. h_generate_code host w ms model_name = (Inr reply, w'))
        \<and> (\<forall>p. h_final_result host p = JUndefined)
        \<and> MAX_PROMPT_TOKENS config = None \<and> MAX_COMPLETION_TOKENS config = None \<longrightarrow>
        fst (turn_loop host config llm_query model_name run_id i messages pyodide t)
          = Inl (new_Error ''Did not finish the function stack before subagent died''))
   \<and> (\<forall>v. fst (subagent host config context_text d parent_run_id runtimeModels s) = Inr v
          \<longrightarrow> v \<noteq> JUndefined)"
proof (intro conjI impI allI)
  let ?s' = "snd (subagent host config context_text d parent_run_id runtimeModels s)"
  have "agent_calls config s ?s'" by (rule subagent_calls)
  then obtain added where a: "chat_calls ?s' = chat_calls s @ added"
    "length (filter (\<lambda>c. call_run c = next_run_id s) added) \<le> nat (MAX_CALLS config)"
    unfolding agent_calls_def by blast
  have "own_calls (next_run_id s) s ?s' = filter (\<lambda>c. call_run c = next_run_id s) added"
    by (simp add: own_calls_def a(1))
  with a(2) show "int (length (own_calls (next_run_id s) s ?s')) \<le> max 0 (MAX_CALLS config)"
    by simp
next
  show "\<exists>events. log_events (snd (subagent host config context_text d parent_run_id runtimeModels s))
          = log_events s @ Run_start (next_run_id s) parent_run_id d # events"
    by (rule subagent_run_start)
next
  assume "\<not> int i < MAX_CALLS config"
  then show "turn_loop host config llm_query model_name run_id i messages pyodide t
          = (Inl (new_Error ''Did not finish the function stack before subagent died''), t)"
    by (rule turn_loop_exhausted)
next
  assume "(\<forall>w ms. \<exists>reply w'. h_generate_code host w ms model_name = (Inr reply, w'))
        \<and> (\<forall>p. h_final_result host p = JUndefined)
        \<and> MAX_PROMPT_TOKENS config = None \<and> MAX_COMPLETION_TOKENS config = None"
  then have "\<forall>w ms. \<exists>reply w'. h_generate_code host w ms model_name = (Inr reply, w')"
    "\<forall>p. h_final_result host p = JUndefined"
    "MAX_PROMPT_TOKENS config = None" "MAX_COMPLETION_TOKENS config = None"
    by blast+
  then show "fst (turn_loop host config llm_query model_name run_id i messages pyodide t)
          = Inl (new_Error ''Did not finish the function stack before subagent died'')"
    by (rule turn_loop_runs_out)
next
  fix v
  assume "fst (subagent host config context_text d parent_run_id runtimeModels s) = Inr v"
  then show "v \<noteq> JUndefined" by (rule subagent_result)
qed

lemmas agent_eval = subagent_unfold resolve_models_def agent_body_def turn_loop.simps llm_query_of_def
  new_Logger_def emitConfigWarnings_def logStep_def logFinalResult_def trackUsage_def issue_chat_def
  getTotalUsage_def budget_violation_def add_usage_def noUsage_def console_error_def
  MAX_CALLS_def MAX_DEPTH_def TRUNCATE_LEN_def MAX_PROMPT_TOKENS_def MAX_COMPLETION_TOKENS_def
  Let_def new_Error_def

lemma example_exhausted:
  "(let r = subagent (example_host (\<lambda>w. reply_with [] False 10 5) (\<lambda>p. Return (Suc p)) (\<lambda>p. JUndefined))
              (example_config 2 1 JUndefined JUndefined) ''ctx'' 0 None (Some example_models) example_state
    in fst r = Inl (new_Error ''Did not finish the function stack before subagent died'')
     \<and> map call_run (chat_calls (snd r)) = [0, 0])"
  by (simp add: agent_eval example_defs)

theorem subagent_call_bound_witness:
  "(let host = example_host (\<lambda>w. reply_with [] False 10 5) (\<lambda>p. Return (Suc p)) (\<lambda>p. JUndefined);
        config = example_config 2 1 JUndefined JUndefined;
        r = subagent host config ''ctx'' 0 None (Some example_models) example_state
    in fst r = Inl (new_Error ''Did not finish the function stack before subagent died'')
     \<and> map call_run (chat_calls (snd r)) = [0, 0]
     \<and> int (length (own_calls (next_run_id example_state) example_state (snd r))) \<le> 2
     \<and> fst (turn_loop host config (\<lambda>query st. (Inr JNull, st)) (Some ''gpt-5'') 0 0 [] 0 example_state)
         = Inl (new_Error ''Did not finish the function stack before subagent died''))"
proof -
  let ?host = "example_host (\<lambda>w. reply_with [] False 10 5) (\<lambda>p. Return (Suc p)) (\<lambda>p. JUndefined)"
  let ?config = "example_config 2 1 JUndefined JUndefined"
  note bound = subagent_call_bound [where s = example_state and host = ?host and config = ?config
      and context_text = "''ctx''" and d = 0 and parent_run_id = None
      and runtimeModels = "Some example_models" and model_name = "Some ''gpt-5''"
      and llm_query = "\<lambda>query st. (Inr JNull, st)" and run_id = 0 and i = 0 and messages = "[]"
      and pyodide = 0 and t = example_state]
  have calls: "MAX_CALLS ?config = 2"
    by (simp add: example_defs MAX_CALLS_def)
  have replies: "\<forall>w ms. \<exists>reply w'. h_generate_code ?host w ms (Some ''gpt-5'') = (Inr reply, w')"
    by (simp add: example_defs)
  have never: "\<forall>p. h_final_result ?host p = JUndefined"
    by (simp add: example_defs)
  have budgets: "MAX_PROMPT_TOKENS ?config = None" "MAX_COMPLETION_TOKENS ?config = None"
    by (simp_all add: example_defs MAX_PROMPT_TOKENS_def MAX_COMPLETION_TOKENS_def)
  from bound calls
  have own: "int (length (own_calls (next_run_id example_state) example_state
          (snd (subagent ?host ?config ''ctx'' 0 None (Some example_models) example_state)))) \<le> 2"
    by simp
  from bound replies never budgets
  have out: "fst (turn_loop ?host ?config (\<lambda>query st. (Inr JNull, st)) (Some ''gpt-5'') 0 0 [] 0 example_state)
         = Inl (new_Error ''Did not finish the function stack before subagent died'')"
    by blast
  from example_exhausted own out show ?thesis by (simp add: Let_def)
qed

theorem llm_query_depth_witness:
  "(let host = example_host (\<lambda>w. reply_with ''x'' True 10 5) example_script example_final;
        config = example_config 3 1 JUndefined JUndefined
    in llm_query_of host config 1 0 example_models ''sub'' (''out'', example_state)
         = (Inl (new_Error MAXIMUM_DEPTH_REACHED),
            ''out'' @ [CHR 0x0A] @ ''Error: '' @ MAXIMUM_DEPTH_REACHED @ [CHR 0x0A], example_state)
     \<and> (case llm_query_of host config 0 0 example_models ''sub''
                (''out'', example_state \<lparr> next_run_id := 1 \<rparr>) of
           (result, stdoutBuffer, s') \<Rightarrow>
             result = Inr (JStr ''done'') \<and> stdoutBuffer = ''out''
             \<and> hd (log_events s') = Run_start 1 (Some 0) 1
             \<and> map call_model (chat_calls s') = [Some ''gpt-5-codex-mini'', Some ''gpt-5-codex-mini'']
             \<and> map call_run (chat_calls s') = [1, 1]))"
proof -
  let ?host = "example_host (\<lambda>w. reply_with ''x'' True 10 5) example_script example_final"
  let ?config = "example_config 3 1 JUndefined JUndefined"
  show ?thesis
    using llm_query_depth [where host = ?host and config = ?config and d = 1 and run_id = 0
        and models = example_models and query = "''sub''" and stdoutBuffer = "''out''"
        and s = example_state and context_text = "''sub''" and parent_run_id = None
        and runtimeModels = "Some example_models"]
      llm_query_depth [where host = ?host and config = ?config and d = 0 and run_id = 0
        and models = example_models and query = "''sub''" and stdoutBuffer = "''out''"
        and s = "example_state \<lparr> next_run_id := 1 \<rparr>" and context_text = "''sub''"
        and parent_run_id = None and runtimeModels = "Some example_models"]
    by (simp add: agent_eval example_defs example_script_def example_final_def
          MAXIMUM_DEPTH_REACHED_def)
qed

section \<open>Properties of the run command\<close>

text \<open>
  Claim C9 says that a bearer token in a surfaced error message is redacted before the
  message reaches stderr, on every error path, fatal errors printed by the run command
  included. In the example the model list request fails with a message that holds
  \<open>Bearer sk-live-123\<close>. The \<open>catch\<close> of \<open>runSubagentCommand\<close> prints the message as it is,
  the command returns exit code 6, and the entry point, which redacts the errors it
  catches, has nothing to catch. \<open>redactSecrets\<close> on the same message removes the token.
\<close>

theorem run_command_prints_secret:
  "(case run_command_main leaky_host example_cli (example_config 2 1 JUndefined JUndefined)
           example_run example_process of
      (exit_code, p) \<Rightarrow>
        exit_code = 6
        \<and> stderr (agent p) =
            [[CHR 0x0A] @ ''Fatal error: Failed to fetch models from http://127.0.0.1:8317/v1/models: 401 Unauthorized. Response: invalid Authorization: Bearer sk-live-123''])
   \<and> redactSecrets
         ''Failed to fetch models from http://127.0.0.1:8317/v1/models: 401 Unauthorized. Response: invalid Authorization: Bearer sk-live-123''
       = ''Failed to fetch models from http://127.0.0.1:8317/v1/models: 401 Unauthorized. Response: invalid Authorization: Bearer [REDACTED]''"
proof -
  have env: "resolveProxyClientConfig leaky_env
      = Inr \<lparr> apiKey = ''sk-live-123'', baseURL = ''http://127.0.0.1:8317/v1'' \<rparr>"
    by (simp add: resolveProxyClientConfig_def readRequiredEnv_def getEnvValue_def js_trim_def
          js_whitespace_def leaky_env_def Let_def)
  have run: "run_command_main leaky_host example_cli (example_config 2 1 JUndefined JUndefined)
           example_run example_process
      = (6, example_process \<lparr> agent := (resetUsage example_state)
            \<lparr> next_run_id := 1, log_events := [Run_start 0 None 0],
              stderr := [[CHR 0x0A] @ ''Fatal error: Failed to fetch models from http://127.0.0.1:8317/v1/models: 401 Unauthorized. Response: invalid Authorization: Bearer sk-live-123''] \<rparr> \<rparr>)"
    by (simp add: run_command_main_def runSubagentCommand_def subagent_unfold resolve_models_def
          resolveRuntimeModelSelection_def env new_Logger_def emitConfigWarnings_def
          console_error_def resetUsage_def fatal_line_def example_defs example_process_def
          example_run_def leaky_host_def new_Error_def EXIT_RUNTIME_def Let_def)
  have red: "redactSecrets
         ''Failed to fetch models from http://127.0.0.1:8317/v1/models: 401 Unauthorized. Response: invalid Authorization: Bearer sk-live-123''
       = ''Failed to fetch models from http://127.0.0.1:8317/v1/models: 401 Unauthorized. Response: invalid Authorization: Bearer [REDACTED]''"
    by (simp add: redactSecrets_def match_bearer_def match_api_key_def bearer_word_def token_char_def
          js_whitespace_def Let_def)
  show ?thesis unfolding run by (simp add: red)
qed

end
